(* ===== verification/Prelude.thy ===== *)
theory Prelude
  imports Complex_Main "HOL-Library.Monad_Syntax"
begin

text \<open>
  Shared vocabulary of the development: the lemma collections of the
  components, database tables as lists of rows (the shape in which the
  repositories under src/src/infra/databases/drizzle see them), the few
  JavaScript string and number primitives the code uses, and the generic list
  and sum lemmas that the component theories share.
\<close>

section \<open>Lemma collections\<close>

named_theorems table_simps \<open>facts about SELECT, UPDATE, INSERT and DELETE on list tables\<close>
named_theorems account_simps \<open>facts about account entities and their balance effects\<close>
named_theorems ledger_simps \<open>facts about the balance ledger and its sums\<close>
named_theorems calendar_simps \<open>facts about civil dates and day numbers\<close>
named_theorems service_simps \<open>facts that unfold the application services\<close>

section \<open>Result values\<close>

text \<open>
  \<open>Either\<close> of src/src/shared/core/errors/Either.ts is the sum type: \<open>left e\<close> is
  \<^term>\<open>Inl e\<close> and \<open>right v\<close> is \<^term>\<open>Inr v\<close>.
\<close>

definition isRight :: "'e + 'a \<Rightarrow> bool" where
  "isRight r = (case r of Inl _ \<Rightarrow> False | Inr _ \<Rightarrow> True)"

definition isLeft :: "'e + 'a \<Rightarrow> bool" where
  "isLeft r = (case r of Inl _ \<Rightarrow> True | Inr _ \<Rightarrow> False)"

fun and_then :: "'e + 'a \<Rightarrow> ('a \<Rightarrow> 'e + 'b) \<Rightarrow> 'e + 'b" where
  "and_then (Inl e) f = Inl e"
| "and_then (Inr x) f = f x"

lemma isRight_simps [simp]: "isRight (Inr x)" "\<not> isRight (Inl e)"
  by (simp_all add: isRight_def)

lemma isLeft_iff_not_isRight: "isLeft r \<longleftrightarrow> \<not> isRight r"
  by (cases r) (simp_all add: isRight_def isLeft_def)

lemma and_then_Inr_iff: "and_then r f = Inr y \<longleftrightarrow> (\<exists>x. r = Inr x \<and> f x = Inr y)"
  by (cases r) auto

lemma and_then_Inl_iff:
  "and_then r f = Inl e \<longleftrightarrow> r = Inl e \<or> (\<exists>x. r = Inr x \<and> f x = Inl e)"
  by (cases r) auto

lemma and_then_assoc: "and_then (and_then r f) g = and_then r (\<lambda>x. and_then (f x) g)"
  by (cases r) simp_all

section \<open>Tables as lists of rows\<close>

text \<open>
  A table is the list of its rows in insertion order. \<open>find_row\<close> is a SELECT
  with LIMIT 1, \<open>update_rows\<close> an UPDATE ... WHERE, \<open>delete_rows\<close> a
  DELETE ... WHERE; \<open>distinct_by\<close> says that a key column is unique.
\<close>

definition find_row :: "('r \<Rightarrow> bool) \<Rightarrow> 'r list \<Rightarrow> 'r option" where
  "find_row p t = List.find p t"

definition update_rows :: "('r \<Rightarrow> bool) \<Rightarrow> ('r \<Rightarrow> 'r) \<Rightarrow> 'r list \<Rightarrow> 'r list" where
  "update_rows p f t = map (\<lambda>r. if p r then f r else r) t"

definition delete_rows :: "('r \<Rightarrow> bool) \<Rightarrow> 'r list \<Rightarrow> 'r list" where
  "delete_rows p t = filter (\<lambda>r. \<not> p r) t"

definition distinct_by :: "('r \<Rightarrow> 'k) \<Rightarrow> 'r list \<Rightarrow> bool" where
  "distinct_by key t = distinct (map key t)"

lemma find_row_Nil [table_simps]: "find_row p [] = None"
  by (simp add: find_row_def)

lemma find_row_Cons [table_simps]: "find_row p (r # t) = (if p r then Some r else find_row p t)"
  by (simp add: find_row_def)

lemma find_row_append [table_simps]:
  "find_row p (t @ u) = (case find_row p t of None \<Rightarrow> find_row p u | Some r \<Rightarrow> Some r)"
  by (induction t) (simp_all add: table_simps)

lemma find_row_SomeD: "find_row p t = Some r \<Longrightarrow> r \<in> set t \<and> p r"
  by (induction t) (auto simp: table_simps split: if_splits)

lemma find_row_None_iff: "find_row p t = None \<longleftrightarrow> (\<forall>r\<in>set t. \<not> p r)"
  by (induction t) (simp_all add: table_simps)

lemma find_row_key_Some_iff:
  assumes "distinct_by key t"
  shows "find_row (\<lambda>r. key r = k) t = Some r \<longleftrightarrow> r \<in> set t \<and> key r = k"
  using assms unfolding distinct_by_def
  by (induction t) (auto simp: table_simps)

lemma find_row_update_rows_same [table_simps]:
  assumes "\<And>r. key (f r) = key r"
  shows "find_row (\<lambda>r. key r = k) (update_rows (\<lambda>r. key r = k) f t)
       = map_option f (find_row (\<lambda>r. key r = k) t)"
  using assms by (induction t) (auto simp: update_rows_def table_simps)

lemma find_row_update_rows_other [table_simps]:
  assumes "\<And>r. key (f r) = key r" "k \<noteq> k'"
  shows "find_row (\<lambda>r. key r = k) (update_rows (\<lambda>r. key r = k') f t)
       = find_row (\<lambda>r. key r = k) t"
  using assms by (induction t) (auto simp: update_rows_def table_simps)

lemma find_row_delete_rows_same [table_simps]:
  "find_row p (delete_rows p t) = None"
  by (simp add: find_row_None_iff delete_rows_def)

lemma find_row_delete_rows_other [table_simps]:
  assumes "\<And>r. p r \<Longrightarrow> \<not> q r"
  shows "find_row p (delete_rows q t) = find_row p t"
  using assms by (induction t) (auto simp: delete_rows_def table_simps)

lemma map_key_update_rows [table_simps]:
  assumes "\<And>r. key (f r) = key r"
  shows "map key (update_rows p f t) = map key t"
  using assms by (simp add: update_rows_def)

lemma distinct_by_update_rows [table_simps]:
  assumes "\<And>r. key (f r) = key r"
  shows "distinct_by key (update_rows p f t) = distinct_by key t"
  using assms by (simp add: distinct_by_def table_simps)

lemma distinct_by_delete_rows: "distinct_by key t \<Longrightarrow> distinct_by key (delete_rows p t)"
  by (simp add: distinct_by_def delete_rows_def distinct_map_filter)

lemma distinct_by_snoc [table_simps]:
  "distinct_by key (t @ [r]) \<longleftrightarrow> distinct_by key t \<and> find_row (\<lambda>x. key x = key r) t = None"
  by (auto simp: distinct_by_def find_row_None_iff) (metis rev_image_eqI)

lemma set_update_rows: "set (update_rows p f t) = {if p r then f r else r | r. r \<in> set t}"
  by (auto simp: update_rows_def)

lemma update_rows_id: "(\<And>r. r \<in> set t \<Longrightarrow> p r \<Longrightarrow> f r = r) \<Longrightarrow> update_rows p f t = t"
  by (induction t) (auto simp: update_rows_def)

lemma length_update_rows [table_simps]: "length (update_rows p f t) = length t"
  by (simp add: update_rows_def)

section \<open>JavaScript primitives\<close>

text \<open>
  \<open>String.prototype.trim\<close> on the white space of the Latin-1 range,
  \<open>Math.round\<close> (halves towards plus infinity) and the truncating division of
  \<open>BigInt\<close>.
\<close>

definition js_space :: "char \<Rightarrow> bool" where
  "js_space c = (of_char c \<in> {9, 10, 11, 12, 13, 32, 160 :: nat})"

definition js_trim :: "string \<Rightarrow> string" where
  "js_trim s = rev (dropWhile js_space (rev (dropWhile js_space s)))"

definition blank :: "string \<Rightarrow> bool" where
  "blank s = (js_trim s = [])"

definition js_round :: "rat \<Rightarrow> int" where
  "js_round x = \<lfloor>x + 1 / 2\<rfloor>"

definition bigint_div :: "int \<Rightarrow> int \<Rightarrow> int" where
  "bigint_div a b = sgn a * sgn b * (\<bar>a\<bar> div \<bar>b\<bar>)"

definition bigint_mod :: "int \<Rightarrow> int \<Rightarrow> int" where
  "bigint_mod a b = sgn a * (\<bar>a\<bar> mod \<bar>b\<bar>)"

lemma blank_iff_all_space: "blank s \<longleftrightarrow> (\<forall>c\<in>set s. js_space c)"
proof -
  have "(\<forall>c\<in>set (dropWhile js_space s). js_space c) \<longleftrightarrow> (\<forall>c\<in>set s. js_space c)"
    by (induction s) auto
  then show ?thesis by (simp add: blank_def js_trim_def)
qed

lemma bigint_div_nonneg: "0 \<le> a \<Longrightarrow> 0 < b \<Longrightarrow> bigint_div a b = a div b"
  by (cases "a = 0") (simp_all add: bigint_div_def)

lemma bigint_mod_nonneg: "0 \<le> a \<Longrightarrow> 0 < b \<Longrightarrow> bigint_mod a b = a mod b"
  by (cases "a = 0") (simp_all add: bigint_mod_def)

section \<open>Sums over lists\<close>

lemma sum_list_update_one:
  fixes g :: "'r \<Rightarrow> int"
  assumes "distinct_by key t" "r \<in> set t" "key r = k"
  shows "sum_list (map g (update_rows (\<lambda>x. key x = k) f t)) = sum_list (map g t) - g r + g (f r)"
  using assms
proof (induction t)
  case (Cons a t)
  then show ?case
  proof (cases "key a = k")
    case True
    then have "update_rows (\<lambda>x. key x = k) f t = t"
      using Cons.prems by (intro update_rows_id) (auto simp: distinct_by_def image_iff)
    moreover have "r = a" using True Cons.prems by (auto simp: distinct_by_def image_iff)
    ultimately show ?thesis using True by (simp add: update_rows_def)
  qed (auto simp: update_rows_def distinct_by_def)
qed simp

lemma sum_list_filter_split:
  "sum_list (map g t) = sum_list (map g (filter p t)) + sum_list (map g (filter (\<lambda>x. \<not> p x) t))"
  for g :: "'r \<Rightarrow> int"
  by (induction t) auto

lemma sum_list_replicate_const: "sum_list (replicate n c) = int n * c" for c :: int
  by (induction n) (simp_all add: algebra_simps)

lemma sum_list_nonneg_map: "(\<And>x. x \<in> set t \<Longrightarrow> 0 \<le> g x) \<Longrightarrow> 0 \<le> sum_list (map g t)"
  for g :: "'r \<Rightarrow> int"
  by (induction t) auto

end
