(* ===== verification/Errors.thy ===== *)
theory Errors
  imports Prelude
begin

text \<open>
  The error classes of src/src/modules/*/errors/index.ts as one datatype
  per module (a constructor per class; constructor arguments that reach the message are kept,
  fixed messages are not, and reason strings are written without accents), the
  abstract class each of them extends (src/src/shared/core/errors/DomainError.ts)
  and the HTTP status \<open>ErrorPresenter.toHTTP\<close> answers for it. \<open>JsError\<close> and
  \<open>JsTypeError\<close> are the plain \<open>Error\<close> and \<open>TypeError\<close> objects the code throws.
\<close>

text \<open>src/src/modules/account/errors/index.ts\<close>

datatype account_error =
    AccountNotFoundError string
  | AccountTypeError string
  | ConflictAccountError string
  | CreditLimitExceededError int int
  | InvalidAccountError string
  | ValidationAccountError string
  | InvalidClosingDaysBeforeDueError
  | InvalidDueDayError
  | InsufficientBalanceError string
  | PaymentExceedsInvoiceBalanceError

text \<open>src/src/modules/category/errors/index.ts\<close>

datatype category_error =
    InvalidCategoryNameError
  | InvalidCategoryTypeError
  | SystemCategoryModificationError
  | InvalidParentCategoryError string
  | CategoryHasTransactionsError
  | CategoryNotFoundError
  | ConflictCategoryError string
  | CategoryHasChildrenError

text \<open>src/src/modules/subscription/errors/index.ts\<close>

datatype subscription_error =
    SubscriptionNotActiveError
  | PlanLimitReachedError int int
  | WorkspaceMemberLimitReachedError int
  | WorkspaceOwnerNotFoundError
  | MissingWorkspaceIdError

text \<open>src/src/modules/transaction/errors/index.ts\<close>

datatype transaction_error =
    InvalidAmountError
  | InvalidRecurrenceIntervalError
  | MissingCategoryError
  | InvalidTransferError string
  | InvalidDateRangeError
  | StartDateCannotBeTodayOrPastError
  | EndDateMustBeInTheFutureError
  | RecurringTransactionNotFoundError
  | DestinationAccountRequiredForTransferError
  | CreditCardTransferNotAllowedError
  | InvestmentAccountNotAllowedError
  | InstallmentCountOutOfRangeError int int
  | SourceAndDestinationAccountMustBeDifferentError
  | TransactionNotFoundError
  | CannotPayInvoiceWithCreditCardError
  | CannotRemoveDestinationAccountError
  | TitleRequiredError
  | StatusRequiredError
  | DateRequiredError
  | TypeRequiredError
  | TransactionAlreadyCompletedError
  | TransactionAlreadyPendingError
  | TransactionStatusChangedConcurrentlyError
  | RecurringGenerationFailedError string
  | CardInstallmentSettlementFailedError int int
  | UnknownRecurrenceFrequencyError string
  | BalanceLedgerUncoveredError int "string list"
  | BalanceReconciliationDivergenceError "(string \<times> int) list"

text \<open>src/src/modules/user/errors/index.ts\<close>

datatype user_error =
    UserNotFoundError
  | WrongCredentialsError
  | UserAlreadyExistsError
  | EmailAlreadyInUseError
  | InvalidRefreshTokenError
  | InvalidPasswordError
  | PasswordTooWeakError
  | InvalidUserAgentError
  | MissingUserIdError
  | MissingAuthSessionError
  | MissingRefreshTokenHashError
  | InvalidExpirationDateError

text \<open>src/src/modules/workspace/errors/index.ts\<close>

datatype workspace_error =
    WorkspaceNotFoundError
  | WorkspaceUserNotFoundError
  | InviteNotFoundError
  | InviteExpiredError
  | InviteAlreadyUsedError
  | ConflictWorkspaceUserError
  | ConflictWorkspaceInviteError
  | InvalidWorkspaceInviteError
  | CannotDeleteDefaultWorkspaceError

text \<open>src/src/shared/errors/UnauthorizedError.ts and SessionExpiredError.ts\<close>

datatype shared_error = UnauthorizedError string | SessionExpiredError

text \<open>what JavaScript code and the framework throw directly\<close>

datatype thrown_error = HttpException int | JsError string | JsTypeError string

datatype app_error =
    AccountErr account_error
  | CategoryErr category_error
  | SubscriptionErr subscription_error
  | TransactionErr transaction_error
  | UserErr user_error
  | WorkspaceErr workspace_error
  | SharedErr shared_error
  | Thrown thrown_error

type_synonym 'a either = "app_error + 'a"

abbreviation left_account :: "account_error \<Rightarrow> 'a either" where "left_account e \<equiv> Inl (AccountErr e)"
abbreviation left_category :: "category_error \<Rightarrow> 'a either" where "left_category e \<equiv> Inl (CategoryErr e)"
abbreviation left_subscription :: "subscription_error \<Rightarrow> 'a either" where "left_subscription e \<equiv> Inl (SubscriptionErr e)"
abbreviation left_tx :: "transaction_error \<Rightarrow> 'a either" where "left_tx e \<equiv> Inl (TransactionErr e)"
abbreviation left_user :: "user_error \<Rightarrow> 'a either" where "left_user e \<equiv> Inl (UserErr e)"
abbreviation left_workspace :: "workspace_error \<Rightarrow> 'a either" where "left_workspace e \<equiv> Inl (WorkspaceErr e)"
abbreviation left_shared :: "shared_error \<Rightarrow> 'a either" where "left_shared e \<equiv> Inl (SharedErr e)"
abbreviation throw_js :: "string \<Rightarrow> 'a either" where "throw_js m \<equiv> Inl (Thrown (JsError m))"

datatype error_class = NotFoundDomainError | GoneDomainError | ConflictDomainError
  | BusinessRuleDomainError | UnauthorizedDomainError | ForbiddenDomainError | PlainDomainError | HttpError | PlainError

fun account_error_class :: "account_error \<Rightarrow> error_class" where
  "account_error_class (AccountNotFoundError _) = NotFoundDomainError"
| "account_error_class (ConflictAccountError _) = ConflictDomainError"
| "account_error_class _ = BusinessRuleDomainError"

fun category_error_class :: "category_error \<Rightarrow> error_class" where
  "category_error_class SystemCategoryModificationError = ForbiddenDomainError"
| "category_error_class (ConflictCategoryError _) = PlainError"
| "category_error_class CategoryHasChildrenError = PlainError"
| "category_error_class _ = BusinessRuleDomainError"

fun subscription_error_class :: "subscription_error \<Rightarrow> error_class" where
  "subscription_error_class SubscriptionNotActiveError = ForbiddenDomainError"
| "subscription_error_class (PlanLimitReachedError _ _) = ForbiddenDomainError"
| "subscription_error_class (WorkspaceMemberLimitReachedError _) = ForbiddenDomainError"
| "subscription_error_class _ = BusinessRuleDomainError"

definition transaction_error_class :: "transaction_error \<Rightarrow> error_class" where
  "transaction_error_class e = (case e of
       TransactionAlreadyCompletedError \<Rightarrow> ConflictDomainError
     | TransactionAlreadyPendingError \<Rightarrow> ConflictDomainError
     | TransactionStatusChangedConcurrentlyError \<Rightarrow> ConflictDomainError
     | RecurringGenerationFailedError _ \<Rightarrow> PlainDomainError
     | CardInstallmentSettlementFailedError _ _ \<Rightarrow> PlainDomainError
     | UnknownRecurrenceFrequencyError _ \<Rightarrow> PlainDomainError
     | BalanceLedgerUncoveredError _ _ \<Rightarrow> PlainDomainError
     | BalanceReconciliationDivergenceError _ \<Rightarrow> PlainDomainError
     | _ \<Rightarrow> BusinessRuleDomainError)"

fun user_error_class :: "user_error \<Rightarrow> error_class" where
  "user_error_class UserNotFoundError = NotFoundDomainError"
| "user_error_class UserAlreadyExistsError = ConflictDomainError"
| "user_error_class EmailAlreadyInUseError = ConflictDomainError"
| "user_error_class _ = BusinessRuleDomainError"

fun workspace_error_class :: "workspace_error \<Rightarrow> error_class" where
  "workspace_error_class WorkspaceNotFoundError = NotFoundDomainError"
| "workspace_error_class WorkspaceUserNotFoundError = NotFoundDomainError"
| "workspace_error_class InviteNotFoundError = NotFoundDomainError"
| "workspace_error_class InviteExpiredError = GoneDomainError"
| "workspace_error_class _ = ConflictDomainError"

fun error_class_of :: "app_error \<Rightarrow> error_class" where
  "error_class_of (AccountErr e) = account_error_class e"
| "error_class_of (CategoryErr e) = category_error_class e"
| "error_class_of (SubscriptionErr e) = subscription_error_class e"
| "error_class_of (TransactionErr e) = transaction_error_class e"
| "error_class_of (UserErr e) = user_error_class e"
| "error_class_of (WorkspaceErr e) = workspace_error_class e"
| "error_class_of (SharedErr (UnauthorizedError _)) = ForbiddenDomainError"
| "error_class_of (SharedErr SessionExpiredError) = UnauthorizedDomainError"
| "error_class_of (Thrown (HttpException _)) = HttpError"
| "error_class_of (Thrown _) = PlainError"

text \<open>\<open>error instanceof DomainError\<close>\<close>

definition is_DomainError :: "app_error \<Rightarrow> bool" where
  "is_DomainError e = (error_class_of e \<notin> {HttpError, PlainError})"

text \<open>
  \<open>ErrorPresenter.toHTTP\<close>: the status of the HTTP exception it throws. An
  \<open>HttpException\<close> is rethrown with its own status, everything else is a 500.
\<close>

definition toHTTP :: "app_error \<Rightarrow> int" where
  "toHTTP e = (case error_class_of e of
       NotFoundDomainError \<Rightarrow> 404
     | GoneDomainError \<Rightarrow> 410
     | ConflictDomainError \<Rightarrow> 409
     | BusinessRuleDomainError \<Rightarrow> 422
     | UnauthorizedDomainError \<Rightarrow> 401
     | ForbiddenDomainError \<Rightarrow> 403
     | HttpError \<Rightarrow> (case e of Thrown (HttpException s) \<Rightarrow> s | _ \<Rightarrow> 500)
     | PlainDomainError \<Rightarrow> 500
     | PlainError \<Rightarrow> 500)"

lemma is_DomainError_iff: "is_DomainError e \<longleftrightarrow>
    \<not> (\<exists>t. e = Thrown t \<or> e = CategoryErr CategoryHasChildrenError
           \<or> (\<exists>r. e = CategoryErr (ConflictCategoryError r)))"
proof (cases e)
  case (AccountErr a) then show ?thesis by (cases a) (simp_all add: is_DomainError_def)
next
  case (CategoryErr a) then show ?thesis by (cases a) (simp_all add: is_DomainError_def)
next
  case (SubscriptionErr a) then show ?thesis by (cases a) (simp_all add: is_DomainError_def)
next
  case (TransactionErr a)
  then show ?thesis by (cases a) (simp_all add: is_DomainError_def transaction_error_class_def)
next
  case (UserErr a) then show ?thesis by (cases a) (simp_all add: is_DomainError_def)
next
  case (WorkspaceErr a) then show ?thesis by (cases a) (simp_all add: is_DomainError_def)
next
  case (SharedErr a) then show ?thesis by (cases a) (simp_all add: is_DomainError_def)
next
  case (Thrown a) then show ?thesis by (cases a) (simp_all add: is_DomainError_def)
qed

end
