(* ===== verification/Accounts.thy ===== *)
theory Accounts
  imports Errors
begin

text \<open>
  The account entities of src/src/modules/account/entities (BaseAccount,
  CashAccounts, CheckingAccount, CreditCardAccount, InvestmentAccount), the
  validators of src/src/constants/enums.ts they call, and AccountMapper
  (src/src/infra/databases/drizzle/mappers/account.mapper.ts). A method that
  mutates \<open>this.props\<close> returns the updated account, a method that answers
  \<open>left\<close> returns \<open>Inl\<close> and the caller keeps the old account. Balances are
  \<open>bigint\<close> cents and so unbounded integers.

  The second half states the balance contract the rest of the system relies on:
  the locale \<open>effect_target\<close> is what \<open>TransactionRepository.applyBalanceEffects\<close>
  assumes of an account, and its interpretation shows that the entities provide it.
\<close>

section \<open>Enumerations and validators\<close>

datatype AccountType = CHECKING | CASH | CREDIT_CARD | INVESTMENT

fun AccountType_value :: "AccountType \<Rightarrow> string" where
  "AccountType_value CHECKING = ''CHECKING''"
| "AccountType_value CASH = ''CASH''"
| "AccountType_value CREDIT_CARD = ''CREDIT_CARD''"
| "AccountType_value INVESTMENT = ''INVESTMENT''"

definition CLOSING_DAYS_BEFORE_DUE_OPTIONS :: "int list" where
  "CLOSING_DAYS_BEFORE_DUE_OPTIONS = [5, 7, 10]"

definition isValidClosingDaysBeforeDue :: "int option \<Rightarrow> bool" where
  "isValidClosingDaysBeforeDue value = (case value of
      None \<Rightarrow> False | Some v \<Rightarrow> v \<in> set CLOSING_DAYS_BEFORE_DUE_OPTIONS)"

definition MIN_DUE_DAY :: int where "MIN_DUE_DAY = 1"
definition MAX_DUE_DAY :: int where "MAX_DUE_DAY = 28"

definition isValidDueDay :: "int option \<Rightarrow> bool" where
  "isValidDueDay value = (case value of
      None \<Rightarrow> False | Some v \<Rightarrow> MIN_DUE_DAY \<le> v \<and> v \<le> MAX_DUE_DAY)"

section \<open>Entities\<close>

text \<open>
  \<open>BaseAccountProps\<close> with the identifier of the \<open>Entity\<close> base class; an entity
  that has no identifier yet carries the empty string, the value
  \<open>ensureEntityId\<close> tests for.
\<close>

record account_props =
  acc_id :: string
  acc_workspaceId :: string
  acc_name :: string
  acc_timezone :: string
  acc_balance :: int

record card_props =
  creditLimit :: "int option"
  closingDaysBeforeDue :: int
  dueDay :: int

datatype account =
    CashAccount account_props
  | CheckingAccount account_props
  | CreditCard account_props card_props
  | InvestmentAccount account_props

fun base_of :: "account \<Rightarrow> account_props" where
  "base_of (CashAccount p) = p"
| "base_of (CheckingAccount p) = p"
| "base_of (CreditCard p c) = p"
| "base_of (InvestmentAccount p) = p"

fun map_base :: "(account_props \<Rightarrow> account_props) \<Rightarrow> account \<Rightarrow> account" where
  "map_base f (CashAccount p) = CashAccount (f p)"
| "map_base f (CheckingAccount p) = CheckingAccount (f p)"
| "map_base f (CreditCard p c) = CreditCard (f p) c"
| "map_base f (InvestmentAccount p) = InvestmentAccount (f p)"

abbreviation account_id :: "account \<Rightarrow> string" where "account_id a \<equiv> acc_id (base_of a)"
abbreviation workspace_of :: "account \<Rightarrow> string" where "workspace_of a \<equiv> acc_workspaceId (base_of a)"
abbreviation name_of :: "account \<Rightarrow> string" where "name_of a \<equiv> acc_name (base_of a)"
abbreviation balance :: "account \<Rightarrow> int" where "balance a \<equiv> acc_balance (base_of a)"

fun account_type :: "account \<Rightarrow> AccountType" where
  "account_type (CashAccount _) = CASH"
| "account_type (CheckingAccount _) = CHECKING"
| "account_type (CreditCard _ _) = CREDIT_CARD"
| "account_type (InvestmentAccount _) = INVESTMENT"

fun is_CreditCard :: "account \<Rightarrow> bool" where
  "is_CreditCard (CreditCard _ _) = True"
| "is_CreditCard _ = False"

section \<open>Operations of BaseAccount\<close>

definition credit :: "account_props \<Rightarrow> int \<Rightarrow> account_props either" where
  "credit p amount =
     (if amount \<le> 0 then left_account (ValidationAccountError ''Valor deve ser positivo.'')
      else Inr (p\<lparr>acc_balance := acc_balance p + amount\<rparr>))"

definition base_debit :: "account_props \<Rightarrow> int \<Rightarrow> account_props either" where
  "base_debit p amount =
     (if amount \<le> 0 then left_account (ValidationAccountError ''Valor deve ser positivo.'')
      else if acc_balance p - amount < 0
           then left_account (InsufficientBalanceError
                  ''Saldo insuficiente na carteira. Operacao bloqueada.'')
      else Inr (p\<lparr>acc_balance := acc_balance p - amount\<rparr>))"

definition updateName :: "account \<Rightarrow> string \<Rightarrow> account either" where
  "updateName a name =
     (if name = [] \<or> blank name then throw_js ''Nome invalido.''
      else Inr (map_base (\<lambda>p. p\<lparr>acc_name := js_trim name\<rparr>) a))"

fun patrimonyContribution :: "account \<Rightarrow> int" where
  "patrimonyContribution (CashAccount p) = acc_balance p"
| "patrimonyContribution (CheckingAccount p) = acc_balance p"
| "patrimonyContribution (CreditCard p c) = - acc_balance p"
| "patrimonyContribution (InvestmentAccount p) = acc_balance p"

section \<open>Cash, investment and checking accounts\<close>

definition CashAccount_create ::
  "string \<Rightarrow> string \<Rightarrow> string \<Rightarrow> int option \<Rightarrow> string \<Rightarrow> account either" where
  "CashAccount_create ws name tz bal aid =
     (let initialBalance = (case bal of None \<Rightarrow> 0 | Some b \<Rightarrow> b) in
      if initialBalance < 0
      then left_account (ValidationAccountError ''Dinheiro em especie nao pode ser negativo.'')
      else Inr (CashAccount \<lparr>acc_id = aid, acc_workspaceId = ws, acc_name = name,
                  acc_timezone = tz, acc_balance = initialBalance\<rparr>))"

definition InvestmentAccount_create ::
  "string \<Rightarrow> string \<Rightarrow> string \<Rightarrow> int option \<Rightarrow> string \<Rightarrow> account either" where
  "InvestmentAccount_create ws name tz bal aid =
     (let initialBalance = (case bal of None \<Rightarrow> 0 | Some b \<Rightarrow> b) in
      if initialBalance < 0
      then left_account (ValidationAccountError ''Saldo inicial nao pode ser negativo.'')
      else Inr (InvestmentAccount \<lparr>acc_id = aid, acc_workspaceId = ws, acc_name = name,
                  acc_timezone = tz, acc_balance = initialBalance\<rparr>))"

definition CheckingAccount_create ::
  "string \<Rightarrow> string \<Rightarrow> string \<Rightarrow> int option \<Rightarrow> string \<Rightarrow> account either" where
  "CheckingAccount_create ws name tz bal aid =
     (if length name < 2
      then left_account (ValidationAccountError ''Nome muito curto.'')
      else Inr (CheckingAccount \<lparr>acc_id = aid, acc_workspaceId = ws, acc_name = name,
                  acc_timezone = tz, acc_balance = (case bal of None \<Rightarrow> 0 | Some b \<Rightarrow> b)\<rparr>))"

definition checking_debit :: "account_props \<Rightarrow> int \<Rightarrow> account_props either" where
  "checking_debit p amount =
     (if amount \<le> 0 then left_account (ValidationAccountError ''Valor deve ser positivo.'')
      else Inr (p\<lparr>acc_balance := acc_balance p - amount\<rparr>))"

section \<open>Credit cards\<close>

definition CreditCard_create ::
  "string \<Rightarrow> string \<Rightarrow> string \<Rightarrow> int option \<Rightarrow> card_props \<Rightarrow> string \<Rightarrow> account either" where
  "CreditCard_create ws name tz bal c aid =
     (if (case creditLimit c of None \<Rightarrow> False | Some l \<Rightarrow> l \<le> 0)
      then left_account (ValidationAccountError ''O limite de credito deve ser superior a zero.'')
      else if \<not> isValidClosingDaysBeforeDue (Some (closingDaysBeforeDue c))
      then left_account InvalidClosingDaysBeforeDueError
      else if \<not> isValidDueDay (Some (dueDay c)) then left_account InvalidDueDayError
      else Inr (CreditCard \<lparr>acc_id = aid, acc_workspaceId = ws, acc_name = name,
                  acc_timezone = tz, acc_balance = (case bal of None \<Rightarrow> 0 | Some b \<Rightarrow> b)\<rparr> c))"

definition availableLimit :: "account_props \<Rightarrow> card_props \<Rightarrow> int option" where
  "availableLimit p c = (case creditLimit c of None \<Rightarrow> None | Some l \<Rightarrow> Some (l - acc_balance p))"

definition registerCharge :: "account_props \<Rightarrow> card_props \<Rightarrow> int \<Rightarrow> account_props either" where
  "registerCharge p c amount =
     (if amount \<le> 0
      then left_account (ValidationAccountError ''O valor da cobranca deve ser maior que zero.'')
      else case availableLimit p c of
        Some avail \<Rightarrow> if amount > avail then left_account (CreditLimitExceededError avail amount)
                      else Inr (p\<lparr>acc_balance := acc_balance p + amount\<rparr>)
      | None \<Rightarrow> Inr (p\<lparr>acc_balance := acc_balance p + amount\<rparr>))"

definition payInvoice :: "account_props \<Rightarrow> int \<Rightarrow> account_props either" where
  "payInvoice p amount =
     (if amount \<le> 0
      then left_account (ValidationAccountError ''O valor do pagamento deve ser maior que zero.'')
      else if acc_balance p - amount < 0 then left_account PaymentExceedsInvoiceBalanceError
      else Inr (p\<lparr>acc_balance := acc_balance p - amount\<rparr>))"

definition settleScheduledCharge :: "account_props \<Rightarrow> int \<Rightarrow> account_props either" where
  "settleScheduledCharge p amount =
     (if amount \<le> 0
      then left_account (ValidationAccountError ''O valor da cobranca deve ser maior que zero.'')
      else Inr (p\<lparr>acc_balance := acc_balance p + amount\<rparr>))"

definition settleScheduledCredit :: "account_props \<Rightarrow> int \<Rightarrow> account_props either" where
  "settleScheduledCredit p amount =
     (if amount \<le> 0
      then left_account (ValidationAccountError ''O valor do pagamento deve ser maior que zero.'')
      else Inr (p\<lparr>acc_balance := acc_balance p - amount\<rparr>))"

definition updateInvoiceDates :: "card_props \<Rightarrow> int \<Rightarrow> int \<Rightarrow> card_props either" where
  "updateInvoiceDates c closing due =
     (if \<not> isValidClosingDaysBeforeDue (Some closing)
      then left_account InvalidClosingDaysBeforeDueError
      else if \<not> isValidDueDay (Some due) then left_account InvalidDueDayError
      else Inr (c\<lparr>closingDaysBeforeDue := closing, dueDay := due\<rparr>))"

definition adjustLimit :: "card_props \<Rightarrow> int option \<Rightarrow> card_props either" where
  "adjustLimit c newLimit =
     (if (case newLimit of None \<Rightarrow> False | Some l \<Rightarrow> l \<le> 0)
      then left_account (ValidationAccountError ''O limite de credito deve ser superior a zero.'')
      else Inr (c\<lparr>creditLimit := newLimit\<rparr>))"

section \<open>Dispatch of the balance effects\<close>

text \<open>\<open>applyExpenseEffect\<close> and \<open>applyIncomeEffect\<close> as each subclass overrides them.\<close>

fun applyExpenseEffect :: "account \<Rightarrow> int \<Rightarrow> account either" where
  "applyExpenseEffect (CashAccount p) amount = and_then (base_debit p amount) (Inr \<circ> CashAccount)"
| "applyExpenseEffect (CheckingAccount p) amount = and_then (checking_debit p amount) (Inr \<circ> CheckingAccount)"
| "applyExpenseEffect (CreditCard p c) amount = and_then (registerCharge p c amount) (\<lambda>p'. Inr (CreditCard p' c))"
| "applyExpenseEffect (InvestmentAccount p) amount = and_then (base_debit p amount) (Inr \<circ> InvestmentAccount)"

fun applyIncomeEffect :: "account \<Rightarrow> int \<Rightarrow> account either" where
  "applyIncomeEffect (CashAccount p) amount = and_then (credit p amount) (Inr \<circ> CashAccount)"
| "applyIncomeEffect (CheckingAccount p) amount = and_then (credit p amount) (Inr \<circ> CheckingAccount)"
| "applyIncomeEffect (CreditCard p c) amount = and_then (payInvoice p amount) (\<lambda>p'. Inr (CreditCard p' c))"
| "applyIncomeEffect (InvestmentAccount p) amount = and_then (credit p amount) (Inr \<circ> InvestmentAccount)"

text \<open>
  \<open>applyEffect\<close> and \<open>applyScheduledEffect\<close> of
  src/src/infra/databases/drizzle/repositories/transaction.repository.ts.
\<close>

datatype BalanceEffectKind = expense | income

fun invertKind :: "BalanceEffectKind \<Rightarrow> BalanceEffectKind" where
  "invertKind expense = income"
| "invertKind income = expense"

definition applyEffect :: "account \<Rightarrow> BalanceEffectKind \<Rightarrow> int \<Rightarrow> account either" where
  "applyEffect a kind amount =
     (case kind of expense \<Rightarrow> applyExpenseEffect a amount | income \<Rightarrow> applyIncomeEffect a amount)"

fun applyScheduledEffect :: "account \<Rightarrow> BalanceEffectKind \<Rightarrow> int \<Rightarrow> account either" where
  "applyScheduledEffect (CreditCard p c) kind amount =
     and_then (case kind of expense \<Rightarrow> settleScheduledCharge p amount
                          | income \<Rightarrow> settleScheduledCredit p amount)
              (\<lambda>p'. Inr (CreditCard p' c))"
| "applyScheduledEffect a kind amount = applyEffect a kind amount"

definition apply_effect :: "bool \<Rightarrow> account \<Rightarrow> BalanceEffectKind \<Rightarrow> int \<Rightarrow> account either" where
  "apply_effect scheduled a kind amount =
     (if scheduled then applyScheduledEffect a kind amount else applyEffect a kind amount)"

section \<open>AccountMapper\<close>

text \<open>A row of the \<open>accounts\<close> table (src/src/infra/databases/drizzle/schema.ts).\<close>

record account_row =
  row_id :: string
  row_workspaceId :: string
  row_name :: string
  row_type :: string
  row_balance :: int
  row_timezone :: string
  row_closingDaysBeforeDue :: int
  row_dueDay :: "int option"
  row_creditLimit :: "int option"

definition row_props :: "account_row \<Rightarrow> account_props" where
  "row_props raw = \<lparr>acc_id = row_id raw, acc_workspaceId = row_workspaceId raw,
     acc_name = row_name raw, acc_timezone = row_timezone raw, acc_balance = row_balance raw\<rparr>"

definition account_toDomain :: "account_row \<Rightarrow> account either" where
  "account_toDomain raw =
     (if row_type raw = AccountType_value CREDIT_CARD
      then (case row_dueDay raw of
              None \<Rightarrow> throw_js ''Dados corrompidos no banco: Cartao sem dia de vencimento.''
            | Some due \<Rightarrow> Inr (CreditCard (row_props raw)
                \<lparr>creditLimit = row_creditLimit raw,
                 closingDaysBeforeDue = row_closingDaysBeforeDue raw, dueDay = due\<rparr>))
      else if row_type raw = AccountType_value CHECKING then Inr (CheckingAccount (row_props raw))
      else if row_type raw = AccountType_value CASH then Inr (CashAccount (row_props raw))
      else if row_type raw = AccountType_value INVESTMENT then Inr (InvestmentAccount (row_props raw))
      else Inr (CheckingAccount (row_props raw)))"

definition account_toDatabase :: "account \<Rightarrow> account_row" where
  "account_toDatabase a =
     \<lparr>row_id = account_id a, row_workspaceId = workspace_of a, row_name = name_of a,
      row_type = AccountType_value (account_type a), row_balance = balance a,
      row_timezone = acc_timezone (base_of a),
      row_closingDaysBeforeDue = (case a of CreditCard _ c \<Rightarrow> closingDaysBeforeDue c | _ \<Rightarrow> 7),
      row_dueDay = (case a of CreditCard _ c \<Rightarrow> Some (dueDay c) | _ \<Rightarrow> None),
      row_creditLimit = (case a of CreditCard _ c \<Rightarrow> creditLimit c | _ \<Rightarrow> None)\<rparr>"

text \<open>\<open>toUpdatePayload\<close>, as the row that the \<open>UPDATE ... SET payload\<close> leaves behind.\<close>

fun account_toUpdatePayload :: "account \<Rightarrow> account_row \<Rightarrow> account_row" where
  "account_toUpdatePayload (CreditCard p c) raw =
     raw\<lparr>row_name := acc_name p, row_creditLimit := creditLimit c,
         row_closingDaysBeforeDue := closingDaysBeforeDue c, row_dueDay := Some (dueDay c)\<rparr>"
| "account_toUpdatePayload a raw = raw\<lparr>row_name := name_of a\<rparr>"

section \<open>Well-formed accounts\<close>

text \<open>What every entity that the constructors and operations build satisfies.\<close>

definition valid_card :: "card_props \<Rightarrow> bool" where
  "valid_card c = ((case creditLimit c of None \<Rightarrow> True | Some l \<Rightarrow> 0 < l)
     \<and> isValidClosingDaysBeforeDue (Some (closingDaysBeforeDue c)) \<and> isValidDueDay (Some (dueDay c)))"

fun valid_account :: "account \<Rightarrow> bool" where
  "valid_account (CashAccount p) = (0 \<le> acc_balance p)"
| "valid_account (InvestmentAccount p) = (0 \<le> acc_balance p)"
| "valid_account (CheckingAccount p) = True"
| "valid_account (CreditCard p c) = valid_card c"

lemmas account_op_defs = credit_def base_debit_def checking_debit_def registerCharge_def
  payInvoice_def settleScheduledCharge_def settleScheduledCredit_def applyEffect_def apply_effect_def

fun_cases updateInvoice_payload: "account_toUpdatePayload (CreditCard p c) raw = r"

lemma base_of_map_base [account_simps]: "base_of (map_base f a) = f (base_of a)"
  by (cases a) simp_all

lemma create_valid:
  "CashAccount_create ws n tz b i = Inr a \<Longrightarrow> valid_account a"
  "InvestmentAccount_create ws n tz b i = Inr a \<Longrightarrow> valid_account a"
  "CheckingAccount_create ws n tz b i = Inr a \<Longrightarrow> valid_account a"
  "CreditCard_create ws n tz b c i = Inr a \<Longrightarrow> valid_account a"
  by (auto simp: CashAccount_create_def InvestmentAccount_create_def CheckingAccount_create_def
      CreditCard_create_def valid_card_def Let_def split: if_splits option.splits)

lemma updateInvoiceDates_valid:
  "updateInvoiceDates c cl d = Inr c' \<Longrightarrow> valid_card c \<Longrightarrow> valid_card c'"
  by (auto simp: updateInvoiceDates_def valid_card_def split: if_splits)

lemma adjustLimit_valid: "adjustLimit c l = Inr c' \<Longrightarrow> valid_card c \<Longrightarrow> valid_card c'"
  by (auto simp: adjustLimit_def valid_card_def split: if_splits option.splits)

lemma apply_effect_valid:
  "apply_effect sch a k x = Inr b \<Longrightarrow> valid_account a \<Longrightarrow> valid_account b"
  by (cases a; cases k) (auto simp: account_op_defs and_then_Inr_iff split: if_splits option.splits)

lemma toDomain_toDatabase: "account_toDomain (account_toDatabase a) = Inr a"
  by (cases a) (simp_all add: account_toDomain_def account_toDatabase_def row_props_def)

lemma toDomain_row_facts:
  assumes "account_toDomain raw = Inr a"
  shows "account_id a = row_id raw" "balance a = row_balance raw" "workspace_of a = row_workspaceId raw"
    "name_of a = row_name raw"
  using assms by (auto simp: account_toDomain_def row_props_def split: if_splits option.splits)

lemma toUpdatePayload_keeps [account_simps]:
  "row_id (account_toUpdatePayload a raw) = row_id raw"
  "row_balance (account_toUpdatePayload a raw) = row_balance raw"
  "row_workspaceId (account_toUpdatePayload a raw) = row_workspaceId raw"
  by (cases a; simp)+

section \<open>The balance-effect contract\<close>

text \<open>
  \<open>direction\<close> is 1 where income raises the balance and -1 on a credit card, whose
  balance is the debt; \<open>kind_sign\<close> turns the kind of an effect into a sign.
\<close>

definition direction :: "account \<Rightarrow> int" where
  "direction a = (if is_CreditCard a then -1 else 1)"

definition row_direction :: "account_row \<Rightarrow> int" where
  "row_direction raw = (if row_type raw = AccountType_value CREDIT_CARD then -1 else 1)"

fun kind_sign :: "BalanceEffectKind \<Rightarrow> int" where
  "kind_sign income = 1"
| "kind_sign expense = -1"

lemma kind_sign_invert [account_simps]: "kind_sign (invertKind k) = - kind_sign k"
  by (cases k) simp_all

lemma invertKind_invol [account_simps]: "invertKind (invertKind k) = k"
  by (cases k) simp_all

lemma patrimony_direction: "patrimonyContribution a = direction a * balance a"
  by (cases a) (simp_all add: direction_def)

lemma toDomain_direction: "account_toDomain raw = Inr a \<Longrightarrow> direction a = row_direction raw"
  by (auto simp: account_toDomain_def row_direction_def direction_def split: if_splits option.splits)

text \<open>A sequence of effects on one target, stopping at the first refusal.\<close>

fun apply_seq :: "('a \<Rightarrow> BalanceEffectKind \<Rightarrow> int \<Rightarrow> 'e + 'a) \<Rightarrow> 'a
    \<Rightarrow> (BalanceEffectKind \<times> int) list \<Rightarrow> 'e + 'a" where
  "apply_seq ap a [] = Inr a"
| "apply_seq ap a ((k, x) # es) = and_then (ap a k x) (\<lambda>b. apply_seq ap b es)"

definition signed_total :: "(BalanceEffectKind \<times> int) list \<Rightarrow> int" where
  "signed_total es = sum_list (map (\<lambda>(k, x). kind_sign k * x) es)"

lemma signed_total_simps [account_simps]:
  "signed_total [] = 0"
  "signed_total ((k, x) # es) = kind_sign k * x + signed_total es"
  "signed_total (es @ fs) = signed_total es + signed_total fs"
  by (simp_all add: signed_total_def)

locale effect_target =
  fixes ap :: "'a \<Rightarrow> BalanceEffectKind \<Rightarrow> int \<Rightarrow> 'e + 'a"
    and bal :: "'a \<Rightarrow> int" and dir :: "'a \<Rightarrow> int" and ident :: "'a \<Rightarrow> string"
  assumes ap_bal: "ap a k x = Inr b \<Longrightarrow> bal b = bal a + dir a * kind_sign k * x"
    and ap_dir: "ap a k x = Inr b \<Longrightarrow> dir b = dir a"
    and ap_ident: "ap a k x = Inr b \<Longrightarrow> ident b = ident a"
    and ap_positive: "ap a k x = Inr b \<Longrightarrow> 0 < x"
begin

lemma seq_bal: "apply_seq ap a es = Inr b \<Longrightarrow> bal b = bal a + dir a * signed_total es"
proof (induction es arbitrary: a)
  case (Cons e es)
  obtain k x where e: "e = (k, x)" by (cases e)
  with Cons.prems obtain c where c: "ap a k x = Inr c" "apply_seq ap c es = Inr b"
    by (auto simp: and_then_Inr_iff)
  with Cons.IH[OF c(2)] ap_bal[OF c(1)] ap_dir[OF c(1)] e show ?case
    by (simp add: account_simps algebra_simps)
qed (simp add: account_simps)

lemma seq_keeps: "apply_seq ap a es = Inr b \<Longrightarrow> ident b = ident a \<and> dir b = dir a"
proof (induction es arbitrary: a)
  case (Cons e es)
  then obtain k x c where "ap a k x = Inr c" "apply_seq ap c es = Inr b"
    by (cases e) (auto simp: and_then_Inr_iff)
  with Cons.IH ap_ident ap_dir show ?case by metis
qed simp

lemma seq_append: "apply_seq ap a (es @ fs) = and_then (apply_seq ap a es) (\<lambda>b. apply_seq ap b fs)"
  by (induction es arbitrary: a) (auto simp: and_then_assoc)

lemma seq_undo:
  assumes "apply_seq ap a es = Inr b"
    and "apply_seq ap b (map (\<lambda>(k, x). (invertKind k, x)) es) = Inr c"
  shows "bal c = bal a"
proof -
  have "signed_total (map (\<lambda>(k, x). (invertKind k, x)) es) = - signed_total es"
    by (induction es) (auto simp: account_simps)
  then show ?thesis
    using seq_bal[OF assms(1)] seq_bal[OF assms(2)] seq_keeps[OF assms(1)] by simp
qed

lemma seq_positive: "apply_seq ap a es = Inr b \<Longrightarrow> (k, x) \<in> set es \<Longrightarrow> 0 < x"
  by (induction es arbitrary: a) (auto simp: and_then_Inr_iff dest: ap_positive)

end

interpretation account_effects: effect_target "apply_effect sch" "\<lambda>a. balance a" direction "\<lambda>a. account_id a"
proof
  fix a k x b assume ap: "apply_effect sch a k x = Inr b"
  show "balance b = balance a + direction a * kind_sign k * x"
    using ap by (cases a; cases k)
      (auto simp: account_op_defs direction_def and_then_Inr_iff split: if_splits option.splits)
  show "direction b = direction a"
    using ap by (cases a; cases k)
      (auto simp: account_op_defs direction_def and_then_Inr_iff split: if_splits)
  show "account_id b = account_id a"
    using ap by (cases a; cases k)
      (auto simp: account_op_defs and_then_Inr_iff split: if_splits option.splits)
  show "0 < x"
    using ap by (cases a; cases k)
      (auto simp: account_op_defs and_then_Inr_iff split: if_splits option.splits)
qed

end
