(* ===== verification/Transactions.thy ===== *)
theory Transactions
  imports Accounts
begin

text \<open>
  The \<open>Transaction\<close> entity of src/src/modules/transaction/entities/Transaction.ts:
  its validation, the operations that edit it, and the balance effects a
  completed transaction has on its accounts. Dates are the milliseconds of a
  JavaScript \<open>Date\<close>; the current time of \<open>new Date()\<close> is the argument \<open>now\<close>.
  \<open>TransactionMapper\<close> copies the row field by field, so the same record is the
  row of the \<open>transactions\<close> table. The guards for a missing date or type protect
  against untyped callers; the model's types have no such value.
\<close>

datatype TransactionType = INCOME | EXPENSE | TRANSFER
datatype TransactionStatus = PENDING | COMPLETED

text \<open>
  \<open>TransactionProps\<close> split in the part \<open>Transaction.create\<close> takes as it is and
  the part it has defaults for.
\<close>

record transaction_draft =
  tx_workspaceId :: string
  tx_accountId :: string
  tx_categoryId :: string
  tx_destinationAccountId :: "string option"
  tx_title :: string
  tx_description :: "string option"
  tx_amount :: int
  tx_date :: int
  tx_type :: TransactionType
  tx_installmentGroupId :: "string option"
  tx_installmentNumber :: "int option"
  tx_installmentCount :: "int option"
  tx_recurringId :: "string option"
  tx_invoicePeriodMonth :: "int option"
  tx_invoicePeriodYear :: "int option"

record transaction = transaction_draft +
  tx_id :: string
  tx_status :: TransactionStatus
  tx_createdAt :: int
  tx_updatedAt :: "int option"

text \<open>A nullable string of the source is falsy when it is null or empty.\<close>

definition falsy :: "string option \<Rightarrow> bool" where
  "falsy s = (s = None \<or> s = Some [])"

definition draft_error :: "transaction_draft \<Rightarrow> transaction_error option" where
  "draft_error d =
     (if tx_amount d \<le> 0 then Some InvalidAmountError
      else if tx_title d = [] \<or> blank (tx_title d) then Some TitleRequiredError
      else if tx_categoryId d = [] then Some MissingCategoryError
      else if tx_type d = TRANSFER \<and> falsy (tx_destinationAccountId d)
        then Some DestinationAccountRequiredForTransferError
      else if tx_type d = TRANSFER \<and> tx_destinationAccountId d = Some (tx_accountId d)
        then Some SourceAndDestinationAccountMustBeDifferentError
      else None)"

definition Transaction_create :: "int \<Rightarrow> transaction_draft \<Rightarrow> TransactionStatus option
    \<Rightarrow> int option \<Rightarrow> int option \<Rightarrow> string \<Rightarrow> transaction either" where
  "Transaction_create now d status created updated tid =
     (case draft_error d of
        Some e \<Rightarrow> left_tx e
      | None \<Rightarrow> Inr (transaction_draft.extend d (transaction.fields tid
          (case status of Some s \<Rightarrow> s | None \<Rightarrow> if tx_date d > now then PENDING else COMPLETED)
          (case created of Some c \<Rightarrow> c | None \<Rightarrow> now) updated)))"

section \<open>Operations\<close>

definition touch :: "int \<Rightarrow> transaction \<Rightarrow> transaction" where
  "touch now t = t\<lparr>tx_updatedAt := Some now\<rparr>"

definition updateDetails :: "int \<Rightarrow> string \<Rightarrow> string option \<Rightarrow> transaction \<Rightarrow> transaction either" where
  "updateDetails now title description t =
     (if title = [] \<or> blank title then left_tx TitleRequiredError
      else Inr (touch now (t\<lparr>tx_title := title, tx_description := description\<rparr>)))"

definition correctAmount :: "int \<Rightarrow> int \<Rightarrow> transaction \<Rightarrow> transaction either" where
  "correctAmount now newAmount t =
     (if newAmount \<le> 0 then left_tx InvalidAmountError
      else Inr (touch now (t\<lparr>tx_amount := newAmount\<rparr>)))"

definition reclassify :: "int \<Rightarrow> string \<Rightarrow> transaction \<Rightarrow> transaction" where
  "reclassify now newCategoryId t = touch now (t\<lparr>tx_categoryId := newCategoryId\<rparr>)"

definition reschedule :: "int \<Rightarrow> int \<Rightarrow> transaction \<Rightarrow> transaction either" where
  "reschedule now newDate t =
     (let t1 = t\<lparr>tx_date := newDate\<rparr>;
          t2 = (if newDate > now \<and> tx_status t1 = COMPLETED then t1\<lparr>tx_status := PENDING\<rparr> else t1)
      in Inr (touch now t2))"

definition complete :: "int \<Rightarrow> transaction \<Rightarrow> transaction either" where
  "complete now t =
     (if tx_status t = COMPLETED then left_tx TransactionAlreadyCompletedError
      else Inr (touch now (t\<lparr>tx_status := COMPLETED\<rparr>)))"

definition markAsPending :: "int \<Rightarrow> transaction \<Rightarrow> transaction either" where
  "markAsPending now t =
     (if tx_status t = PENDING then left_tx TransactionAlreadyPendingError
      else Inr (touch now (t\<lparr>tx_status := PENDING\<rparr>)))"

section \<open>Balance effects\<close>

record balance_effect =
  eff_accountId :: string
  eff_amount :: int
  eff_kind :: BalanceEffectKind

definition buildEffect :: "transaction \<Rightarrow> string \<Rightarrow> BalanceEffectKind \<Rightarrow> bool \<Rightarrow> balance_effect" where
  "buildEffect t aid kind reverted =
     \<lparr>eff_accountId = aid, eff_amount = tx_amount t,
      eff_kind = (if reverted then invertKind kind else kind)\<rparr>"

definition resolveBalanceEffects :: "bool \<Rightarrow> transaction \<Rightarrow> balance_effect list" where
  "resolveBalanceEffects reverted t =
     (if tx_status t \<noteq> COMPLETED then []
      else let sourceKind = (if tx_type t = INCOME then income else expense) in
           buildEffect t (tx_accountId t) sourceKind reverted #
           (if tx_type t = TRANSFER \<and> \<not> falsy (tx_destinationAccountId t)
            then [buildEffect t (the (tx_destinationAccountId t)) income reverted]
            else []))"

definition balanceEffects :: "transaction \<Rightarrow> balance_effect list" where
  "balanceEffects t = resolveBalanceEffects False t"

definition revertedBalanceEffects :: "transaction \<Rightarrow> balance_effect list" where
  "revertedBalanceEffects t = resolveBalanceEffects True t"

definition balanceEffectsFrom :: "TransactionStatus \<Rightarrow> transaction \<Rightarrow> balance_effect list" where
  "balanceEffectsFrom previousStatus t =
     revertedBalanceEffects (t\<lparr>tx_status := previousStatus\<rparr>) @ balanceEffects t"

section \<open>Well-formed transactions\<close>

definition valid_transaction :: "('a transaction_draft_scheme) \<Rightarrow> bool" where
  "valid_transaction t = (0 < tx_amount t \<and> \<not> blank (tx_title t) \<and> tx_categoryId t \<noteq> []
     \<and> (tx_type t = TRANSFER \<longrightarrow> \<not> falsy (tx_destinationAccountId t)
          \<and> tx_destinationAccountId t \<noteq> Some (tx_accountId t)))"

lemma blank_Nil [simp]: "blank []"
  by (simp add: blank_def js_trim_def)

lemma draft_error_None_iff: "draft_error d = None \<longleftrightarrow> valid_transaction d"
  by (auto simp: draft_error_def valid_transaction_def)

lemma Transaction_create_Inr_iff:
  "Transaction_create now d st cr up i = Inr t \<longleftrightarrow> valid_transaction d \<and>
     t = transaction_draft.extend d (transaction.fields i
           (case st of Some s \<Rightarrow> s | None \<Rightarrow> if tx_date d > now then PENDING else COMPLETED)
           (case cr of Some c \<Rightarrow> c | None \<Rightarrow> now) up)"
  by (auto simp: Transaction_create_def draft_error_None_iff[symmetric] split: option.splits)

lemma extend_fields [simp]:
  "tx_amount (transaction_draft.extend d m) = tx_amount d"
  "tx_title (transaction_draft.extend d m) = tx_title d"
  "tx_categoryId (transaction_draft.extend d m) = tx_categoryId d"
  "tx_accountId (transaction_draft.extend d m) = tx_accountId d"
  "tx_workspaceId (transaction_draft.extend d m) = tx_workspaceId d"
  "tx_type (transaction_draft.extend d m) = tx_type d"
  "tx_date (transaction_draft.extend d m) = tx_date d"
  "tx_recurringId (transaction_draft.extend d m) = tx_recurringId d"
  "tx_destinationAccountId (transaction_draft.extend d m) = tx_destinationAccountId d"
  "tx_id (transaction_draft.extend d (transaction.fields i s c u)) = i"
  "tx_status (transaction_draft.extend d (transaction.fields i s c u)) = s"
  by (simp_all add: transaction_draft.defs transaction.defs)

lemma Transaction_create_valid:
  "Transaction_create now d st cr up i = Inr t \<Longrightarrow> valid_transaction t"
  by (auto simp: Transaction_create_Inr_iff valid_transaction_def)

lemma edits_keep_valid:
  assumes "valid_transaction t"
  shows "updateDetails now ti de t = Inr u \<Longrightarrow> valid_transaction u"
    and "correctAmount now x t = Inr u \<Longrightarrow> valid_transaction u"
    and "reschedule now d t = Inr u \<Longrightarrow> valid_transaction u"
    and "complete now t = Inr u \<Longrightarrow> valid_transaction u"
    and "markAsPending now t = Inr u \<Longrightarrow> valid_transaction u"
  using assms
  by (auto simp: updateDetails_def correctAmount_def reschedule_def complete_def markAsPending_def
      touch_def valid_transaction_def Let_def split: if_splits)

section \<open>Effects per account\<close>

definition effects_on :: "string \<Rightarrow> balance_effect list \<Rightarrow> (BalanceEffectKind \<times> int) list" where
  "effects_on aid es = map (\<lambda>e. (eff_kind e, eff_amount e)) (filter (\<lambda>e. eff_accountId e = aid) es)"

definition net_effect :: "string \<Rightarrow> balance_effect list \<Rightarrow> int" where
  "net_effect aid es = signed_total (effects_on aid es)"

lemma effects_on_simps [account_simps]:
  "effects_on i [] = []"
  "effects_on i (e # es) = (if eff_accountId e = i then [(eff_kind e, eff_amount e)] else []) @ effects_on i es"
  "effects_on i (es @ fs) = effects_on i es @ effects_on i fs"
  by (simp_all add: effects_on_def)

lemma net_effect_simps [account_simps]:
  "net_effect i [] = 0"
  "net_effect i (e # es) =
     (if eff_accountId e = i then kind_sign (eff_kind e) * eff_amount e else 0) + net_effect i es"
  "net_effect i (es @ fs) = net_effect i es + net_effect i fs"
  by (simp_all add: net_effect_def account_simps)

lemma net_effect_reverted: "net_effect i (revertedBalanceEffects t) = - net_effect i (balanceEffects t)"
  by (simp add: revertedBalanceEffects_def balanceEffects_def resolveBalanceEffects_def
      buildEffect_def Let_def account_simps)

text \<open>
  What a completed transaction contributes to account \<open>i\<close>, in the sign of an asset
  account: \<open>balanceEffects\<close> is empty for pending ones.
\<close>

lemma net_effect_balanceEffects:
  assumes "valid_transaction t"
  shows "net_effect i (balanceEffects t) =
    (if tx_status t \<noteq> COMPLETED then 0
     else (if tx_accountId t = i then if tx_type t = INCOME then tx_amount t else - tx_amount t else 0)
        + (if tx_type t = TRANSFER \<and> tx_destinationAccountId t = Some i then tx_amount t else 0))"
  using assms
  by (cases "tx_type t"; cases "tx_destinationAccountId t")
     (auto simp: balanceEffects_def resolveBalanceEffects_def buildEffect_def Let_def account_simps
      valid_transaction_def falsy_def)

end
