(* ===== verification/Recurring.thy ===== *)
theory Recurring
  imports Transactions
begin

text \<open>
  The \<open>RecurringTransaction\<close> entity of
  src/src/modules/transaction/entities/RecurringTransaction.ts. The same record
  is the row of the \<open>recurring_transactions\<close> table: RecurringTransactionMapper
  copies every field, and every writer of that table stores a category.
\<close>

datatype RecurrenceFrequency = WEEKLY | MONTHLY | YEARLY

record recurring =
  rc_id :: string
  rc_workspaceId :: string
  rc_accountId :: string
  rc_destinationAccountId :: "string option"
  rc_categoryId :: string
  rc_title :: string
  rc_description :: "string option"
  rc_amount :: int
  rc_frequency :: RecurrenceFrequency
  rc_interval :: int
  rc_installmentCount :: "int option"
  rc_startDate :: int
  rc_endDate :: "int option"
  rc_lastGenerated :: "int option"
  rc_active :: bool
  rc_type :: TransactionType

text \<open>
  \<open>RecurringTransaction.create\<close> on the props with the defaults it fills in
  (interval 1, no installments, no end date, never generated, active).
\<close>

definition RecurringTransaction_create :: "recurring \<Rightarrow> recurring either" where
  "RecurringTransaction_create r =
     (if rc_amount r \<le> 0 then left_tx InvalidAmountError
      else if rc_interval r \<le> 0 then left_tx InvalidRecurrenceIntervalError
      else if rc_categoryId r = [] then left_tx MissingCategoryError
      else if (case rc_endDate r of None \<Rightarrow> False | Some e \<Rightarrow> e < rc_startDate r)
        then left_tx InvalidDateRangeError
      else if rc_type r = TRANSFER \<and> falsy (rc_destinationAccountId r)
        then left_tx (InvalidTransferError ''Conta destino e obrigatoria.'')
      else if rc_type r = TRANSFER \<and> rc_destinationAccountId r = Some (rc_accountId r)
        then left_tx (InvalidTransferError ''Conta destino deve ser diferente da origem.'')
      else Inr r)"

definition rc_updateDetails :: "string \<Rightarrow> string option \<Rightarrow> string \<Rightarrow> recurring \<Rightarrow> recurring either" where
  "rc_updateDetails title description categoryId r =
     (if title = [] \<or> blank title then throw_js ''O titulo e obrigatorio.''
      else Inr (r\<lparr>rc_title := title, rc_description := description, rc_categoryId := categoryId\<rparr>))"

definition rc_updateAmount :: "int \<Rightarrow> recurring \<Rightarrow> recurring either" where
  "rc_updateAmount newAmount r =
     (if newAmount \<le> 0 then left_tx InvalidAmountError else Inr (r\<lparr>rc_amount := newAmount\<rparr>))"

definition rc_updateSchedule ::
  "int \<Rightarrow> int option \<Rightarrow> RecurrenceFrequency \<Rightarrow> int \<Rightarrow> recurring \<Rightarrow> recurring either" where
  "rc_updateSchedule startDate endDate frequency intv r =
     (if intv \<le> 0 then left_tx InvalidRecurrenceIntervalError
      else if (case endDate of None \<Rightarrow> False | Some e \<Rightarrow> e < startDate) then left_tx InvalidDateRangeError
      else Inr (r\<lparr>rc_startDate := startDate, rc_endDate := endDate,
                 rc_frequency := frequency, rc_interval := intv\<rparr>))"

definition rc_changeAccount :: "string \<Rightarrow> recurring \<Rightarrow> recurring either" where
  "rc_changeAccount aid r =
     (if rc_type r = TRANSFER \<and> rc_destinationAccountId r = Some aid
      then left_tx SourceAndDestinationAccountMustBeDifferentError
      else Inr (r\<lparr>rc_accountId := aid\<rparr>))"

definition rc_convertToTransfer :: "string \<Rightarrow> recurring \<Rightarrow> recurring either" where
  "rc_convertToTransfer dest r =
     (if dest = [] then left_tx (InvalidTransferError ''Conta destino e obrigatoria.'')
      else if dest = rc_accountId r
        then left_tx (InvalidTransferError ''Conta destino deve ser diferente da origem.'')
      else Inr (r\<lparr>rc_type := TRANSFER, rc_destinationAccountId := Some dest\<rparr>))"

definition rc_convertToIncomeOrExpense :: "TransactionType \<Rightarrow> recurring \<Rightarrow> recurring" where
  "rc_convertToIncomeOrExpense ty r = r\<lparr>rc_type := ty, rc_destinationAccountId := None\<rparr>"

definition rc_markAsGenerated :: "int \<Rightarrow> recurring \<Rightarrow> recurring" where
  "rc_markAsGenerated d r = r\<lparr>rc_lastGenerated := Some d\<rparr>"

definition rc_clearLastGenerated :: "recurring \<Rightarrow> recurring" where
  "rc_clearLastGenerated r = r\<lparr>rc_lastGenerated := None\<rparr>"

definition rc_changeInstallmentCount :: "int option \<Rightarrow> recurring \<Rightarrow> recurring" where
  "rc_changeInstallmentCount n r = r\<lparr>rc_installmentCount := n\<rparr>"

definition rc_setActive :: "bool \<Rightarrow> recurring \<Rightarrow> recurring" where
  "rc_setActive b r = r\<lparr>rc_active := b\<rparr>"

text \<open>What the constructor guarantees and the edits keep.\<close>

definition valid_recurring :: "recurring \<Rightarrow> bool" where
  "valid_recurring r = (0 < rc_amount r \<and> 0 < rc_interval r \<and> rc_categoryId r \<noteq> []
     \<and> (case rc_endDate r of None \<Rightarrow> True | Some e \<Rightarrow> rc_startDate r \<le> e)
     \<and> (rc_type r = TRANSFER \<longrightarrow> \<not> falsy (rc_destinationAccountId r)
          \<and> rc_destinationAccountId r \<noteq> Some (rc_accountId r)))"

lemmas recurring_edit_defs = rc_updateDetails_def rc_updateAmount_def rc_updateSchedule_def
  rc_changeAccount_def rc_convertToTransfer_def rc_convertToIncomeOrExpense_def
  rc_markAsGenerated_def rc_clearLastGenerated_def rc_changeInstallmentCount_def rc_setActive_def

lemma RecurringTransaction_create_Inr_iff:
  "RecurringTransaction_create r = Inr r' \<longleftrightarrow> valid_recurring r \<and> r' = r"
  by (auto simp: RecurringTransaction_create_def valid_recurring_def split: option.splits)

lemma recurring_edits_keep_valid:
  assumes "valid_recurring r"
  shows "rc_updateDetails t d c r = Inr u \<Longrightarrow> c \<noteq> [] \<Longrightarrow> valid_recurring u"
    and "rc_updateAmount x r = Inr u \<Longrightarrow> valid_recurring u"
    and "rc_updateSchedule s e f i r = Inr u \<Longrightarrow> valid_recurring u"
    and "rc_changeAccount a r = Inr u \<Longrightarrow> valid_recurring u"
    and "rc_convertToTransfer b r = Inr u \<Longrightarrow> valid_recurring u"
    and "ty \<noteq> TRANSFER \<Longrightarrow> valid_recurring (rc_convertToIncomeOrExpense ty r)"
    and "valid_recurring (rc_markAsGenerated g r)"
    and "valid_recurring (rc_setActive v r)"
  using assms
  by (auto simp: recurring_edit_defs valid_recurring_def falsy_def split: if_splits option.splits)

end
