(* ===== verification/Ledger.thy ===== *)
theory Ledger
  imports Recurring "HOL-Library.List_Lexorder" "HOL-Library.Char_ord" "HOL-Library.AList"
begin

text \<open>
  The financial tables of src/src/infra/databases/drizzle/schema.ts and the
  operations that write them: TransactionRepository, AccountRepository,
  RecurringTransactionRepository and \<open>insertOpeningMovement\<close> under
  src/src/infra/databases/drizzle/repositories. Each operation is one database
  transaction; it takes the state before it and returns the state after its
  COMMIT, or \<open>Inl\<close> of the error after which the database has rolled back, so
  the caller keeps the old state. The row locks (\<open>FOR UPDATE\<close>) make these
  transactions serial, which is what one function per transaction expresses.
  An error outside \<open>DomainError\<close> is thrown by the source instead of being
  returned as \<open>left\<close>; \<open>is_DomainError\<close> tells the two apart.

  Constraints of the schema that the operations can hit are modelled as thrown
  errors: primary keys, the unique index on (recurring id, date), the unique
  opening movement per account, and the foreign keys between these tables.
\<close>

section \<open>Tables\<close>

datatype BalanceMovementCause = OPENING | TRANSACTION_CREATED | TRANSACTION_UPDATED
  | TRANSACTION_DELETED | STATUS_CHANGED | INVOICE_PAID | RECONCILIATION

record movement =
  mv_workspaceId :: string
  mv_accountId :: string
  mv_transactionId :: "string option"
  mv_cause :: BalanceMovementCause
  mv_delta :: int
  mv_balanceAfter :: int
  mv_actorId :: "string option"

record db =
  accounts :: "account_row list"
  transactions :: "transaction list"
  recurrings :: "recurring list"
  movements :: "movement list"

definition duplicate_key :: "'a either" where
  "duplicate_key = throw_js ''duplicate key value violates unique constraint''"

definition foreign_key :: "'a either" where
  "foreign_key = throw_js ''violates foreign key constraint''"

definition account_row_of :: "db \<Rightarrow> string \<Rightarrow> account_row option" where
  "account_row_of d aid = find_row (\<lambda>r. row_id r = aid) (accounts d)"

definition transaction_of :: "db \<Rightarrow> string \<Rightarrow> transaction option" where
  "transaction_of d tid = find_row (\<lambda>t. tx_id t = tid) (transactions d)"

definition recurring_of :: "db \<Rightarrow> string \<Rightarrow> recurring option" where
  "recurring_of d rid = find_row (\<lambda>r. rc_id r = rid) (recurrings d)"

definition movements_of :: "db \<Rightarrow> string \<Rightarrow> movement list" where
  "movements_of d aid = filter (\<lambda>m. mv_accountId m = aid) (movements d)"

section \<open>Accounts and their opening movement\<close>

definition insert_movement :: "movement \<Rightarrow> db \<Rightarrow> db either" where
  "insert_movement m d =
     (if mv_cause m = OPENING
         \<and> (\<exists>x \<in> set (movements d). mv_accountId x = mv_accountId m \<and> mv_cause x = OPENING)
      then duplicate_key else Inr (d\<lparr>movements := movements d @ [m]\<rparr>))"

definition insertOpeningMovement :: "string \<Rightarrow> string \<Rightarrow> int \<Rightarrow> string \<Rightarrow> db \<Rightarrow> db either" where
  "insertOpeningMovement ws aid bal actor d =
     insert_movement \<lparr>mv_workspaceId = ws, mv_accountId = aid,
        mv_transactionId = None, mv_cause = OPENING, mv_delta = bal, mv_balanceAfter = bal,
        mv_actorId = Some actor\<rparr> d"

definition ensureEntityId :: "string \<Rightarrow> string \<Rightarrow> string" where
  "ensureEntityId uuid i = (if i = [] then uuid else i)"

definition createWithOpeningMovement :: "string \<Rightarrow> account \<Rightarrow> string \<Rightarrow> db \<Rightarrow> db either" where
  "createWithOpeningMovement uuid acc actor d =
     (let aid = ensureEntityId uuid (account_id acc);
          acc' = map_base (\<lambda>p. p\<lparr>acc_id := aid\<rparr>) acc
      in if account_row_of d aid \<noteq> None then duplicate_key
         else insertOpeningMovement (workspace_of acc') aid (balance acc') actor
                (d\<lparr>accounts := accounts d @ [account_toDatabase acc']\<rparr>))"

definition account_findById :: "db \<Rightarrow> string \<Rightarrow> account option either" where
  "account_findById d aid = (case account_row_of d aid of
      None \<Rightarrow> Inr None | Some r \<Rightarrow> and_then (account_toDomain r) (Inr \<circ> Some))"

definition findByNameAndWorkspaceId :: "db \<Rightarrow> string \<Rightarrow> string \<Rightarrow> account option either" where
  "findByNameAndWorkspaceId d name ws =
     (case find_row (\<lambda>r. row_name r = name \<and> row_workspaceId r = ws) (accounts d) of
        None \<Rightarrow> Inr None | Some r \<Rightarrow> and_then (account_toDomain r) (Inr \<circ> Some))"

definition account_update :: "account \<Rightarrow> db \<Rightarrow> db" where
  "account_update acc d = d\<lparr>accounts :=
     update_rows (\<lambda>r. row_id r = account_id acc) (account_toUpdatePayload acc) (accounts d)\<rparr>"

text \<open>
  DELETE of an account with the ON DELETE clauses of the schema: its
  transactions and recurring rules go with it, references as destination become
  null; a transaction left with a rule that is gone violates the (NO ACTION)
  foreign key at the end of the statement.
\<close>

definition clear_tx_destination :: "string \<Rightarrow> transaction \<Rightarrow> transaction" where
  "clear_tx_destination aid t =
     (if tx_destinationAccountId t = Some aid then t\<lparr>tx_destinationAccountId := None\<rparr> else t)"

definition clear_rc_destination :: "string \<Rightarrow> recurring \<Rightarrow> recurring" where
  "clear_rc_destination aid r =
     (if rc_destinationAccountId r = Some aid then r\<lparr>rc_destinationAccountId := None\<rparr> else r)"

text \<open>
  The constraints on \<open>transactions\<close> and \<open>recurring_transactions\<close>, checked on the
  table a statement leaves behind. A null recurring id never conflicts.
\<close>

definition recurring_slots :: "transaction list \<Rightarrow> (string \<times> int) list" where
  "recurring_slots ts = concat (map (\<lambda>t. case tx_recurringId t of
      None \<Rightarrow> [] | Some rid \<Rightarrow> [(rid, tx_date t)]) ts)"

definition unique_ok :: "db \<Rightarrow> bool" where
  "unique_ok d = (distinct_by tx_id (transactions d) \<and> distinct_by rc_id (recurrings d)
     \<and> distinct (recurring_slots (transactions d)))"

definition account_ref_ok :: "db \<Rightarrow> string option \<Rightarrow> bool" where
  "account_ref_ok d ref = (case ref of None \<Rightarrow> True | Some aid \<Rightarrow> account_row_of d aid \<noteq> None)"

definition references_ok :: "db \<Rightarrow> bool" where
  "references_ok d =
     ((\<forall>t \<in> set (transactions d). account_ref_ok d (Some (tx_accountId t))
         \<and> account_ref_ok d (tx_destinationAccountId t)
         \<and> (case tx_recurringId t of None \<Rightarrow> True | Some rid \<Rightarrow> recurring_of d rid \<noteq> None))
      \<and> (\<forall>r \<in> set (recurrings d). account_ref_ok d (Some (rc_accountId r))
         \<and> account_ref_ok d (rc_destinationAccountId r)))"

definition enforce :: "db \<Rightarrow> db either" where
  "enforce d = (if \<not> unique_ok d then duplicate_key
                else if \<not> references_ok d then foreign_key else Inr d)"

definition account_delete :: "string \<Rightarrow> db \<Rightarrow> db either" where
  "account_delete aid d =
     (let d' = d\<lparr>accounts := delete_rows (\<lambda>r. row_id r = aid) (accounts d),
                 transactions := map (clear_tx_destination aid)
                    (delete_rows (\<lambda>t. tx_accountId t = aid) (transactions d)),
                 recurrings := map (clear_rc_destination aid)
                    (delete_rows (\<lambda>r. rc_accountId r = aid) (recurrings d))\<rparr>
      in enforce d')"

section \<open>Locking and applying balance effects\<close>

fun traverse :: "('a \<Rightarrow> 'e + 'b) \<Rightarrow> 'a list \<Rightarrow> 'e + 'b list" where
  "traverse f [] = Inr []"
| "traverse f (x # xs) = and_then (f x) (\<lambda>y. and_then (traverse f xs) (\<lambda>ys. Inr (y # ys)))"

definition lock_ids :: "string option list \<Rightarrow> string list" where
  "lock_ids ids = sort (remdups (map the (filter (\<lambda>i. \<not> falsy i) ids)))"

definition lockAccounts :: "db \<Rightarrow> string option list \<Rightarrow> (string \<times> account) list either" where
  "lockAccounts d ids =
     traverse (\<lambda>r. and_then (account_toDomain r) (\<lambda>a. Inr (row_id r, a)))
       (sort_key row_id (filter (\<lambda>r. row_id r \<in> set (lock_ids ids)) (accounts d)))"

text \<open>
  The first loop of \<open>applyBalanceEffects\<close>. \<open>initial\<close> is the insertion-ordered
  map of first balances, \<open>accts\<close> the locked accounts, which the effects mutate.
\<close>

fun run_effects :: "bool \<Rightarrow> (string \<times> account) list \<Rightarrow> (string \<times> int) list \<Rightarrow> balance_effect list
    \<Rightarrow> ((string \<times> account) list \<times> (string \<times> int) list) either" where
  "run_effects sch accts initial [] = Inr (accts, initial)"
| "run_effects sch accts initial (e # es) =
     (case map_of accts (eff_accountId e) of
        None \<Rightarrow> left_account (AccountNotFoundError ''Conta nao encontrada.'')
      | Some a \<Rightarrow>
          let initial' = (if map_of initial (account_id a) \<noteq> None then initial
                          else initial @ [(account_id a, balance a)])
          in and_then (apply_effect sch a (eff_kind e) (eff_amount e))
               (\<lambda>b. run_effects sch (AList.update (eff_accountId e) b accts) initial' es))"

definition balance_deltas :: "(string \<times> account) list \<Rightarrow> (string \<times> int) list \<Rightarrow> (string \<times> int) list" where
  "balance_deltas accts initial =
     concat (map (\<lambda>(aid, b0). case map_of accts aid of None \<Rightarrow> [] | Some a \<Rightarrow> [(aid, balance a - b0)])
                 initial)"

definition applyBalanceEffects ::
  "bool \<Rightarrow> (string \<times> account) list \<Rightarrow> balance_effect list \<Rightarrow> (string \<times> int) list either" where
  "applyBalanceEffects sch accts es =
     and_then (run_effects sch accts [] es) (\<lambda>(accts', initial). Inr (balance_deltas accts' initial))"

record movement_entry =
  en_transactionId :: "string option"
  en_cause :: BalanceMovementCause
  en_actorId :: string

definition post_delta :: "movement_entry \<Rightarrow> string \<Rightarrow> int \<Rightarrow> db \<Rightarrow> db either" where
  "post_delta en aid delta d =
     (case account_row_of d aid of
        None \<Rightarrow> left_account (AccountNotFoundError ''Conta nao encontrada.'')
      | Some r \<Rightarrow> insert_movement \<lparr>mv_workspaceId = row_workspaceId r, mv_accountId = aid,
            mv_transactionId = en_transactionId en, mv_cause = en_cause en, mv_delta = delta,
            mv_balanceAfter = row_balance r + delta, mv_actorId = Some (en_actorId en)\<rparr>
          (d\<lparr>accounts := update_rows (\<lambda>r. row_id r = aid)
                (\<lambda>r. r\<lparr>row_balance := row_balance r + delta\<rparr>) (accounts d)\<rparr>))"

fun post_deltas :: "movement_entry \<Rightarrow> (string \<times> int) list \<Rightarrow> db \<Rightarrow> db either" where
  "post_deltas en [] d = Inr d"
| "post_deltas en ((aid, delta) # ds) d = and_then (post_delta en aid delta d) (post_deltas en ds)"

definition ordered_deltas :: "(string \<times> int) list \<Rightarrow> (string \<times> int) list" where
  "ordered_deltas ds = sort_key fst (filter (\<lambda>(aid, delta). delta \<noteq> 0) ds)"

definition writeBalanceDeltas :: "(string \<times> int) list \<Rightarrow> movement_entry \<Rightarrow> db \<Rightarrow> db either" where
  "writeBalanceDeltas ds en d = post_deltas en (ordered_deltas ds) d"

section \<open>The ledger contract\<close>

text \<open>
  What the reconciliation job expects of the balance store: posting a delta moves
  the balance of one account and appends exactly that delta to its log.
\<close>

fun post_seq :: "('k \<Rightarrow> int \<Rightarrow> 'd \<Rightarrow> 'e + 'd) \<Rightarrow> ('k \<times> int) list \<Rightarrow> 'd \<Rightarrow> 'e + 'd" where
  "post_seq post [] d = Inr d"
| "post_seq post ((k, x) # ds) d = and_then (post k x d) (post_seq post ds)"

definition posted :: "'k \<Rightarrow> ('k \<times> int) list \<Rightarrow> int list" where
  "posted k ds = map snd (filter (\<lambda>(j, x). j = k) ds)"

lemma posted_simps [ledger_simps]:
  "posted k [] = []"
  "posted k ((j, x) # ds) = (if j = k then [x] else []) @ posted k ds"
  by (simp_all add: posted_def)

locale posted_ledger =
  fixes post :: "'k \<Rightarrow> int \<Rightarrow> 'd \<Rightarrow> 'e + 'd"
    and bal :: "'d \<Rightarrow> 'k \<Rightarrow> int option"
    and log :: "'d \<Rightarrow> 'k \<Rightarrow> int list"
  assumes post_bal: "post k x d = Inr d' \<Longrightarrow>
      bal d' j = (if j = k then map_option (\<lambda>b. b + x) (bal d j) else bal d j)"
    and post_log: "post k x d = Inr d' \<Longrightarrow> log d' j = log d j @ (if j = k then [x] else [])"
begin

definition balanced :: "'d \<Rightarrow> bool" where
  "balanced d = (\<forall>k b. bal d k = Some b \<longrightarrow> b = sum_list (log d k))"

lemma seq_bal_log:
  "post_seq post ds d = Inr d' \<Longrightarrow>
     bal d' j = map_option (\<lambda>b. b + sum_list (posted j ds)) (bal d j) \<and> log d' j = log d j @ posted j ds"
proof (induction ds arbitrary: d)
  case Nil then show ?case by (simp add: ledger_simps option.map_ident)
next
  case (Cons e ds)
  obtain k x where e: "e = (k, x)" by (cases e)
  with Cons.prems obtain c where c: "post k x d = Inr c" "post_seq post ds c = Inr d'"
    by (auto simp: and_then_Inr_iff)
  from Cons.IH[OF c(2)] e show ?case
    by (simp add: post_bal[OF c(1)] post_log[OF c(1)] ledger_simps option.map_comp comp_def algebra_simps)
qed

lemma seq_balanced: "post_seq post ds d = Inr d' \<Longrightarrow> balanced d \<Longrightarrow> balanced d'"
  unfolding balanced_def
proof (intro allI impI)
  fix k b assume s: "post_seq post ds d = Inr d'" and d: "\<forall>k b. bal d k = Some b \<longrightarrow> b = sum_list (log d k)"
    and b: "bal d' k = Some b"
  from seq_bal_log[OF s, of k] d b show "b = sum_list (log d' k)" by (cases "bal d k") auto
qed

end

abbreviation db_balance :: "db \<Rightarrow> string \<Rightarrow> int option" where
  "db_balance d aid \<equiv> map_option row_balance (account_row_of d aid)"

abbreviation db_log :: "db \<Rightarrow> string \<Rightarrow> int list" where
  "db_log d aid \<equiv> map mv_delta (movements_of d aid)"

lemma insert_movement_Inr:
  "insert_movement m d = Inr d' \<Longrightarrow> d' = d\<lparr>movements := movements d @ [m]\<rparr>
     \<and> (mv_cause m = OPENING \<longrightarrow>
          (\<forall>x\<in>set (movements_of d (mv_accountId m)). mv_cause x \<noteq> OPENING))"
  by (auto simp: insert_movement_def duplicate_key_def movements_of_def split: if_splits)

lemma movements_of_snoc [ledger_simps]:
  "movements d' = movements d @ [m] \<Longrightarrow>
     movements_of d' j = movements_of d j @ (if mv_accountId m = j then [m] else [])"
  by (simp add: movements_of_def)

lemma post_delta_Inr:
  assumes "post_delta en aid x d = Inr d'"
  obtains r where "account_row_of d aid = Some r"
    and "accounts d' = update_rows (\<lambda>r. row_id r = aid) (\<lambda>r. r\<lparr>row_balance := row_balance r + x\<rparr>) (accounts d)"
    and "movements d' = movements d @ [\<lparr>mv_workspaceId = row_workspaceId r, mv_accountId = aid,
            mv_transactionId = en_transactionId en, mv_cause = en_cause en, mv_delta = x,
            mv_balanceAfter = row_balance r + x, mv_actorId = Some (en_actorId en)\<rparr>]"
    and "transactions d' = transactions d" "recurrings d' = recurrings d"
    and "en_cause en = OPENING \<longrightarrow> (\<forall>m\<in>set (movements_of d aid). mv_cause m \<noteq> OPENING)"
  using assms
  by (auto simp: post_delta_def movements_of_def split: option.splits dest!: insert_movement_Inr)

lemma post_deltas_seq: "post_deltas en ds d = post_seq (post_delta en) ds d"
proof -
  have "post_deltas en ds = post_seq (post_delta en) ds"
    by (induction ds) auto
  then show ?thesis by simp
qed

interpretation db_ledger: posted_ledger "\<lambda>aid x d. post_delta en aid x d" db_balance db_log
proof
  fix aid x d d' j assume p: "post_delta en aid x d = Inr d'"
  show "db_balance d' j = (if j = aid then map_option (\<lambda>b. b + x) (db_balance d j) else db_balance d j)"
    using p by (rule post_delta_Inr) (auto simp: account_row_of_def table_simps option.map_comp comp_def)
  show "db_log d' j = db_log d j @ (if j = aid then [x] else [])"
    using p by (rule post_delta_Inr) (simp add: movements_of_snoc)
qed

section \<open>The audit-trail invariant\<close>

text \<open>
  Every account starts with its only opening movement, every \<open>balance_after\<close> is
  the running sum of the deltas up to that movement, and the stored balance of an
  account is the sum of its deltas.
\<close>

fun running :: "int \<Rightarrow> movement list \<Rightarrow> bool" where
  "running b [] = True"
| "running b (m # ms) = (mv_balanceAfter m = b + mv_delta m \<and> running (mv_balanceAfter m) ms)"

fun opening_first :: "movement list \<Rightarrow> bool" where
  "opening_first [] = True"
| "opening_first (m # ms) = (mv_cause m = OPENING \<and> (\<forall>x\<in>set ms. mv_cause x \<noteq> OPENING))"

definition ledger_ok :: "db \<Rightarrow> bool" where
  "ledger_ok d = (distinct_by row_id (accounts d)
     \<and> (\<forall>aid. running 0 (movements_of d aid) \<and> opening_first (movements_of d aid))
     \<and> (\<forall>r\<in>set (accounts d). movements_of d (row_id r) \<noteq> []
           \<and> row_balance r = sum_list (db_log d (row_id r))))"

lemma running_snoc [ledger_simps]:
  "running b (ms @ [m]) \<longleftrightarrow> running b ms \<and> mv_balanceAfter m = b + sum_list (map mv_delta ms) + mv_delta m"
proof (induction ms arbitrary: b)
  case (Cons a ms)
  then show ?case by (cases "mv_balanceAfter a = b + mv_delta a") (simp_all add: add.assoc)
qed simp

lemma opening_first_snoc:
  "opening_first ms \<Longrightarrow> ms \<noteq> [] \<Longrightarrow> mv_cause m \<noteq> OPENING \<Longrightarrow> opening_first (ms @ [m])"
  by (cases ms) auto

lemma opening_first_has: "opening_first ms \<Longrightarrow> ms \<noteq> [] \<Longrightarrow> \<exists>m\<in>set ms. mv_cause m = OPENING"
  by (cases ms) auto

lemma ledger_ok_row:
  "ledger_ok d \<Longrightarrow> r \<in> set (accounts d) \<Longrightarrow>
     movements_of d (row_id r) \<noteq> [] \<and> row_balance r = sum_list (db_log d (row_id r))"
  unfolding ledger_ok_def by blast

lemma account_row_of_SomeD:
  "account_row_of d aid = Some r \<Longrightarrow> r \<in> set (accounts d) \<and> row_id r = aid"
  unfolding account_row_of_def by (drule find_row_SomeD) simp

lemma ledger_ok_account:
  assumes "ledger_ok d" "account_row_of d aid = Some r"
  shows "row_balance r = sum_list (db_log d aid)" "movements_of d aid \<noteq> []"
  using ledger_ok_row[OF assms(1), of r] account_row_of_SomeD[OF assms(2)] by simp_all

lemma ledger_ok_chain: "ledger_ok d \<Longrightarrow> running 0 (movements_of d aid) \<and> opening_first (movements_of d aid)"
  unfolding ledger_ok_def by blast

lemma ledger_okI:
  assumes "distinct_by row_id (accounts d)"
    and "\<And>aid. running 0 (movements_of d aid) \<and> opening_first (movements_of d aid)"
    and "\<And>r. r \<in> set (accounts d) \<Longrightarrow>
           movements_of d (row_id r) \<noteq> [] \<and> row_balance r = sum_list (db_log d (row_id r))"
  shows "ledger_ok d"
  using assms unfolding ledger_ok_def by blast

lemma post_delta_ledger_ok:
  assumes p: "post_delta en aid x d = Inr d'" and ok: "ledger_ok d"
  shows "ledger_ok d'"
proof -
  from p obtain r where r: "account_row_of d aid = Some r"
    and acc: "accounts d' = update_rows (\<lambda>r. row_id r = aid) (\<lambda>r. r\<lparr>row_balance := row_balance r + x\<rparr>) (accounts d)"
    and mov: "movements d' = movements d @ [\<lparr>mv_workspaceId = row_workspaceId r, mv_accountId = aid,
            mv_transactionId = en_transactionId en, mv_cause = en_cause en, mv_delta = x,
            mv_balanceAfter = row_balance r + x, mv_actorId = Some (en_actorId en)\<rparr>]"
    and op: "en_cause en = OPENING \<longrightarrow> (\<forall>m\<in>set (movements_of d aid). mv_cause m \<noteq> OPENING)"
    by (rule post_delta_Inr) blast
  note bal = ledger_ok_account[OF ok r]
  from ok have of: "opening_first (movements_of d aid)" by (simp add: ledger_ok_def)
  with bal(2) op have cause: "en_cause en \<noteq> OPENING" using opening_first_has by blast
  note mv = movements_of_snoc[OF mov]
  show ?thesis
  proof (rule ledger_okI)
    show "distinct_by row_id (accounts d')"
      using ok by (simp add: acc table_simps ledger_ok_def)
    show "running 0 (movements_of d' j) \<and> opening_first (movements_of d' j)" for j
      using ledger_ok_chain[OF ok, of j] bal cause opening_first_snoc[OF of bal(2)]
      by (cases "j = aid") (simp_all add: mv running_snoc)
  next
    fix q assume "q \<in> set (accounts d')"
    then obtain q0 where q: "q0 \<in> set (accounts d)"
      "q = (if row_id q0 = aid then q0\<lparr>row_balance := row_balance q0 + x\<rparr> else q0)"
      unfolding acc set_update_rows by blast
    from ledger_ok_row[OF ok q(1)]
    show "movements_of d' (row_id q) \<noteq> [] \<and> row_balance q = sum_list (db_log d' (row_id q))"
      by (cases "row_id q0 = aid") (simp_all add: q(2) mv)
  qed
qed

lemma post_deltas_ledger_ok: "post_deltas en ds d = Inr d' \<Longrightarrow> ledger_ok d \<Longrightarrow> ledger_ok d'"
proof (induction ds arbitrary: d)
  case (Cons e ds)
  then obtain aid x c where "post_delta en aid x d = Inr c" "post_deltas en ds c = Inr d'"
    by (cases e) (auto simp: and_then_Inr_iff)
  with Cons.IH Cons.prems(2) show ?case using post_delta_ledger_ok by blast
qed simp

lemma writeBalanceDeltas_ledger_ok:
  "writeBalanceDeltas ds en d = Inr d' \<Longrightarrow> ledger_ok d \<Longrightarrow> ledger_ok d'"
  by (simp add: writeBalanceDeltas_def post_deltas_ledger_ok)

lemma ledger_ok_cong:
  "accounts d' = accounts d \<Longrightarrow> movements d' = movements d \<Longrightarrow> ledger_ok d' = ledger_ok d"
  by (simp add: ledger_ok_def movements_of_def)

lemma post_deltas_keeps:
  "post_deltas en ds d = Inr d' \<Longrightarrow> transactions d' = transactions d \<and> recurrings d' = recurrings d"
proof (induction ds arbitrary: d)
  case (Cons e ds)
  then obtain aid x c where c: "post_delta en aid x d = Inr c" "post_deltas en ds c = Inr d'"
    by (cases e) (auto simp: and_then_Inr_iff)
  from c(1) have "transactions c = transactions d \<and> recurrings c = recurrings d"
    by (rule post_delta_Inr) simp
  with Cons.IH[OF c(2)] show ?case by simp
qed simp

lemma createWithOpeningMovement_ledger_ok:
  assumes c: "createWithOpeningMovement uuid acc actor d = Inr d'" and ok: "ledger_ok d"
  shows "ledger_ok d'"
proof -
  let ?aid = "ensureEntityId uuid (account_id acc)"
  let ?row = "account_toDatabase (map_base (\<lambda>p. p\<lparr>acc_id := ?aid\<rparr>) acc)"
  have id: "row_id ?row = ?aid" by (simp add: account_toDatabase_def account_simps)
  from c obtain m where fresh: "account_row_of d ?aid = None"
    and acc: "accounts d' = accounts d @ [?row]" and mov: "movements d' = movements d @ [m]"
    and m: "mv_accountId m = ?aid" "mv_cause m = OPENING" "mv_delta m = row_balance ?row"
           "mv_balanceAfter m = row_balance ?row"
    and none: "\<forall>x\<in>set (movements_of d ?aid). mv_cause x \<noteq> OPENING"
    by (auto simp: createWithOpeningMovement_def insertOpeningMovement_def Let_def duplicate_key_def
        account_toDatabase_def movements_of_def account_simps split: if_splits dest!: insert_movement_Inr)
  from ok none have empty: "movements_of d ?aid = []"
    using opening_first_has[of "movements_of d ?aid"] by (auto simp: ledger_ok_def)
  note mv = movements_of_snoc[OF mov]
  show ?thesis
  proof (rule ledger_okI)
    show "distinct_by row_id (accounts d')"
      using ok fresh id by (simp add: acc table_simps ledger_ok_def account_row_of_def)
    show "running 0 (movements_of d' j) \<and> opening_first (movements_of d' j)" for j
      using ledger_ok_chain[OF ok, of j] m empty
      by (cases "j = ?aid") (simp_all add: mv)
  next
    fix q assume q: "q \<in> set (accounts d')"
    show "movements_of d' (row_id q) \<noteq> [] \<and> row_balance q = sum_list (db_log d' (row_id q))"
    proof (cases "q = ?row")
      case True then show ?thesis using m empty id by (simp add: mv)
    next
      case False
      with q have "q \<in> set (accounts d)" by (simp add: acc)
      moreover from this fresh have "row_id q \<noteq> ?aid" by (auto simp: account_row_of_def find_row_None_iff)
      ultimately show ?thesis using ledger_ok_row[OF ok] m by (simp add: mv)
    qed
  qed
qed

lemma account_update_ledger_ok:
  assumes ok: "ledger_ok d" shows "ledger_ok (account_update acc d)"
proof (rule ledger_okI)
  show "distinct_by row_id (accounts (account_update acc d))"
    using ok by (simp add: account_update_def table_simps account_simps ledger_ok_def)
  show "running 0 (movements_of (account_update acc d) j) \<and> opening_first (movements_of (account_update acc d) j)" for j
    using ledger_ok_chain[OF ok, of j] by (simp add: account_update_def movements_of_def)
next
  fix q assume "q \<in> set (accounts (account_update acc d))"
  then obtain q0 where q: "q0 \<in> set (accounts d)"
    "q = (if row_id q0 = account_id acc then account_toUpdatePayload acc q0 else q0)"
    by (auto simp: account_update_def set_update_rows)
  from ledger_ok_row[OF ok q(1)]
  show "movements_of (account_update acc d) (row_id q) \<noteq> []
      \<and> row_balance q = sum_list (db_log (account_update acc d) (row_id q))"
    by (cases "row_id q0 = account_id acc")
       (simp_all add: q(2) account_simps account_update_def movements_of_def)
qed

lemma account_delete_ledger_ok:
  assumes del: "account_delete aid d = Inr d'" and ok: "ledger_ok d"
  shows "ledger_ok d'"
proof -
  from del have d': "accounts d' = delete_rows (\<lambda>r. row_id r = aid) (accounts d)" "movements d' = movements d"
    by (auto simp: account_delete_def Let_def enforce_def duplicate_key_def foreign_key_def split: if_splits)
  then have mv: "movements_of d' = movements_of d" by (simp add: movements_of_def fun_eq_iff)
  show ?thesis
  proof (rule ledger_okI)
    show "distinct_by row_id (accounts d')"
      using ok by (simp add: d' ledger_ok_def distinct_by_delete_rows)
    show "running 0 (movements_of d' j) \<and> opening_first (movements_of d' j)" for j
      using ledger_ok_chain[OF ok] by (simp add: mv)
  next
    fix q assume "q \<in> set (accounts d')"
    then have "q \<in> set (accounts d)" by (simp add: d' delete_rows_def)
    with ledger_ok_row[OF ok] show "movements_of d' (row_id q) \<noteq> [] \<and> row_balance q = sum_list (db_log d' (row_id q))"
      by (simp add: mv)
  qed
qed

end
