(* ===== verification/Books.thy ===== *)
theory Books
  imports TransactionRepo
begin

text \<open>
  What the repository operations guarantee across the tables. The locale
  \<open>balance_mutation\<close> is the contract between \<open>createWithBalanceUpdate\<close> and the
  services that pass it a \<open>CreateBalanceMutation\<close>; \<open>repo_step\<close> is one committed
  database transaction of the program, and two invariants hold in every state
  such steps reach: the audit trail (\<open>ledger_ok\<close>) and the books (\<open>books_ok\<close>:
  stored balance = opening balance + effects of the completed transactions).
\<close>

section \<open>Locked accounts\<close>

lemma traverse_rows:
  assumes "traverse (\<lambda>r. and_then (account_toDomain r) (\<lambda>a. Inr (row_id r, a))) rows = Inr accts"
  shows "map_of accts i = None \<longleftrightarrow> i \<notin> row_id ` set rows"
    and "map_of accts i = Some a \<Longrightarrow> \<exists>r\<in>set rows. row_id r = i \<and> account_toDomain r = Inr a"
proof -
  have "(map_of accts i = None \<longleftrightarrow> i \<notin> row_id ` set rows)
      \<and> (map_of accts i = Some a \<longrightarrow> (\<exists>r\<in>set rows. row_id r = i \<and> account_toDomain r = Inr a))"
    using assms
    by (induction rows arbitrary: accts) (auto simp: and_then_Inr_iff split: if_splits)
  then show "map_of accts i = None \<longleftrightarrow> i \<notin> row_id ` set rows"
    and "map_of accts i = Some a \<Longrightarrow> \<exists>r\<in>set rows. row_id r = i \<and> account_toDomain r = Inr a"
    by auto
qed

lemma lockAccounts_keyed: "lockAccounts d ids = Inr accts \<Longrightarrow> keyed accts"
  unfolding lockAccounts_def keyed_def
  by (auto dest!: traverse_rows(2) dest: toDomain_row_facts(1))

lemma lockAccounts_None:
  assumes "lockAccounts d ids = Inr accts" "map_of accts i = None" "i \<in> set (lock_ids ids)"
  shows "account_row_of d i = None"
  using assms traverse_rows(1)[of "sort_key row_id (filter (\<lambda>r. row_id r \<in> set (lock_ids ids)) (accounts d))" accts i]
  by (force simp: lockAccounts_def account_row_of_def find_row_None_iff)

lemma lockAccounts_Some:
  assumes "lockAccounts d ids = Inr accts" "map_of accts i = Some a" "distinct_by row_id (accounts d)"
  obtains r where "account_row_of d i = Some r" "account_toDomain r = Inr a"
proof -
  from traverse_rows(2)[OF assms(1)[unfolded lockAccounts_def] assms(2)]
  obtain r where "r \<in> set (accounts d)" "row_id r = i" "account_toDomain r = Inr a" by auto
  with find_row_key_Some_iff[OF assms(3), of i r] that show thesis by (simp add: account_row_of_def)
qed

section \<open>The contract of a balance mutation\<close>

text \<open>
  The deltas \<open>f\<close> returns are, per account, the signed net effect of transaction
  \<open>t\<close>, and every account the transaction affects is among the locked ones.
\<close>

definition net_mutation :: "balance_effect list \<Rightarrow> create_mutation \<Rightarrow> bool" where
  "net_mutation es f = (\<forall>accts ds. keyed accts \<longrightarrow> f accts = Inr ds \<longrightarrow>
     (\<forall>i. sum_list (posted i ds) = (case map_of accts i of None \<Rightarrow> 0 | Some a \<Rightarrow> direction a * net_effect i es)
        \<and> (map_of accts i = None \<longrightarrow> effects_on i es = [])))"

lemma net_mutationD:
  assumes "net_mutation es f" "keyed accts" "f accts = Inr ds"
  shows "sum_list (posted i ds) = (case map_of accts i of None \<Rightarrow> 0 | Some a \<Rightarrow> direction a * net_effect i es)"
    and "map_of accts i = None \<Longrightarrow> effects_on i es = []"
  using assms unfolding net_mutation_def by blast+

lemma net_mutation_locked:
  assumes "net_mutation es f" "lockAccounts d ids = Inr accts" "f accts = Inr ds"
    and "distinct_by row_id (accounts d)" "account_row_of d i = Some r"
  shows "sum_list (posted i ds) = row_direction r * net_effect i es"
proof (cases "map_of accts i")
  case None
  with net_mutationD[OF assms(1) lockAccounts_keyed[OF assms(2)] assms(3), of i]
  show ?thesis by (simp add: net_effect_def account_simps)
next
  case (Some a)
  from lockAccounts_Some[OF assms(2) Some assms(4)] assms(5)
  have "account_toDomain r = Inr a" by auto
  with net_mutationD[OF assms(1) lockAccounts_keyed[OF assms(2)] assms(3), of i] Some
  show ?thesis by (simp add: toDomain_direction)
qed

locale balance_mutation =
  fixes adm :: "transaction \<Rightarrow> bool" and mut :: "transaction \<Rightarrow> create_mutation"
  assumes net: "adm t \<Longrightarrow> net_mutation (balanceEffects t) (mut t)"
begin

lemma locked_net:
  "adm t \<Longrightarrow> lockAccounts d ids = Inr accts \<Longrightarrow> mut t accts = Inr ds
     \<Longrightarrow> distinct_by row_id (accounts d) \<Longrightarrow> account_row_of d i = Some r
     \<Longrightarrow> sum_list (posted i ds) = row_direction r * net_effect i (balanceEffects t)"
  by (rule net_mutation_locked[OF net])

end

lemma net_mutation_applyBalanceEffects: "net_mutation es (\<lambda>accts. applyBalanceEffects sch accts es)"
  unfolding net_mutation_def using applyBalanceEffects_posted by blast

interpretation repo_mutation: balance_mutation "\<lambda>_. True" "\<lambda>t accts. applyBalanceEffects sch accts (balanceEffects t)"
  by unfold_locales (rule net_mutation_applyBalanceEffects)

lemmas locked_deltas = net_mutation_locked[OF net_mutation_applyBalanceEffects]

section \<open>The books\<close>

definition opening_balance :: "db \<Rightarrow> string \<Rightarrow> int" where
  "opening_balance d i = (case movements_of d i of [] \<Rightarrow> 0 | m # _ \<Rightarrow> mv_delta m)"

definition tx_total :: "transaction list \<Rightarrow> string \<Rightarrow> int" where
  "tx_total ts i = sum_list (map (\<lambda>t. net_effect i (balanceEffects t)) ts)"

definition books_ok :: "db \<Rightarrow> bool" where
  "books_ok d = (\<forall>i r. account_row_of d i = Some r \<longrightarrow>
     row_balance r = opening_balance d i + row_direction r * tx_total (transactions d) i)"

definition posts :: "(string \<Rightarrow> int) \<Rightarrow> db \<Rightarrow> db \<Rightarrow> bool" where
  "posts x d d' = ((\<forall>i. account_row_of d' i =
        map_option (\<lambda>r. r\<lparr>row_balance := row_balance r + x i\<rparr>) (account_row_of d i))
     \<and> (\<forall>i. \<exists>ms. movements_of d' i = movements_of d i @ ms))"

lemma post_delta_posts:
  assumes "post_delta en aid x d = Inr d'"
  shows "posts (\<lambda>i. if i = aid then x else 0) d d'"
  using assms
proof (rule post_delta_Inr)
  fix r assume acc: "accounts d' = update_rows (\<lambda>r. row_id r = aid) (\<lambda>r. r\<lparr>row_balance := row_balance r + x\<rparr>) (accounts d)"
    and mov: "movements d' = movements d @ [\<lparr>mv_workspaceId = row_workspaceId r, mv_accountId = aid,
            mv_transactionId = en_transactionId en, mv_cause = en_cause en, mv_delta = x,
            mv_balanceAfter = row_balance r + x, mv_actorId = Some (en_actorId en)\<rparr>]"
  have "account_row_of d' i = map_option (\<lambda>r. r\<lparr>row_balance := row_balance r + (if i = aid then x else 0)\<rparr>)
      (account_row_of d i)" for i
    by (cases "i = aid") (simp_all add: account_row_of_def acc table_simps option.map_ident)
  then show ?thesis by (auto simp: posts_def movements_of_snoc[OF mov])
qed

lemma posts_trans: "posts x d e \<Longrightarrow> posts y e f \<Longrightarrow> posts (\<lambda>i. x i + y i) d f"
  unfolding posts_def by (auto simp: option.map_comp comp_def add.assoc) (metis append.assoc)

lemma post_deltas_posts:
  "post_deltas en ds d = Inr d' \<Longrightarrow> posts (\<lambda>i. sum_list (posted i ds)) d d'"
proof (induction ds arbitrary: d)
  case Nil then show ?case by (simp add: posts_def ledger_simps option.map_ident)
next
  case (Cons e ds)
  then obtain aid x c where e: "e = (aid, x)" and c: "post_delta en aid x d = Inr c"
      "post_deltas en ds c = Inr d'"
    by (cases e) (auto simp: and_then_Inr_iff)
  have "(\<lambda>i. (if i = aid then x else 0) + sum_list (posted i ds)) = (\<lambda>i. sum_list (posted i (e # ds)))"
    by (auto simp: e ledger_simps fun_eq_iff)
  with posts_trans[OF post_delta_posts[OF c(1)] Cons.IH[OF c(2)]] show ?case by simp
qed

lemma writeBalanceDeltas_posts:
  assumes "writeBalanceDeltas ds en d = Inr d'"
  shows "posts (\<lambda>i. sum_list (posted i ds)) d d'" "transactions d' = transactions d" "recurrings d' = recurrings d"
  using post_deltas_posts[OF assms[unfolded writeBalanceDeltas_def]]
    post_deltas_keeps[OF assms[unfolded writeBalanceDeltas_def]]
  by (simp_all add: posted_ordered)

lemma posts_cong:
  assumes "accounts e = accounts d" "movements e = movements d"
  shows "posts x e d' = posts x d d'" "posts x d' e = posts x d' d"
  using assms by (simp_all add: posts_def account_row_of_def movements_of_def)

lemma books_transition:
  assumes ok: "ledger_ok d" "books_ok d" and p: "posts x d d'"
    and x: "\<And>i r. account_row_of d i = Some r \<Longrightarrow>
              x i = row_direction r * (tx_total (transactions d') i - tx_total (transactions d) i)"
  shows "books_ok d'"
  unfolding books_ok_def
proof (intro allI impI)
  fix i r' assume "account_row_of d' i = Some r'"
  with p obtain r where r: "account_row_of d i = Some r" "r' = r\<lparr>row_balance := row_balance r + x i\<rparr>"
    by (auto simp: posts_def)
  from p obtain ms where "movements_of d' i = movements_of d i @ ms" unfolding posts_def by blast
  with ledger_ok_account(2)[OF ok(1) r(1)] have "opening_balance d' i = opening_balance d i"
    by (cases "movements_of d i") (simp_all add: opening_balance_def)
  moreover from ok(2) r(1) have "row_balance r = opening_balance d i + row_direction r * tx_total (transactions d) i"
    by (simp add: books_ok_def)
  ultimately show "row_balance r' = opening_balance d' i + row_direction r' * tx_total (transactions d') i"
    using x[OF r(1)] by (simp add: r(2) row_direction_def algebra_simps)
qed

lemma tx_total_simps [ledger_simps]:
  "tx_total [] i = 0" "tx_total (t # ts) i = net_effect i (balanceEffects t) + tx_total ts i"
  "tx_total (ts @ us) i = tx_total ts i + tx_total us i"
  by (simp_all add: tx_total_def)

lemma tx_total_map_pending: "(\<And>t. t \<in> set ts \<Longrightarrow> tx_status t = PENDING) \<Longrightarrow> tx_total ts i = 0"
  by (induction ts) (auto simp: ledger_simps balanceEffects_def resolveBalanceEffects_def account_simps)

lemma tx_total_delete:
  assumes "distinct_by tx_id ts" "t \<in> set ts"
  shows "tx_total (delete_rows (\<lambda>u. tx_id u = tx_id t) ts) i = tx_total ts i - net_effect i (balanceEffects t)"
  using assms
proof (induction ts)
  case (Cons a ts)
  have "delete_rows (\<lambda>u. tx_id u = tx_id a) ts = ts"
    using Cons.prems(1) by (auto simp: delete_rows_def distinct_by_def image_iff filter_id_conv)
  with Cons show ?case by (auto simp: ledger_simps delete_rows_def distinct_by_def)
qed simp

lemma tx_total_update:
  assumes "distinct_by tx_id ts" "t \<in> set ts" "p t" "\<And>u. u \<in> set ts \<Longrightarrow> p u \<Longrightarrow> tx_id u = tx_id t"
  shows "tx_total (update_rows p f ts) i = tx_total ts i - net_effect i (balanceEffects t) + net_effect i (balanceEffects (f t))"
proof -
  have "u = t" if "u \<in> set ts" "tx_id u = tx_id t" for u
    using assms(1,2) that by (auto simp: distinct_by_def distinct_map inj_on_def)
  then have "update_rows p f ts = update_rows (\<lambda>u. tx_id u = tx_id t) f ts"
    using assms(3,4) by (auto simp: update_rows_def)
  with sum_list_update_one[OF assms(1,2) refl, of "\<lambda>t. net_effect i (balanceEffects t)" f]
  show ?thesis by (simp add: tx_total_def)
qed

section \<open>The effect of each operation\<close>

definition db_ok :: "db \<Rightarrow> bool" where
  "db_ok d = (ledger_ok d \<and> distinct_by tx_id (transactions d) \<and> books_ok d)"

lemma enforce_Inr: "enforce d = Inr d' \<longleftrightarrow> d' = d \<and> unique_ok d \<and> references_ok d"
  by (auto simp: enforce_def duplicate_key_def foreign_key_def)

lemma insert_transaction_Inr:
  "insert_transaction t d = Inr d' \<longleftrightarrow> d' = d\<lparr>transactions := transactions d @ [t]\<rparr> \<and> unique_ok d' \<and> references_ok d'"
  by (auto simp: insert_transaction_def enforce_Inr)

lemma net_effect_id [ledger_simps]:
  "balanceEffects (t\<lparr>tx_id := i\<rparr>) = balanceEffects t"
  "balanceEffects (t\<lparr>tx_updatedAt := u\<rparr>) = balanceEffects t"
  by (simp_all add: balanceEffects_def resolveBalanceEffects_def buildEffect_def)

lemma db_ok_posting:
  assumes "db_ok d" "posts x d d'" "ledger_ok d'" "distinct_by tx_id (transactions d')"
    and "\<And>i r. account_row_of d i = Some r \<Longrightarrow>
              x i = row_direction r * (tx_total (transactions d') i - tx_total (transactions d) i)"
  shows "db_ok d'"
  using assms books_transition[of d x d'] unfolding db_ok_def by blast

lemma db_ok_posted:
  assumes ok: "db_ok d" and w: "writeBalanceDeltas ds en d1 = Inr d2"
    and same1: "accounts d1 = accounts d" "movements d1 = movements d"
    and same2: "accounts d' = accounts d2" "movements d' = movements d2"
    and dist: "distinct_by tx_id (transactions d')"
    and net: "\<And>i r. account_row_of d i = Some r \<Longrightarrow> sum_list (posted i ds) =
              row_direction r * (tx_total (transactions d') i - tx_total (transactions d) i)"
  shows "db_ok d'"
proof (rule db_ok_posting[OF ok])
  show "posts (\<lambda>i. sum_list (posted i ds)) d d'"
    using writeBalanceDeltas_posts(1)[OF w] posts_cong[OF same1] posts_cong[OF same2] by simp
  show "ledger_ok d'"
    using ok writeBalanceDeltas_ledger_ok[OF w] ledger_ok_cong[OF same1] ledger_ok_cong[OF same2]
    by (simp add: db_ok_def)
qed (use dist net in auto)

lemma db_ok_unposted:
  assumes ok: "db_ok d" and same: "accounts d' = accounts d" "movements d' = movements d"
    and dist: "distinct_by tx_id (transactions d')"
    and net: "\<And>i. tx_total (transactions d') i = tx_total (transactions d) i"
  shows "db_ok d'"
proof (rule db_ok_posting[OF ok])
  show "posts (\<lambda>_. 0) d d'"
    using same by (simp add: posts_def account_row_of_def movements_of_def option.map_ident)
  show "ledger_ok d'" using ok ledger_ok_cong[OF same] by (simp add: db_ok_def)
qed (use dist net in auto)

lemma db_okD: "db_ok d \<Longrightarrow> distinct_by row_id (accounts d)" "db_ok d \<Longrightarrow> distinct_by tx_id (transactions d)"
  by (simp_all add: db_ok_def ledger_ok_def)

lemma persist_db_ok:
  assumes per: "persistWithBalanceUpdate uuid accts t f ctx d1 = Inr d'"
    and lock: "lockAccounts d ids = Inr accts" and f: "net_mutation (balanceEffects t) f"
    and ok: "db_ok d" and same: "accounts d1 = accounts d" "movements d1 = movements d"
      "transactions d1 = transactions d"
  shows "db_ok d'"
proof -
  from per obtain ds t' d2 where ds: "f accts = Inr ds" and t': "t' = t\<lparr>tx_id := ensureEntityId uuid (tx_id t)\<rparr>"
    and d2: "d2 = d1\<lparr>transactions := transactions d1 @ [t']\<rparr>" "unique_ok d2"
    and w: "writeBalanceDeltas ds (entry (tx_id t') TRANSACTION_CREATED ctx) d2 = Inr d'"
    by (auto simp: persistWithBalanceUpdate_def and_then_Inr_iff insert_transaction_Inr Let_def)
  note keeps = writeBalanceDeltas_posts[OF w]
  show ?thesis
  proof (rule db_ok_posted[OF ok w])
    show "distinct_by tx_id (transactions d')" using keeps(2) d2 by (simp add: unique_ok_def)
    fix i r assume r: "account_row_of d i = Some r"
    from net_mutation_locked[OF f lock ds db_okD(1)[OF ok] r]
    show "sum_list (posted i ds) =
        row_direction r * (tx_total (transactions d') i - tx_total (transactions d) i)"
      using keeps(2) d2(1) same(3) by (simp add: t' ledger_simps)
  qed (simp_all add: d2(1) same)
qed

lemma createWithBalanceUpdate_db_ok:
  assumes "createWithBalanceUpdate uuid t f ctx d = Inr d'" "net_mutation (balanceEffects t) f" "db_ok d"
  shows "db_ok d'"
  using assms persist_db_ok[of uuid _ t f ctx d d' d]
  by (auto simp: createWithBalanceUpdate_def and_then_Inr_iff lockAccountsForWrite_def)

lemma createInstallmentPlan_db_ok:
  assumes "createInstallmentPlan uuid r first ctx d = Inr d'" "db_ok d"
  shows "db_ok d'"
proof -
  from assms(1) obtain accts where
    lock: "lockAccounts d [Some (tx_accountId first), tx_destinationAccountId first] = Inr accts"
    and per: "persistWithBalanceUpdate uuid accts first
      (\<lambda>locked. applyBalanceEffects False locked (balanceEffects first)) ctx
      (d\<lparr>recurrings := recurrings d @ [r]\<rparr>) = Inr d'"
    by (auto simp: createInstallmentPlan_def and_then_Inr_iff lockAccountsForWrite_def
        insert_recurring_def enforce_Inr)
  show ?thesis
    by (rule persist_db_ok[OF per lock net_mutation_applyBalanceEffects assms(2)]) simp_all
qed

lemma transaction_ofD:
  "transaction_of d tid = Some t \<Longrightarrow> t \<in> set (transactions d) \<and> tx_id t = tid"
  unfolding transaction_of_def by (drule find_row_SomeD) simp

lemma updateWithBalanceEffect_db_ok:
  assumes up: "updateWithBalanceEffect tid mutate ctx d = Inr (d', u)" and ok: "db_ok d"
    and keeps_id: "\<And>t u. mutate t = Inr u \<Longrightarrow> tx_id u = tx_id t"
  shows "db_ok d'"
proof -
  from up obtain cur nxt ids accts ds d1 where cur: "transaction_of d tid = Some cur"
    and nxt: "mutate cur = Inr nxt" and lock: "lockAccounts d ids = Inr accts"
    and ds: "applyBalanceEffects False accts (revertedBalanceEffects cur @ balanceEffects nxt) = Inr ds"
    and w: "writeBalanceDeltas ds (entry (tx_id nxt) TRANSACTION_UPDATED ctx) d = Inr d1"
    and d': "d' = d1\<lparr>transactions := update_rows (\<lambda>r. tx_id r = tx_id nxt) (\<lambda>_. nxt) (transactions d1)\<rparr>"
      "unique_ok d'"
    by (auto simp: updateWithBalanceEffect_def update_transaction_row_def enforce_Inr and_then_Inr_iff
        split: option.splits)
  note keeps = writeBalanceDeltas_posts(2)[OF w]
  from cur have mem: "cur \<in> set (transactions d)" "tx_id nxt = tx_id cur"
    using transaction_ofD keeps_id[OF nxt] by auto
  show ?thesis
  proof (rule db_ok_posted[OF ok w refl refl])
    fix i r assume r: "account_row_of d i = Some r"
    show "sum_list (posted i ds) =
        row_direction r * (tx_total (transactions d') i - tx_total (transactions d) i)"
      using locked_deltas[OF lock ds db_okD(1)[OF ok] r]
        tx_total_update[OF db_okD(2)[OF ok] mem(1), of "\<lambda>r. tx_id r = tx_id nxt" "\<lambda>_. nxt"]
      by (simp add: d' keeps mem(2) account_simps net_effect_reverted)
  qed (use d' in \<open>simp_all add: unique_ok_def\<close>)
qed

lemma deleteWithBalanceEffect_cases:
  assumes "deleteWithBalanceEffect tid ctx d = Inr (d', b)"
  shows "d' = d \<or> (\<exists>cur ids accts ds. transaction_of d tid = Some cur \<and> lockAccounts d ids = Inr accts
     \<and> applyBalanceEffects False accts (revertedBalanceEffects cur) = Inr ds
     \<and> writeBalanceDeltas ds (entry (tx_id cur) TRANSACTION_DELETED ctx)
         (d\<lparr>transactions := delete_rows (\<lambda>t. tx_id t = tx_id cur) (transactions d)\<rparr>) = Inr d')"
proof (cases "transaction_of d tid")
  case None with assms show ?thesis by (simp add: deleteWithBalanceEffect_def)
next
  case (Some cur)
  with assms show ?thesis
    by (auto simp: deleteWithBalanceEffect_def and_then_Inr_iff Let_def split: if_splits)
qed

lemma deleteWithBalanceEffect_db_ok:
  assumes del: "deleteWithBalanceEffect tid ctx d = Inr (d', b)" and ok: "db_ok d"
  shows "db_ok d'"
proof -
  let ?d1 = "\<lambda>cur. d\<lparr>transactions := delete_rows (\<lambda>t. tx_id t = tx_id cur) (transactions d)\<rparr>"
  from deleteWithBalanceEffect_cases[OF del] consider "d' = d" | cur ids accts ds
    where "transaction_of d tid = Some cur"
    "lockAccounts d ids = Inr accts" "applyBalanceEffects False accts (revertedBalanceEffects cur) = Inr ds"
    "writeBalanceDeltas ds (entry (tx_id cur) TRANSACTION_DELETED ctx) (?d1 cur) = Inr d'" by blast
  then show ?thesis
  proof cases
    case 1 with ok show ?thesis by simp
  next
    case (2 cur ids accts ds)
    note keeps = writeBalanceDeltas_posts(2)[OF 2(4)]
    from transaction_ofD[OF 2(1)] have mem: "cur \<in> set (transactions d)" by simp
    show ?thesis
    proof (rule db_ok_posted[OF ok 2(4)])
      show "distinct_by tx_id (transactions d')"
        using db_okD(2)[OF ok] by (simp add: keeps distinct_by_delete_rows)
      fix i r assume r: "account_row_of d i = Some r"
      show "sum_list (posted i ds) =
          row_direction r * (tx_total (transactions d') i - tx_total (transactions d) i)"
        using locked_deltas[OF 2(2,3) db_okD(1)[OF ok] r] tx_total_delete[OF db_okD(2)[OF ok] mem]
        by (simp add: keeps net_effect_reverted)
    qed simp_all
  qed
qed

lemma statusBefore_other: "s \<noteq> s' \<Longrightarrow> statusBefore s' = s"
  by (cases s; cases s') auto

lemma updateStatus_Inr:
  assumes "updateStatusWithBalanceEffect now params ctx d = Inr (d', u)"
  obtains row ids accts ds d1 where "row \<in> set (transactions d)" "status_candidate params row"
    and "u = row\<lparr>tx_status := sp_status params, tx_updatedAt := Some now\<rparr>"
    and "d1 = d\<lparr>transactions := update_rows (status_candidate params)
           (\<lambda>t. t\<lparr>tx_status := sp_status params, tx_updatedAt := Some now\<rparr>) (transactions d)\<rparr>"
    and "lockAccounts d1 ids = Inr accts"
    and "applyBalanceEffects (sp_scheduledSettlement params) accts
           (balanceEffectsFrom (statusBefore (sp_status params)) u) = Inr ds"
    and "writeBalanceDeltas ds (entry (tx_id u) STATUS_CHANGED ctx) d1 = Inr d'"
  using assms
  by (auto simp: updateStatusWithBalanceEffect_def and_then_Inr_iff Let_def split: option.splits
      dest!: find_row_SomeD)

lemma net_effect_balanceEffectsFrom:
  assumes "tx_status row \<noteq> s"
  shows "net_effect i (balanceEffectsFrom (statusBefore s) (row\<lparr>tx_status := s, tx_updatedAt := n\<rparr>))
       = net_effect i (balanceEffects (row\<lparr>tx_status := s, tx_updatedAt := n\<rparr>)) - net_effect i (balanceEffects row)"
proof -
  have "row\<lparr>tx_status := s, tx_updatedAt := n\<rparr>\<lparr>tx_status := statusBefore s\<rparr> = row\<lparr>tx_updatedAt := n\<rparr>"
    using statusBefore_other[OF assms] by (cases row) simp
  then show ?thesis
    by (simp add: balanceEffectsFrom_def account_simps net_effect_reverted ledger_simps)
qed

lemma updateStatusWithBalanceEffect_db_ok:
  assumes up: "updateStatusWithBalanceEffect now params ctx d = Inr (d', u)" and ok: "db_ok d"
  shows "db_ok d'"
  using up
proof (rule updateStatus_Inr)
  fix row ids accts ds d1
  let ?set = "\<lambda>t. t\<lparr>tx_status := sp_status params, tx_updatedAt := Some now\<rparr>"
  assume row: "row \<in> set (transactions d)" "status_candidate params row" and u: "u = ?set row"
    and d1: "d1 = d\<lparr>transactions := update_rows (status_candidate params) ?set (transactions d)\<rparr>"
    and lock: "lockAccounts d1 ids = Inr accts"
    and ds: "applyBalanceEffects (sp_scheduledSettlement params) accts
           (balanceEffectsFrom (statusBefore (sp_status params)) u) = Inr ds"
    and w: "writeBalanceDeltas ds (entry (tx_id u) STATUS_CHANGED ctx) d1 = Inr d'"
  note keeps = writeBalanceDeltas_posts(2)[OF w]
  have st: "tx_status row \<noteq> sp_status params" using row(2) by (simp add: status_candidate_def)
  show ?thesis
  proof (rule db_ok_posted[OF ok w])
    show "distinct_by tx_id (transactions d')"
      using db_okD(2)[OF ok] by (simp add: keeps d1 table_simps)
    fix i r assume r: "account_row_of d i = Some r"
    have d1': "distinct_by row_id (accounts d1)" "account_row_of d1 i = Some r"
      using db_okD(1)[OF ok] r by (simp_all add: d1 account_row_of_def)
    have "tx_total (transactions d') i = tx_total (transactions d) i
        - net_effect i (balanceEffects row) + net_effect i (balanceEffects (?set row))"
      using tx_total_update[OF db_okD(2)[OF ok] row(1), of "status_candidate params" ?set] row(2)
      by (simp add: status_candidate_def keeps d1)
    with locked_deltas[OF lock ds d1']
    show "sum_list (posted i ds) =
        row_direction r * (tx_total (transactions d') i - tx_total (transactions d) i)"
      by (simp add: u net_effect_balanceEffectsFrom[OF st])
  qed (simp_all add: d1)
qed

lemma insert_generated_extends: "\<exists>ks. insert_generated new ts = ts @ ks \<and> set ks \<subseteq> set new"
proof (induction new arbitrary: ts)
  case (Cons n new)
  from Cons.IH[of ts] Cons.IH[of "ts @ [n]"] show ?case
    by (cases "set (recurring_slots [n]) \<inter> set (recurring_slots ts) = {}") auto
qed simp

lemma with_default_ids_status: "map tx_status (with_default_ids fresh n ts) = map tx_status ts"
  by (induction ts arbitrary: n) simp_all

lemma createGeneratedTransactions_db_ok:
  assumes gen: "createGeneratedTransactions fresh new r d = Inr (d', n)" and ok: "db_ok d"
    and pending: "\<And>t. t \<in> set new \<Longrightarrow> tx_status t = PENDING"
  shows "db_ok d'"
proof -
  from insert_generated_extends[of "with_default_ids fresh 0 new" "transactions d"] obtain ks where
    ks: "insert_generated (with_default_ids fresh 0 new) (transactions d) = transactions d @ ks"
    "set ks \<subseteq> set (with_default_ids fresh 0 new)" by blast
  have "tx_status ` set (with_default_ids fresh 0 new) = tx_status ` set new"
    using arg_cong[OF with_default_ids_status, of set] by simp
  with pending have new: "tx_status t = PENDING" if "t \<in> set (with_default_ids fresh 0 new)" for t
    using that by (metis imageE imageI)
  from gen ks(1) have d': "accounts d' = accounts d" "movements d' = movements d"
    "transactions d' = transactions d @ ks" "unique_ok d'"
    by (auto simp: createGeneratedTransactions_def Let_def and_then_Inr_iff enforce_Inr)
  show ?thesis
  proof (rule db_ok_unposted[OF ok d'(1,2)])
    show "distinct_by tx_id (transactions d')" using d'(4) by (simp add: unique_ok_def)
    show "tx_total (transactions d') i = tx_total (transactions d) i" for i
    proof -
      from new ks(2) have "tx_total ks i = 0" by (intro tx_total_map_pending) blast
      then show ?thesis by (simp add: d'(3) ledger_simps)
    qed
  qed
qed

lemma recurring_ops_db_ok:
  assumes "db_ok d"
  shows "recurring_create uuid r d = Inr (d', r') \<Longrightarrow> db_ok d'"
    and "recurring_update r d = Inr d' \<Longrightarrow> db_ok d'"
    and "recurring_delete rid d = Inr d' \<Longrightarrow> db_ok d'"
  using db_ok_unposted[OF assms, of d'] assms
  by (auto simp: recurring_create_def insert_recurring_def recurring_update_def recurring_delete_def
      Let_def and_then_Inr_iff enforce_Inr db_okD)

section \<open>Reachable states\<close>

text \<open>
  \<open>repo_step\<close> is one committed transaction of a repository. A mutation handed to
  \<open>createWithBalanceUpdate\<close> satisfies the contract, one handed to
  \<open>updateWithBalanceEffect\<close> keeps the id, and generated transactions are pending;
  the services of theory Services are shown to call the repositories that way.
\<close>

inductive repo_step :: "db \<Rightarrow> db \<Rightarrow> bool" where
  open_account: "createWithOpeningMovement uuid acc actor d = Inr d' \<Longrightarrow> repo_step d d'"
| edit_account: "repo_step d (account_update acc d)"
| create_tx: "createWithBalanceUpdate uuid t f ctx d = Inr d' \<Longrightarrow> net_mutation (balanceEffects t) f
    \<Longrightarrow> repo_step d d'"
| create_plan: "createInstallmentPlan uuid r first ctx d = Inr d' \<Longrightarrow> repo_step d d'"
| update_tx: "updateWithBalanceEffect tid mutate ctx d = Inr (d', u) \<Longrightarrow>
    (\<And>t u. mutate t = Inr u \<Longrightarrow> tx_id u = tx_id t) \<Longrightarrow> repo_step d d'"
| delete_tx: "deleteWithBalanceEffect tid ctx d = Inr (d', b) \<Longrightarrow> repo_step d d'"
| set_status: "updateStatusWithBalanceEffect now params ctx d = Inr (d', u) \<Longrightarrow> repo_step d d'"
| generate: "createGeneratedTransactions fresh new r d = Inr (d', n) \<Longrightarrow>
    (\<And>t. t \<in> set new \<Longrightarrow> tx_status t = PENDING) \<Longrightarrow> repo_step d d'"
| create_rule: "recurring_create uuid r d = Inr (d', r') \<Longrightarrow> repo_step d d'"
| update_rule: "recurring_update r d = Inr d' \<Longrightarrow> repo_step d d'"
| delete_rule: "recurring_delete rid d = Inr d' \<Longrightarrow> repo_step d d'"

inductive_cases repo_stepE: "repo_step d d'"

definition empty_db :: db where
  "empty_db = \<lparr>accounts = [], transactions = [], recurrings = [], movements = []\<rparr>"

text \<open>States without and with removal of whole accounts.\<close>

inductive reachable :: "db \<Rightarrow> bool" where
  reach_init: "reachable empty_db"
| reach_step: "reachable d \<Longrightarrow> repo_step d d' \<Longrightarrow> reachable d'"

inductive reachable_removing :: "db \<Rightarrow> bool" where
  rr_init: "reachable_removing empty_db"
| rr_step: "reachable_removing d \<Longrightarrow> repo_step d d' \<Longrightarrow> reachable_removing d'"
| rr_remove: "reachable_removing d \<Longrightarrow> account_delete aid d = Inr d' \<Longrightarrow> reachable_removing d'"

section \<open>References\<close>

lemma references_ok_mono:
  assumes "references_ok d" "recurrings d' = recurrings d"
    and acc: "\<And>i. account_row_of d i \<noteq> None \<Longrightarrow> account_row_of d' i \<noteq> None"
    and tx: "\<And>t'. t' \<in> set (transactions d') \<Longrightarrow> \<exists>t\<in>set (transactions d). tx_accountId t' = tx_accountId t
        \<and> tx_destinationAccountId t' = tx_destinationAccountId t \<and> tx_recurringId t' = tx_recurringId t"
  shows "references_ok d'"
proof -
  have ref: "account_ref_ok d ref \<Longrightarrow> account_ref_ok d' ref" for ref
    using acc by (cases ref) (auto simp: account_ref_ok_def)
  have rec: "recurring_of d' rid = recurring_of d rid" for rid
    by (simp add: recurring_of_def assms(2))
  have "account_ref_ok d' (Some (tx_accountId t)) \<and> account_ref_ok d' (tx_destinationAccountId t)
      \<and> (case tx_recurringId t of None \<Rightarrow> True | Some rid \<Rightarrow> recurring_of d' rid \<noteq> None)"
    if "t \<in> set (transactions d')" for t
    using tx[OF that] assms(1) ref unfolding references_ok_def rec by fastforce
  moreover have "account_ref_ok d' (Some (rc_accountId r)) \<and> account_ref_ok d' (rc_destinationAccountId r)"
    if "r \<in> set (recurrings d')" for r
    using that assms(1,2) ref unfolding references_ok_def by auto
  ultimately show ?thesis unfolding references_ok_def by blast
qed

lemma posts_account_row: "posts x d d' \<Longrightarrow> account_row_of d' i = None \<longleftrightarrow> account_row_of d i = None"
  by (simp add: posts_def)

lemma writeBalanceDeltas_references:
  assumes w: "writeBalanceDeltas ds en d = Inr d'" and "references_ok d"
  shows "references_ok d'"
proof (rule references_ok_mono[OF assms(2)])
  show "account_row_of d' i \<noteq> None" if "account_row_of d i \<noteq> None" for i
    using that posts_account_row[OF writeBalanceDeltas_posts(1)[OF w]] by simp
qed (use writeBalanceDeltas_posts(2,3)[OF w] in auto)

lemma persist_references:
  assumes "persistWithBalanceUpdate uuid accts t f ctx d = Inr d'"
  shows "references_ok d'"
  using assms writeBalanceDeltas_references
  by (auto simp: persistWithBalanceUpdate_def and_then_Inr_iff insert_transaction_Inr Let_def)

lemma updateWithBalanceEffect_references:
  "updateWithBalanceEffect tid mutate ctx d = Inr (d', u) \<Longrightarrow> references_ok d'"
  by (auto simp: updateWithBalanceEffect_def update_transaction_row_def enforce_Inr and_then_Inr_iff
        split: option.splits)

lemma deleteWithBalanceEffect_references:
  assumes del: "deleteWithBalanceEffect tid ctx d = Inr (d', b)" and ok: "references_ok d"
  shows "references_ok d'"
proof -
  let ?d1 = "\<lambda>cur :: transaction. d\<lparr>transactions := delete_rows (\<lambda>t. tx_id t = tx_id cur) (transactions d)\<rparr>"
  from deleteWithBalanceEffect_cases[OF del] consider "d' = d" | cur ds
    where "writeBalanceDeltas ds (entry (tx_id cur) TRANSACTION_DELETED ctx) (?d1 cur) = Inr d'" by blast
  then show ?thesis
  proof cases
    case (2 cur ds)
    have "references_ok (?d1 cur)"
      by (rule references_ok_mono[OF ok]) (auto simp: delete_rows_def account_row_of_def)
    then show ?thesis by (rule writeBalanceDeltas_references[OF 2])
  qed (use ok in simp)
qed

lemma updateStatus_references:
  assumes up: "updateStatusWithBalanceEffect now params ctx d = Inr (d', u)" and ok: "references_ok d"
  shows "references_ok d'"
  using up
proof (rule updateStatus_Inr)
  fix row ids accts ds d1
  assume d1: "d1 = d\<lparr>transactions := update_rows (status_candidate params)
           (\<lambda>t. t\<lparr>tx_status := sp_status params, tx_updatedAt := Some now\<rparr>) (transactions d)\<rparr>"
    and w: "writeBalanceDeltas ds (entry (tx_id u) STATUS_CHANGED ctx) d1 = Inr d'"
  have "references_ok d1"
    by (rule references_ok_mono[OF ok]) (auto simp: d1 set_update_rows account_row_of_def)
  then show ?thesis by (rule writeBalanceDeltas_references[OF w])
qed

lemma opening_references:
  assumes c: "createWithOpeningMovement uuid acc actor d = Inr d'" and ok: "references_ok d"
  shows "references_ok d'" "transactions d' = transactions d"
proof -
  from c obtain a m where d': "d' = d\<lparr>accounts := accounts d @ [a], movements := movements d @ [m]\<rparr>"
    by (auto simp: createWithOpeningMovement_def insertOpeningMovement_def Let_def duplicate_key_def
        split: if_splits dest!: insert_movement_Inr)
  show "references_ok d'"
    by (rule references_ok_mono[OF ok]) (auto simp: d' account_row_of_def table_simps split: option.splits)
  show "transactions d' = transactions d" by (simp add: d')
qed

section \<open>Preservation\<close>

lemma tx_total_missing_account:
  assumes "references_ok d" "account_row_of d i = None"
  shows "tx_total (transactions d) i = 0"
proof -
  have "net_effect i (balanceEffects t) = 0" if t: "t \<in> set (transactions d)" for t
  proof -
    from assms t have "tx_accountId t \<noteq> i" "tx_destinationAccountId t \<noteq> Some i"
      by (auto simp: references_ok_def account_ref_ok_def)
    then show ?thesis
      by (cases "tx_destinationAccountId t")
         (auto simp: balanceEffects_def resolveBalanceEffects_def buildEffect_def Let_def
          account_simps falsy_def)
  qed
  moreover have "tx_total ts i = 0" if "\<forall>t\<in>set ts. net_effect i (balanceEffects t) = 0" for ts
    using that by (induction ts) (simp_all add: ledger_simps)
  ultimately show ?thesis by blast
qed

lemma createWithOpeningMovement_db_ok:
  assumes c: "createWithOpeningMovement uuid acc actor d = Inr d'" and ok: "db_ok d" and ref: "references_ok d"
  shows "db_ok d'"
proof -
  from ok have led: "ledger_ok d" by (simp add: db_ok_def)
  let ?aid = "ensureEntityId uuid (account_id acc)"
  let ?row = "account_toDatabase (map_base (\<lambda>p. p\<lparr>acc_id := ?aid\<rparr>) acc)"
  have id: "row_id ?row = ?aid" by (simp add: account_toDatabase_def account_simps)
  from c obtain m where fresh: "account_row_of d ?aid = None"
    and acc: "accounts d' = accounts d @ [?row]" and mov: "movements d' = movements d @ [m]"
    and m: "mv_accountId m = ?aid" "mv_delta m = row_balance ?row"
    and none: "\<forall>x\<in>set (movements_of d ?aid). mv_cause x \<noteq> OPENING"
    by (auto simp: createWithOpeningMovement_def insertOpeningMovement_def Let_def duplicate_key_def
        account_toDatabase_def movements_of_def account_simps split: if_splits dest!: insert_movement_Inr)
  have empty: "movements_of d ?aid = []"
    using opening_first_has[of "movements_of d ?aid"] ledger_ok_chain[OF led] none by blast
  note tx = opening_references(2)[OF c ref]
  have books: "books_ok d" using ok by (simp add: db_ok_def)
  have "books_ok d'" unfolding books_ok_def
  proof (intro allI impI)
    fix i r assume r: "account_row_of d' i = Some r"
    show "row_balance r = opening_balance d' i + row_direction r * tx_total (transactions d') i"
    proof (cases "account_row_of d i")
      case None
      with r have "i = ?aid" "r = ?row"
        using id by (auto simp: account_row_of_def acc table_simps split: if_splits)
      then show ?thesis
        using empty m tx_total_missing_account[OF ref fresh]
        by (simp add: opening_balance_def movements_of_snoc[OF mov] tx)
    next
      case (Some r0)
      with r have "r0 = r" by (simp add: account_row_of_def acc table_simps)
      moreover from Some fresh have "i \<noteq> ?aid" by auto
      ultimately show ?thesis
        using Some books m by (simp add: books_ok_def opening_balance_def movements_of_snoc[OF mov] tx)
    qed
  qed
  then show ?thesis
    using ok createWithOpeningMovement_ledger_ok[OF c led] by (simp add: db_ok_def tx)
qed

lemma repo_step_preserves:
  assumes "repo_step d d'" "db_ok d \<and> references_ok d"
  shows "db_ok d' \<and> references_ok d'"
  using assms
proof (induction rule: repo_step.induct)
  case (open_account uuid acc actor d d')
  then show ?case using createWithOpeningMovement_db_ok opening_references by blast
next
  case (edit_account d acc)
  let ?d = "account_update acc d"
  have row: "account_row_of ?d i = map_option
      (\<lambda>r. if i = account_id acc then account_toUpdatePayload acc r else r) (account_row_of d i)" for i
    by (cases "i = account_id acc")
       (simp_all add: account_row_of_def account_update_def table_simps account_simps option.map_ident)
  have dir: "row_direction (account_toUpdatePayload acc r) = row_direction r" for r
    by (cases acc) (simp_all add: row_direction_def)
  have "books_ok ?d" unfolding books_ok_def
  proof (intro allI impI)
    fix i r assume "account_row_of ?d i = Some r"
    then obtain r0 where r0: "account_row_of d i = Some r0"
      "r = (if i = account_id acc then account_toUpdatePayload acc r0 else r0)"
      by (auto simp: row)
    from edit_account r0(1) have "row_balance r0 = opening_balance d i + row_direction r0 * tx_total (transactions d) i"
      by (simp add: db_ok_def books_ok_def)
    then show "row_balance r = opening_balance ?d i + row_direction r * tx_total (transactions ?d) i"
      by (simp add: r0(2) account_simps dir opening_balance_def movements_of_def account_update_def)
  qed
  moreover have "references_ok ?d"
    by (rule references_ok_mono[of d]) (use edit_account row in \<open>auto simp: account_update_def\<close>)
  ultimately show ?case
    using edit_account account_update_ledger_ok by (auto simp: db_ok_def account_update_def)
next
  case (create_tx uuid t f ctx d d')
  then show ?case using createWithBalanceUpdate_db_ok
    by (auto simp: createWithBalanceUpdate_def and_then_Inr_iff dest: persist_references)
next
  case (create_plan uuid r first ctx d d')
  then show ?case using createInstallmentPlan_db_ok
    by (auto simp: createInstallmentPlan_def and_then_Inr_iff dest: persist_references)
next
  case (update_tx tid mutate ctx d d' u)
  then show ?case using updateWithBalanceEffect_db_ok updateWithBalanceEffect_references by blast
next
  case (delete_tx tid ctx d d' b)
  then show ?case using deleteWithBalanceEffect_db_ok deleteWithBalanceEffect_references by blast
next
  case (set_status now params ctx d d' u)
  then show ?case using updateStatusWithBalanceEffect_db_ok updateStatus_references by blast
next
  case (generate fresh new r d d' n)
  then show ?case using createGeneratedTransactions_db_ok[of fresh new r d d' n]
    by (auto simp: createGeneratedTransactions_def Let_def and_then_Inr_iff enforce_Inr)
next
  case (create_rule uuid r d d' r')
  then show ?case using recurring_ops_db_ok(1)[of d uuid r d' r']
    by (auto simp: recurring_create_def insert_recurring_def Let_def and_then_Inr_iff enforce_Inr)
next
  case (update_rule r d d')
  then show ?case using recurring_ops_db_ok(2)[of d r d'] by (auto simp: recurring_update_def enforce_Inr)
next
  case (delete_rule rid d d')
  then show ?case using recurring_ops_db_ok(3)[of d rid d'] by (auto simp: recurring_delete_def enforce_Inr)
qed

lemma empty_db_ok: "db_ok empty_db \<and> references_ok empty_db"
  by (simp add: db_ok_def ledger_ok_def empty_db_def distinct_by_def movements_of_def books_ok_def
      account_row_of_def find_row_def references_ok_def)

lemma reachable_ok: "reachable d \<Longrightarrow> db_ok d \<and> references_ok d"
  by (induction rule: reachable.induct) (use empty_db_ok repo_step_preserves in blast)+

end
