(* ===== verification/LedgerProperties.thy ===== *)
theory LedgerProperties
  imports Reconcile
begin

text \<open>
  The properties of the balance ledger: what holds of stored balances and of the
  audit trail in every state the repositories reach, and what the operations of
  TransactionRepository do to balances and to the patrimony of the accounts.
\<close>

section \<open>Reconciliation and the audit trail\<close>

text \<open>
  C1: in every state that the repository operations reach, removal of whole accounts
  included, the reconciliation job covers every account, reports no divergence and
  captures no error.
\<close>

theorem reconcile_finds_nothing:
  assumes "reachable_removing d"
  shows "reconcile d = (\<lparr>rs_accountsChecked = length (accounts d), rs_uncovered = 0, rs_divergences = []\<rparr>, [])"
  by (rule reconcile_clean[OF reachable_removing_ledger_ok[OF assms]])

theorem reconcile_finds_nothing_witness:
  "reconcile demo_db2 = (\<lparr>rs_accountsChecked = 2, rs_uncovered = 0, rs_divergences = []\<rparr>, [])"
  using reconcile_finds_nothing[OF reachable_removing_if_reachable[OF demo_reachable2]]
  by (simp add: demo_db2_def)


text \<open>
  C6: the audit trail replays: in every reachable state the \<open>balance_after\<close> of the
  n-th movement of an account is the sum of its deltas up to and including that one.
\<close>

theorem audit_trail_replays:
  assumes "reachable_removing d" "n < length (movements_of d aid)"
  shows "mv_balanceAfter (movements_of d aid ! n) = sum_list (take (Suc n) (db_log d aid))"
  using running_nth[of 0 "movements_of d aid" n] assms(2)
    ledger_ok_chain[OF reachable_removing_ledger_ok[OF assms(1)], of aid]
  by (simp add: take_map)

theorem audit_trail_replays_witness:
  "mv_balanceAfter (movements_of demo_db2 ''a'' ! 1) = sum_list (take 2 (db_log demo_db2 ''a''))"
  using audit_trail_replays[OF reachable_removing_if_reachable[OF demo_reachable2], of 1 "''a''"]
  by (simp add: movements_of_def demo_defs)

text \<open>
  C2: the stored balance of an account is its opening balance plus the effects of
  the transactions that are completed now, in the direction of its type, whatever
  history of creations, edits, deletions, status changes, settlements and
  generations led there.
\<close>

theorem balance_is_opening_plus_completed:
  assumes "reachable d" "account_row_of d aid = Some r"
  shows "row_balance r = opening_balance d aid + row_direction r * tx_total (transactions d) aid"
  using reachable_ok[OF assms(1)] assms(2) by (simp add: db_ok_def books_ok_def)

theorem balance_is_opening_plus_completed_witness:
  "row_balance ((account_toDatabase demo_checking)\<lparr>row_balance := 700\<rparr>)
     = opening_balance demo_db2 ''a'' + 1 * tx_total (transactions demo_db2) ''a''"
proof -
  have "account_row_of demo_db2 ''a'' = Some ((account_toDatabase demo_checking)\<lparr>row_balance := 700\<rparr>)"
    by (simp add: account_row_of_def find_row_def demo_defs account_toDatabase_def)
  from balance_is_opening_plus_completed[OF demo_reachable2 this] show ?thesis
    by (simp add: row_direction_def account_toDatabase_def demo_checking_def)
qed

section \<open>Undoing operations\<close>

lemma books_same_total:
  assumes ok: "db_ok d" "db_ok d'" and p: "posts x d d'"
    and tot: "tx_total (transactions d') i = tx_total (transactions d) i"
  shows "db_balance d' i = db_balance d i"
proof (cases "account_row_of d i")
  case None with p show ?thesis by (simp add: posts_def)
next
  case (Some r)
  with p have r': "account_row_of d' i = Some (r\<lparr>row_balance := row_balance r + x i\<rparr>)" by (simp add: posts_def)
  from p obtain ms where "movements_of d' i = movements_of d i @ ms" unfolding posts_def by blast
  moreover have "movements_of d i \<noteq> []" using ok(1) Some ledger_ok_account(2) by (simp add: db_ok_def)
  ultimately have "opening_balance d' i = opening_balance d i"
    by (cases "movements_of d i") (simp_all add: opening_balance_def)
  with ok Some r' tot show ?thesis by (simp add: db_ok_def books_ok_def row_direction_def)
qed

lemma updateStatus_posts:
  assumes "updateStatusWithBalanceEffect now params ctx d = Inr (d', u)"
  shows "\<exists>x. posts x d d'" and "transactions d' = update_rows (status_candidate params)
           (\<lambda>t. t\<lparr>tx_status := sp_status params, tx_updatedAt := Some now\<rparr>) (transactions d)"
proof -
  have "(\<exists>x. posts x d d') \<and> transactions d' = update_rows (status_candidate params)
           (\<lambda>t. t\<lparr>tx_status := sp_status params, tx_updatedAt := Some now\<rparr>) (transactions d)"
    using assms
  proof (rule updateStatus_Inr)
    fix row ids accts ds d1
    assume d1: "d1 = d\<lparr>transactions := update_rows (status_candidate params)
           (\<lambda>t. t\<lparr>tx_status := sp_status params, tx_updatedAt := Some now\<rparr>) (transactions d)\<rparr>"
      and w: "writeBalanceDeltas ds (entry (tx_id u) STATUS_CHANGED ctx) d1 = Inr d'"
    have "posts (\<lambda>i. sum_list (posted i ds)) d d'"
      using writeBalanceDeltas_posts(1)[OF w] posts_cong(1)[of d1 d] by (simp add: d1)
    with writeBalanceDeltas_posts(2)[OF w] show ?thesis by (auto simp: d1)
  qed
  then show "\<exists>x. posts x d d'" and "transactions d' = update_rows (status_candidate params)
           (\<lambda>t. t\<lparr>tx_status := sp_status params, tx_updatedAt := Some now\<rparr>) (transactions d)" by blast+
qed

lemma tx_total_map_same:
  "(\<And>t. t \<in> set ts \<Longrightarrow> balanceEffects (f t) = balanceEffects t) \<Longrightarrow> tx_total (map f ts) i = tx_total ts i"
  by (induction ts) (simp_all add: ledger_simps)

definition opposite :: "status_params \<Rightarrow> bool \<Rightarrow> status_params" where
  "opposite params sch = params\<lparr>sp_status := statusBefore (sp_status params), sp_scheduledSettlement := sch\<rparr>"

text \<open>
  C3: changing the status of a transaction and changing it back restores every
  stored balance, whether the first change was a settlement or a user's request.
\<close>

theorem status_change_round_trip:
  assumes "reachable d"
    and "updateStatusWithBalanceEffect now params ctx d = Inr (d1, u1)"
    and "updateStatusWithBalanceEffect now2 (opposite params sch) ctx2 d1 = Inr (d2, u2)"
  shows "db_balance d2 aid = db_balance d aid"
proof -
  have ok: "db_ok d" using reachable_ok[OF assms(1)] by simp
  note ok1 = updateStatusWithBalanceEffect_db_ok[OF assms(2) ok]
  note ok2 = updateStatusWithBalanceEffect_db_ok[OF assms(3) ok1]
  obtain x y where p: "posts x d d1" "posts y d1 d2"
    using updateStatus_posts(1)[OF assms(2)] updateStatus_posts(1)[OF assms(3)] by blast
  obtain row where row: "row \<in> set (transactions d)" "status_candidate params row"
    using assms(2) by (rule updateStatus_Inr)
  have other: "tx_status t \<noteq> sp_status params"
    if "t \<in> set (transactions d)" "tx_id t = sp_transactionId params" for t
    using row that db_okD(2)[OF ok]
    by (auto simp: status_candidate_def distinct_by_def distinct_map inj_on_def)
  define f where "f t = (if status_candidate params t
      then t\<lparr>tx_status := sp_status params, tx_updatedAt := Some now\<rparr> else t)" for t
  define g where "g t = (if status_candidate (opposite params sch) t
      then t\<lparr>tx_status := statusBefore (sp_status params), tx_updatedAt := Some now2\<rparr> else t)" for t
  have tx: "transactions d2 = map (\<lambda>t. g (f t)) (transactions d)"
    unfolding updateStatus_posts(2)[OF assms(3)] updateStatus_posts(2)[OF assms(2)]
    by (simp add: update_rows_def f_def g_def opposite_def comp_def)
  have ne: "statusBefore s \<noteq> s" for s by (cases s) simp_all
  have "balanceEffects (g (f t)) = balanceEffects t" if t: "t \<in> set (transactions d)" for t
  proof (cases "status_candidate params t")
    case True
    then have st: "statusBefore (sp_status params) = tx_status t"
      and ft: "f t = t\<lparr>tx_status := sp_status params, tx_updatedAt := Some now\<rparr>"
      and id: "tx_id t = sp_transactionId params" "tx_workspaceId t = sp_workspaceId params"
      by (simp_all add: statusBefore_other f_def status_candidate_def)
    from id st ne[of "sp_status params"] have "status_candidate (opposite params sch) (f t)"
      by (simp add: ft status_candidate_def opposite_def)
    then have "g (f t) = (f t)\<lparr>tx_status := tx_status t, tx_updatedAt := Some now2\<rparr>"
      by (simp add: g_def st)
    then show ?thesis by (simp add: ft balanceEffects_def resolveBalanceEffects_def buildEffect_def)
  next
    case False
    have "\<not> (tx_id t = sp_transactionId params \<and> tx_workspaceId t = sp_workspaceId params)"
      using False other[OF t] unfolding status_candidate_def by blast
    then have "\<not> status_candidate (opposite params sch) t"
      unfolding status_candidate_def opposite_def by (simp, blast)
    with False have "g (f t) = t" by (simp add: f_def g_def)
    then show ?thesis by simp
  qed
  then have "tx_total (transactions d2) aid = tx_total (transactions d) aid"
    unfolding tx by (rule tx_total_map_same)
  then show ?thesis by (rule books_same_total[OF ok ok2 posts_trans[OF p]])
qed

definition demo_params :: "TransactionStatus \<Rightarrow> status_params" where
  "demo_params s = \<lparr>sp_transactionId = ''t'', sp_workspaceId = ''w'', sp_status = s, sp_scheduledSettlement = False\<rparr>"

lemmas status_eval = updateStatusWithBalanceEffect_def status_candidate_def balanceEffectsFrom_def
  revertedBalanceEffects_def demo_params_def opposite_def resolveStatusTransitionConflict_def repo_eval

lemma demo_pending: "updateStatusWithBalanceEffect 5 (demo_params PENDING) demo_ctx demo_db2 =
    Inr (demo_db2\<lparr>accounts := accounts demo_db1,
       transactions := [demo_tx\<lparr>tx_status := PENDING, tx_updatedAt := Some 5\<rparr>],
       movements := movements demo_db2 @ [demo_movement ''a'' (Some ''t'') STATUS_CHANGED 300 1000]\<rparr>,
     demo_tx\<lparr>tx_status := PENDING, tx_updatedAt := Some 5\<rparr>)"
  by (simp add: status_eval demo_defs)

theorem status_change_round_trip_witness:
  "db_balance (demo_db2\<lparr>transactions := [demo_tx\<lparr>tx_status := COMPLETED, tx_updatedAt := Some 9\<rparr>],
       movements := movements demo_db2 @ [demo_movement ''a'' (Some ''t'') STATUS_CHANGED 300 1000,
                                          demo_movement ''a'' (Some ''t'') STATUS_CHANGED (-300) 700]\<rparr>) ''a''
   = db_balance demo_db2 ''a''"
proof (rule status_change_round_trip[OF demo_reachable2 demo_pending])
  show "updateStatusWithBalanceEffect 9 (opposite (demo_params PENDING) False) demo_ctx
      (demo_db2\<lparr>accounts := accounts demo_db1,
       transactions := [demo_tx\<lparr>tx_status := PENDING, tx_updatedAt := Some 5\<rparr>],
       movements := movements demo_db2 @ [demo_movement ''a'' (Some ''t'') STATUS_CHANGED 300 1000]\<rparr>)
    = Inr (demo_db2\<lparr>transactions := [demo_tx\<lparr>tx_status := COMPLETED, tx_updatedAt := Some 9\<rparr>],
       movements := movements demo_db2 @ [demo_movement ''a'' (Some ''t'') STATUS_CHANGED 300 1000,
                                          demo_movement ''a'' (Some ''t'') STATUS_CHANGED (-300) 700]\<rparr>,
      demo_tx\<lparr>tx_status := COMPLETED, tx_updatedAt := Some 9\<rparr>)"
    by (simp add: status_eval demo_defs)
qed

text \<open>
  C4: a status request is applied at most once: after one has succeeded, the same
  request is refused as already done, so the effect is never written twice.
\<close>

theorem status_request_applied_once:
  assumes "updateStatusWithBalanceEffect now params ctx d = Inr (d1, u)"
  shows "updateStatusWithBalanceEffect now2 params ctx2 d1 = left_tx
     (if sp_status params = COMPLETED then TransactionAlreadyCompletedError else TransactionAlreadyPendingError)"
proof -
  let ?g = "\<lambda>t. if status_candidate params t
      then t\<lparr>tx_status := sp_status params, tx_updatedAt := Some now\<rparr> else t"
  have tx: "transactions d1 = map ?g (transactions d)"
    using updateStatus_posts(2)[OF assms] by (simp add: update_rows_def)
  obtain row where row: "row \<in> set (transactions d)" "status_candidate params row"
    using assms by (rule updateStatus_Inr)
  have done1: "tx_status t = sp_status params" if "t \<in> set (transactions d1)"
    "tx_id t = sp_transactionId params" "tx_workspaceId t = sp_workspaceId params" for t
    using that unfolding tx by (auto simp: status_candidate_def split: if_splits)
  then have none: "find_row (status_candidate params) (transactions d1) = None"
    unfolding find_row_None_iff status_candidate_def by blast
  have "?g row \<in> set (transactions d1)" using row(1) unfolding tx by simp
  moreover have "tx_id (?g row) = sp_transactionId params \<and> tx_workspaceId (?g row) = sp_workspaceId params"
    using row(2) by (simp add: status_candidate_def)
  ultimately have "find_row (\<lambda>t. tx_id t = sp_transactionId params \<and> tx_workspaceId t = sp_workspaceId params)
      (transactions d1) \<noteq> None"
    unfolding find_row_None_iff by blast
  then obtain cur where cur: "find_row (\<lambda>t. tx_id t = sp_transactionId params
      \<and> tx_workspaceId t = sp_workspaceId params) (transactions d1) = Some cur" by blast
  with done1 find_row_SomeD[OF cur] have "tx_status cur = sp_status params" by blast
  with none cur show ?thesis
    by (simp add: updateStatusWithBalanceEffect_def resolveStatusTransitionConflict_def)
qed

theorem status_request_applied_once_witness:
  "updateStatusWithBalanceEffect 9 (demo_params PENDING) demo_ctx
     (demo_db2\<lparr>accounts := accounts demo_db1,
       transactions := [demo_tx\<lparr>tx_status := PENDING, tx_updatedAt := Some 5\<rparr>],
       movements := movements demo_db2 @ [demo_movement ''a'' (Some ''t'') STATUS_CHANGED 300 1000]\<rparr>)
   = left_tx TransactionAlreadyPendingError"
  using status_request_applied_once[OF demo_pending, of 9 demo_ctx] by (simp add: demo_params_def)

section \<open>Patrimony\<close>

text \<open>The net worth of the accounts: \<open>patrimonyContribution\<close> summed over the rows.\<close>

definition patrimony :: "db \<Rightarrow> int" where
  "patrimony d = sum_list (map (\<lambda>r. row_direction r * row_balance r) (accounts d))"

lemma distinct_mapI: "distinct (map f xs) \<Longrightarrow> distinct xs"
  by (simp add: distinct_map)

lemma patrimony_posts:
  assumes p: "posts x d d'" and dist: "distinct_by row_id (accounts d)" "distinct_by row_id (accounts d')"
  shows "patrimony d' = patrimony d + sum_list (map (\<lambda>r. row_direction r * x (row_id r)) (accounts d))"
proof -
  define f where "f r = r\<lparr>row_balance := row_balance r + x (row_id r)\<rparr>" for r :: account_row
  have row: "account_row_of e (row_id r) = Some r" if "r \<in> set (accounts e)" "distinct_by row_id (accounts e)" for e r
    using that find_row_key_Some_iff[of row_id "accounts e" "row_id r" r] by (simp add: account_row_of_def)
  have "set (accounts d') = f ` set (accounts d)"
  proof (intro equalityI subsetI)
    fix r assume r: "r \<in> set (accounts d')"
    from row[OF r dist(2)] p obtain q where q: "account_row_of d (row_id r) = Some q"
      "r = q\<lparr>row_balance := row_balance q + x (row_id r)\<rparr>" unfolding posts_def by auto
    from account_row_of_SomeD[OF q(1)] have "q \<in> set (accounts d)" "r = f q" using q(2) by (simp_all add: f_def)
    then show "r \<in> f ` set (accounts d)" by blast
  next
    fix r assume "r \<in> f ` set (accounts d)"
    then obtain q where q: "q \<in> set (accounts d)" "r = f q" by blast
    from row[OF q(1) dist(1)] p have "account_row_of d' (row_id q) = Some r"
      by (simp add: posts_def q(2) f_def)
    then show "r \<in> set (accounts d')" using account_row_of_SomeD by blast
  qed
  then have "set (accounts d') = set (map f (accounts d))" by simp
  moreover have "map row_id (map f (accounts d)) = map row_id (accounts d)" by (simp add: f_def)
  with dist have "distinct (map row_id (accounts d'))" "distinct (map row_id (map f (accounts d)))"
    unfolding distinct_by_def by metis+
  then have "distinct (accounts d')" "distinct (map f (accounts d))"
    using distinct_mapI by blast+
  ultimately have "mset (accounts d') = mset (map f (accounts d))"
    by (metis set_eq_iff_mset_eq_distinct)
  then have "patrimony d' = sum_list (map (\<lambda>r. row_direction r * row_balance r) (map f (accounts d)))"
  proof -
    let ?g = "\<lambda>r. row_direction r * row_balance r"
    assume "mset (accounts d') = mset (map f (accounts d))"
    then have "image_mset ?g (mset (accounts d')) = image_mset ?g (mset (map f (accounts d)))" by (rule arg_cong)
    then have "mset (map ?g (accounts d')) = mset (map ?g (map f (accounts d)))" by (simp only: mset_map)
    then have "sum_mset (mset (map ?g (accounts d'))) = sum_mset (mset (map ?g (map f (accounts d))))" by (rule arg_cong)
    then show ?thesis unfolding patrimony_def by (simp only: sum_mset_sum_list)
  qed
  also have "\<dots> = patrimony d + sum_list (map (\<lambda>r. row_direction r * x (row_id r)) (accounts d))"
  proof -
    have "sum_list (map (\<lambda>r. row_direction r * row_balance r) (map f rs)) =
        sum_list (map (\<lambda>r. row_direction r * row_balance r) rs)
        + sum_list (map (\<lambda>r. row_direction r * x (row_id r)) rs)" for rs
      by (induction rs) (simp_all add: f_def row_direction_def algebra_simps)
    then show ?thesis by (simp add: patrimony_def)
  qed
  finally show ?thesis .
qed

lemma sum_list_single:
  "distinct ids \<Longrightarrow> i \<in> set ids \<Longrightarrow> sum_list (map (\<lambda>j. if i = j then v else 0) ids) = (v :: int)"
proof (induction ids)
  case (Cons j ids)
  have "sum_list (map (\<lambda>j. if i = j then v else 0) ids) = 0" if "i \<notin> set ids" for ids
    using that by (induction ids) auto
  with Cons show ?case by auto
qed simp

lemma sum_net_effect:
  assumes "distinct ids" "\<And>e. e \<in> set es \<Longrightarrow> eff_accountId e \<in> set ids"
  shows "sum_list (map (\<lambda>i. net_effect i es) ids) = sum_list (map (\<lambda>e. kind_sign (eff_kind e) * eff_amount e) es)"
  using assms(2)
proof (induction es)
  case Nil then show ?case by (induction ids) (simp_all add: account_simps)
next
  case (Cons e es)
  have "sum_list (map (\<lambda>i. net_effect i (e # es)) ids)
      = sum_list (map (\<lambda>j. if eff_accountId e = j then kind_sign (eff_kind e) * eff_amount e else 0) ids)
        + sum_list (map (\<lambda>i. net_effect i es) ids)"
    by (simp add: account_simps sum_list_addf)
  with Cons sum_list_single[OF assms(1), of "eff_accountId e"] show ?case by simp
qed

text \<open>
  C5: double entry. Recording a transaction changes the net worth of the accounts by
  its amount when it is a completed income, by minus its amount when it is a
  completed expense, and not at all when it is pending or moves money between two
  accounts, the payment of a card invoice included.
\<close>

theorem recording_changes_patrimony:
  assumes "reachable d" "valid_transaction t" "net_mutation (balanceEffects t) f"
    and "createWithBalanceUpdate uuid t f ctx d = Inr d'"
  shows "patrimony d' = patrimony d + (if tx_status t = PENDING then 0
     else case tx_type t of INCOME \<Rightarrow> tx_amount t | EXPENSE \<Rightarrow> - tx_amount t | TRANSFER \<Rightarrow> 0)"
proof -
  have ok: "db_ok d" using reachable_ok[OF assms(1)] by simp
  note ok' = createWithBalanceUpdate_db_ok[OF assms(4,3) ok]
  from assms(4) obtain accts ds en ts where lock: "lockAccountsForWrite d t = Inr accts" and ds: "f accts = Inr ds"
    and w: "writeBalanceDeltas ds en (d\<lparr>transactions := ts\<rparr>) = Inr d'"
    by (auto simp: createWithBalanceUpdate_def persistWithBalanceUpdate_def and_then_Inr_iff
        insert_transaction_Inr Let_def)
  note lock' = lock[unfolded lockAccountsForWrite_def]
  have x: "row_direction r * sum_list (posted (row_id r) ds) = net_effect (row_id r) (balanceEffects t)"
    if "r \<in> set (accounts d)" for r
  proof -
    from find_row_key_Some_iff[OF db_okD(1)[OF ok], of "row_id r" r] that
    have "account_row_of d (row_id r) = Some r" by (simp add: account_row_of_def)
    from net_mutation_locked[OF assms(3) lock' ds db_okD(1)[OF ok] this] show ?thesis
      by (simp add: row_direction_def)
  qed
  have present: "eff_accountId e \<in> set (map row_id (accounts d))" if e: "e \<in> set (balanceEffects t)" for e
  proof (cases "map_of accts (eff_accountId e)")
    case None
    from net_mutationD(2)[OF assms(3) lockAccounts_keyed[OF lock'] ds None] e show ?thesis
      by (auto simp: effects_on_def filter_empty_conv)
  next
    case (Some a)
    from lockAccounts_Some[OF lock' Some db_okD(1)[OF ok]] account_row_of_SomeD show ?thesis
      by (metis image_eqI list.set_map)
  qed
  have "patrimony d' = patrimony d
      + sum_list (map (\<lambda>r. row_direction r * sum_list (posted (row_id r) ds)) (accounts d))"
    by (rule patrimony_posts) (use writeBalanceDeltas_posts(1)[OF w] posts_cong(1)[of "d\<lparr>transactions := ts\<rparr>" d] ok ok' db_okD in auto)
  also have "map (\<lambda>r. row_direction r * sum_list (posted (row_id r) ds)) (accounts d)
      = map (\<lambda>i. net_effect i (balanceEffects t)) (map row_id (accounts d))"
    using x by simp
  also have "sum_list \<dots> = sum_list (map (\<lambda>e. kind_sign (eff_kind e) * eff_amount e) (balanceEffects t))"
    using db_okD(1)[OF ok] present by (intro sum_net_effect) (simp add: distinct_by_def)
  also have "\<dots> = (if tx_status t = PENDING then 0
     else case tx_type t of INCOME \<Rightarrow> tx_amount t | EXPENSE \<Rightarrow> - tx_amount t | TRANSFER \<Rightarrow> 0)"
    using assms(2) by (cases "tx_status t"; cases "tx_type t")
      (simp_all add: balanceEffects_def resolveBalanceEffects_def buildEffect_def valid_transaction_def)
  finally show ?thesis .
qed

theorem recording_changes_patrimony_witness:
  "patrimony demo_db2 = patrimony demo_db1 - 300"
proof -
  have "valid_transaction demo_tx" by (simp add: valid_transaction_def demo_tx_def blank_def js_trim_def js_space_def)
  from recording_changes_patrimony[OF demo_reachable1 this net_mutation_applyBalanceEffects demo_steps(3)]
  show ?thesis by (simp add: demo_tx_def)
qed

end
