(* ===== verification/Calendar.thy ===== *)
theory Calendar
  imports Prelude
begin

text \<open>
  The proleptic Gregorian calendar of the ECMAScript \<open>Date\<close> object, as far as the
  code uses it: \<open>Date.UTC(y, m, d)\<close> with its overflow of months and days
  (\<open>MakeDay\<close>), \<open>getUTCFullYear/Month/Date\<close>, and \<open>daysInMonth\<close> of
  src/src/utils/calendarMonth.ts. A day is an integer, the days since 1970-01-01;
  months are 0-based in \<open>MakeDay\<close> as in JavaScript and 1-based in civil dates.
  \<open>Date.UTC\<close> reads years 0 to 99 as 19xx; the theorems are about years after 1000.
\<close>

section \<open>Days from civil dates\<close>

definition leap :: "int \<Rightarrow> bool" where
  "leap y = (y mod 4 = 0 \<and> (y mod 100 \<noteq> 0 \<or> y mod 400 = 0))"

definition dayFromYear :: "int \<Rightarrow> int" where
  "dayFromYear y = 365 * (y - 1970) + (y - 1969) div 4 - (y - 1901) div 100 + (y - 1601) div 400"

text \<open>Days of the year before (0-based) month \<open>m\<close>; 12 stands for the whole year.\<close>

definition daysBefore :: "bool \<Rightarrow> int \<Rightarrow> int" where
  "daysBefore l m = (if m \<le> 0 then 0 else
     [31, 59, 90, 120, 151, 181, 212, 243, 273, 304, 334, 365] ! nat (min m 12 - 1) + (if l \<and> m \<ge> 2 then 1 else 0))"

definition MakeDay :: "int \<Rightarrow> int \<Rightarrow> int \<Rightarrow> int" where
  "MakeDay y m d = (let ym = y + m div 12; mn = m mod 12
                    in dayFromYear ym + daysBefore (leap ym) mn + d - 1)"

section \<open>Civil dates from days\<close>

definition yearFromDay :: "int \<Rightarrow> int" where
  "yearFromDay n = (let y = 1970 + n * 400 div 146097 in
     if dayFromYear (y + 1) \<le> n then y + 1 else if n < dayFromYear y then y - 1 else y)"

definition monthFromDay :: "int \<Rightarrow> int" where
  "monthFromDay n = (let y = yearFromDay n; k = n - dayFromYear y in
     int (length (filter (\<lambda>m. daysBefore (leap y) m \<le> k) [1, 2, 3, 4, 5, 6, 7, 8, 9, 10, 11])))"

definition dateFromDay :: "int \<Rightarrow> int" where
  "dateFromDay n = (let y = yearFromDay n in n - dayFromYear y - daysBefore (leap y) (monthFromDay n) + 1)"

text \<open>\<open>daysInMonth(year, month) = new Date(Date.UTC(year, month, 0)).getUTCDate()\<close>, month 1-based.\<close>

definition daysInMonth :: "int \<Rightarrow> int \<Rightarrow> int" where
  "daysInMonth year month = dateFromDay (MakeDay year month 0)"

section \<open>Years\<close>

lemma div_step:
  fixes x k :: int
  assumes k: "0 < k"
  shows "(x + 1) div k = x div k + (if (x + 1) mod k = 0 then 1 else 0)"
proof -
  obtain q r where q: "x div k = q" and r: "x mod k = r" by blast
  have x: "x = k * q + r" using mult_div_mod_eq[of k x] unfolding q r by simp
  have b: "0 \<le> r" "r < k" using k pos_mod_bound[of k x] pos_mod_sign[of k x] unfolding r by auto
  show ?thesis
  proof (cases "r + 1 = k")
    case True
    then have e: "x + 1 = k * (q + 1) + 0" using x by (simp add: distrib_left)
    have "(x + 1) div k = q + 1" by (rule int_div_pos_eq[OF e]) (use k in auto)
    moreover have "(x + 1) mod k = 0" by (rule int_mod_pos_eq[OF e]) (use k in auto)
    ultimately show ?thesis unfolding q by simp
  next
    case False
    have e: "x + 1 = k * q + (r + 1)" using x by simp
    have "(x + 1) div k = q" by (rule int_div_pos_eq[OF e]) (use b False in auto)
    moreover have "(x + 1) mod k = r + 1" by (rule int_mod_pos_eq[OF e]) (use b False in auto)
    ultimately show ?thesis unfolding q using b by simp
  qed
qed

lemma div_shift:
  fixes x k z w :: int
  assumes "0 < k" "(x + 1) mod k = z mod k" "w = x + 1"
  shows "w div k = x div k + (if z mod k = 0 then 1 else 0)"
  unfolding assms(3) assms(2)[symmetric] by (rule div_step[OF assms(1)])

lemma dayFromYear_Suc: "dayFromYear (y + 1) = dayFromYear y + (if leap y then 366 else 365)"
proof -
  have m: "(y - 1969 + 1) mod 4 = y mod 4" "(y - 1901 + 1) mod 100 = y mod 100" "(y - 1601 + 1) mod 400 = y mod 400"
    using mod_mult_self2[of y 4 "-492"] mod_mult_self2[of y 100 "-19"] mod_mult_self2[of y 400 "-4"]
    by (simp_all add: algebra_simps)
  have d: "(y - 1968) div 4 = (y - 1969) div 4 + (if y mod 4 = 0 then 1 else 0)"
    "(y - 1900) div 100 = (y - 1901) div 100 + (if y mod 100 = 0 then 1 else 0)"
    "(y - 1600) div 400 = (y - 1601) div 400 + (if y mod 400 = 0 then 1 else 0)"
    by (rule div_shift[OF _ m(1)] div_shift[OF _ m(2)] div_shift[OF _ m(3)]; simp)+
  have c: "y mod 100 = 0 \<Longrightarrow> y mod 4 = 0" "y mod 400 = 0 \<Longrightarrow> y mod 100 = 0"
    unfolding dvd_eq_mod_eq_0[symmetric] by (erule dvd_trans[rotated], simp)+
  have e: "y + 1 - 1970 = y - 1970 + 1" "y + 1 - 1969 = y - 1968" "y + 1 - 1901 = y - 1900" "y + 1 - 1601 = y - 1600"
    by simp_all
  have "dayFromYear (y + 1) = dayFromYear y + 365 + (if y mod 4 = 0 then 1 else 0)
      - (if y mod 100 = 0 then 1 else 0) + (if y mod 400 = 0 then 1 else 0)"
    unfolding dayFromYear_def e d distrib_left by linarith
  also have "\<dots> = dayFromYear y + (if leap y then 366 else 365)"
    unfolding leap_def using c by (cases "y mod 4 = 0"; cases "y mod 100 = 0"; cases "y mod 400 = 0") simp_all
  finally show ?thesis .
qed

lemma dayFromYear_mono: "y \<le> z \<Longrightarrow> dayFromYear y \<le> dayFromYear z"
  by (induction z rule: int_ge_induct) (auto simp: dayFromYear_Suc)

lemma year_estimate:
  fixes y q4 q100 q400 r4 r100 r400 :: int
  assumes "y - 1969 = 4 * q4 + r4" "y - 1901 = 100 * q100 + r100" "y - 1601 = 400 * q400 + r400"
    and "0 \<le> r4" "r4 < 4" "0 \<le> r100" "r100 < 100" "0 \<le> r400" "r400 < 400"
  shows "146097 * (y - 1970) - 800 \<le> 400 * (365 * (y - 1970) + q4 - q100 + q400)"
    and "400 * (365 * (y - 1970) + q4 - q100 + q400) \<le> 146097 * (y - 1970) + 800"
proof -
  have "400 * q4 = 100 * y - 196900 - 100 * r4" "400 * q100 = 4 * y - 7604 - 4 * r100"
    "400 * q400 = y - 1601 - r400" using assms(1-3) by simp_all
  then show "146097 * (y - 1970) - 800 \<le> 400 * (365 * (y - 1970) + q4 - q100 + q400)"
    and "400 * (365 * (y - 1970) + q4 - q100 + q400) \<le> 146097 * (y - 1970) + 800"
    using assms(4-9) by (simp_all add: algebra_simps)
qed

lemma yearFromDay_bounds: "dayFromYear (yearFromDay n) \<le> n \<and> n < dayFromYear (yearFromDay n + 1)"
proof -
  obtain q r where q: "n * 400 div 146097 = q" and r: "n * 400 mod 146097 = r" by blast
  have n: "n * 400 = 146097 * q + r" using mult_div_mod_eq[of 146097 "n * 400"] unfolding q r by simp
  have b: "0 \<le> r" "r < 146097" unfolding r[symmetric] by simp_all
  have d4: "(y - 1969) = 4 * ((y - 1969) div 4) + (y - 1969) mod 4"
    and d100: "(y - 1901) = 100 * ((y - 1901) div 100) + (y - 1901) mod 100"
    and d400: "(y - 1601) = 400 * ((y - 1601) div 400) + (y - 1601) mod 400" for y :: int by simp_all
  have m: "0 \<le> (y - 1969) mod 4" "(y - 1969) mod 4 < 4" "0 \<le> (y - 1901) mod 100" "(y - 1901) mod 100 < 100"
    "0 \<le> (y - 1601) mod 400" "(y - 1601) mod 400 < 400" for y :: int by simp_all
  have lo: "400 * dayFromYear y \<ge> 146097 * (y - 1970) - 800" for y
    unfolding dayFromYear_def by (rule year_estimate(1)[OF d4 d100 d400 m])
  have hi: "400 * dayFromYear y \<le> 146097 * (y - 1970) + 800" for y
    unfolding dayFromYear_def by (rule year_estimate(2)[OF d4 d100 d400 m])
  have lower: "dayFromYear (1969 + q) \<le> n" using hi[of "1969 + q"] n b by simp
  have upper: "n < dayFromYear (1972 + q)" using lo[of "1972 + q"] n b by simp
  have y: "1970 + q + 1 = 1971 + q" "1970 + q - 1 = 1969 + q" "1971 + q + 1 = 1972 + q" "1969 + q + 1 = 1970 + q"
    by simp_all
  show ?thesis
  proof (cases "dayFromYear (1971 + q) \<le> n")
    case True then show ?thesis using upper unfolding yearFromDay_def Let_def q y by (simp add: y)
  next
    case False
    then show ?thesis using lower unfolding yearFromDay_def Let_def q y
      by (cases "n < dayFromYear (1970 + q)") (simp_all add: y)
  qed
qed

lemma yearFromDay_eq: "dayFromYear y \<le> n \<Longrightarrow> n < dayFromYear (y + 1) \<Longrightarrow> yearFromDay n = y"
  using yearFromDay_bounds[of n] dayFromYear_mono[of "y + 1" "yearFromDay n"]
    dayFromYear_mono[of "yearFromDay n + 1" y] by linarith

section \<open>Months and days\<close>

definition valid_civil :: "int \<Rightarrow> int \<Rightarrow> int \<Rightarrow> bool" where
  "valid_civil y m d = (1 \<le> m \<and> m \<le> 12 \<and> 1 \<le> d
     \<and> d \<le> daysBefore (leap y) m - daysBefore (leap y) (m - 1))"

lemma month_cases:
  assumes "1 \<le> m" "m \<le> (12::int)"
  obtains "m = 1" | "m = 2" | "m = 3" | "m = 4" | "m = 5" | "m = 6" | "m = 7" | "m = 8" | "m = 9"
    | "m = 10" | "m = 11" | "m = 12"
  using assms by atomize_elim presburger

lemma daysBefore_step: "daysBefore l m \<le> daysBefore l (m + 1)"
proof -
  consider "m < 0" | "m = 0" | "1 \<le> m" "m \<le> 12" | "12 < m" by linarith
  then show ?thesis
  proof cases
    case 3 then show ?thesis by (rule month_cases) (simp_all add: daysBefore_def)
  qed (simp_all add: daysBefore_def)
qed

lemma daysBefore_mono: "a \<le> b \<Longrightarrow> daysBefore l a \<le> daysBefore l b"
  by (induction b rule: int_ge_induct) (use daysBefore_step order_trans in blast)+

lemma daysBefore_ends [simp]: "daysBefore l 0 = 0" "daysBefore l 12 = (if l then 366 else 365)"
  by (simp_all add: daysBefore_def)

lemma month_index:
  assumes "0 \<le> k" "k < daysBefore l 12"
  shows "\<exists>m. 0 \<le> m \<and> m \<le> 11 \<and> int (length (filter (\<lambda>m. daysBefore l m \<le> k) [1, 2, 3, 4, 5, 6, 7, 8, 9, 10, 11])) = m
     \<and> daysBefore l m \<le> k \<and> k < daysBefore l (m + 1)"
proof (cases l)
  case True
  with assms have "k < 31 \<or> 31 \<le> k \<and> k < 60 \<or> 60 \<le> k \<and> k < 91 \<or> 91 \<le> k \<and> k < 121 \<or> 121 \<le> k \<and> k < 152
      \<or> 152 \<le> k \<and> k < 182 \<or> 182 \<le> k \<and> k < 213 \<or> 213 \<le> k \<and> k < 244 \<or> 244 \<le> k \<and> k < 274 \<or> 274 \<le> k \<and> k < 305
      \<or> 305 \<le> k \<and> k < 335 \<or> 335 \<le> k \<and> k < 366" by simp linarith
  with True assms show ?thesis by (elim disjE) (simp_all add: daysBefore_def)
next
  case False
  with assms have "k < 31 \<or> 31 \<le> k \<and> k < 59 \<or> 59 \<le> k \<and> k < 90 \<or> 90 \<le> k \<and> k < 120 \<or> 120 \<le> k \<and> k < 151
      \<or> 151 \<le> k \<and> k < 181 \<or> 181 \<le> k \<and> k < 212 \<or> 212 \<le> k \<and> k < 243 \<or> 243 \<le> k \<and> k < 273 \<or> 273 \<le> k \<and> k < 304
      \<or> 304 \<le> k \<and> k < 334 \<or> 334 \<le> k \<and> k < 365" by simp linarith
  with False assms show ?thesis by (elim disjE) (simp_all add: daysBefore_def)
qed

lemma MakeDay_simple: "0 \<le> m \<Longrightarrow> m \<le> 11 \<Longrightarrow> MakeDay y m d = dayFromYear y + daysBefore (leap y) m + d - 1"
  by (simp add: MakeDay_def Let_def)

lemma civil_valid: "valid_civil (yearFromDay n) (monthFromDay n + 1) (dateFromDay n)"
proof -
  let ?y = "yearFromDay n"
  have "0 \<le> n - dayFromYear ?y" "n - dayFromYear ?y < daysBefore (leap ?y) 12"
    using yearFromDay_bounds[of n] by (auto simp: dayFromYear_Suc)
  from month_index[OF this] show ?thesis
    by (auto simp: valid_civil_def monthFromDay_def dateFromDay_def Let_def)
qed

lemma MakeDay_civil [calendar_simps]: "MakeDay (yearFromDay n) (monthFromDay n) (dateFromDay n) = n"
proof -
  have "0 \<le> monthFromDay n" "monthFromDay n \<le> 11"
    using civil_valid[of n] by (auto simp: valid_civil_def)
  then show ?thesis by (simp add: MakeDay_simple dateFromDay_def Let_def)
qed

lemma MakeDay_year_bounds:
  assumes "valid_civil y m d"
  shows "dayFromYear y + daysBefore (leap y) (m - 1) \<le> MakeDay y (m - 1) d"
    and "MakeDay y (m - 1) d < dayFromYear y + daysBefore (leap y) m"
    and "MakeDay y (m - 1) d < dayFromYear (y + 1)"
  using assms daysBefore_mono[of m 12 "leap y"]
  by (auto simp: valid_civil_def MakeDay_simple dayFromYear_Suc)

lemma MakeDay_less:
  assumes "valid_civil y m d" "valid_civil y' m' d'"
    and "y < y' \<or> y = y' \<and> (m < m' \<or> m = m' \<and> d < d')"
  shows "MakeDay y (m - 1) d < MakeDay y' (m' - 1) d'"
proof -
  note b = MakeDay_year_bounds[OF assms(1)] MakeDay_year_bounds[OF assms(2)]
  consider "y < y'" | "y = y'" "m < m'" | "y = y'" "m = m'" "d < d'" using assms(3) by blast
  then show ?thesis
  proof cases
    case 1
    then have "dayFromYear (y + 1) \<le> dayFromYear y'" by (intro dayFromYear_mono) simp
    moreover have "0 \<le> daysBefore (leap y') (m' - 1)"
      using daysBefore_mono[of 0 "m' - 1" "leap y'"] assms(2) by (simp add: valid_civil_def)
    ultimately show ?thesis using b by linarith
  next
    case 2
    then have "daysBefore (leap y) m \<le> daysBefore (leap y') (m' - 1)" by (simp add: daysBefore_mono)
    then show ?thesis using b unfolding 2(1) by linarith
  next
    case 3 then show ?thesis using assms(1) by (simp add: valid_civil_def MakeDay_simple)
  qed
qed

lemma civil_unique:
  assumes "valid_civil y m d" "valid_civil y' m' d'" "MakeDay y (m - 1) d = MakeDay y' (m' - 1) d'"
  shows "y = y' \<and> m = m' \<and> d = d'"
  using MakeDay_less[OF assms(1,2)] MakeDay_less[OF assms(2,1)] assms(3) by linarith

lemma civil_MakeDay:
  assumes "valid_civil y m d"
  shows "yearFromDay (MakeDay y (m - 1) d) = y" "monthFromDay (MakeDay y (m - 1) d) = m - 1"
    "dateFromDay (MakeDay y (m - 1) d) = d"
proof -
  let ?n = "MakeDay y (m - 1) d"
  have "MakeDay (yearFromDay ?n) (monthFromDay ?n + 1 - 1) (dateFromDay ?n) = MakeDay y (m - 1) d"
    by (simp add: MakeDay_civil)
  from civil_unique[OF civil_valid assms this] show "yearFromDay ?n = y" "monthFromDay ?n = m - 1"
    "dateFromDay ?n = d" by auto
qed

text \<open>The order of days is the lexicographic order of their civil dates.\<close>

definition civil_less :: "int \<times> int \<times> int \<Rightarrow> int \<times> int \<times> int \<Rightarrow> bool" where
  "civil_less a b = (case a of (y, m, d) \<Rightarrow> case b of (y', m', d') \<Rightarrow>
     y < y' \<or> y = y' \<and> (m < m' \<or> m = m' \<and> d < d'))"

definition civil_of :: "int \<Rightarrow> int \<times> int \<times> int" where
  "civil_of n = (yearFromDay n, monthFromDay n + 1, dateFromDay n)"

lemma civil_less_iff: "civil_less (civil_of a) (civil_of b) \<longleftrightarrow> a < b"
proof -
  have "civil_less (civil_of a) (civil_of b) \<Longrightarrow> a < b" for a b
    using MakeDay_less[OF civil_valid civil_valid, of a b]
    by (simp add: civil_less_def civil_of_def MakeDay_civil)
  moreover have "civil_less (civil_of a) (civil_of b) \<or> a = b \<or> civil_less (civil_of b) (civil_of a)"
  proof -
    have "civil_of a = civil_of b \<Longrightarrow> a = b"
      by (metis MakeDay_civil civil_of_def prod.inject add_right_cancel)
    moreover have "yearFromDay a < yearFromDay b \<or> yearFromDay a = yearFromDay b \<or> yearFromDay b < yearFromDay a"
      "monthFromDay a < monthFromDay b \<or> monthFromDay a = monthFromDay b \<or> monthFromDay b < monthFromDay a"
      "dateFromDay a < dateFromDay b \<or> dateFromDay a = dateFromDay b \<or> dateFromDay b < dateFromDay a"
      by linarith+
    ultimately show ?thesis by (auto simp: civil_less_def civil_of_def)
  qed
  ultimately show ?thesis by (metis less_asym less_irrefl)
qed

lemma daysInMonth_eq:
  assumes "1 \<le> m" "m \<le> 12"
  shows "daysInMonth y m = daysBefore (leap y) m - daysBefore (leap y) (m - 1)"
proof -
  let ?len = "daysBefore (leap y) m - daysBefore (leap y) (m - 1)"
  have len: "1 \<le> ?len" using assms by (rule month_cases) (simp_all add: daysBefore_def)
  have v: "valid_civil y m ?len" using assms len by (simp add: valid_civil_def)
  have "MakeDay y m 0 = MakeDay y (m - 1) ?len"
    using assms by (cases "m = 12") (simp_all add: MakeDay_simple MakeDay_def Let_def dayFromYear_Suc)
  then show ?thesis using civil_MakeDay(3)[OF v] by (simp add: daysInMonth_def)
qed

lemma MakeDay_add: "MakeDay y m (d + k) = MakeDay y m d + k"
  by (simp add: MakeDay_def Let_def)

end
