(* ===== verification/PlainDate.thy ===== *)
theory PlainDate
  imports Calendar "HOL-Library.List_Lexorder" "HOL-Library.Char_ord"
begin

text \<open>
  The \<open>PlainDate\<close> and \<open>InvoiceKey\<close> strings of
  src/src/modules/account/valueObjects/InvoiceCalendar.ts and the helpers that
  print, parse, shift and compare them. \<open>String(n)\<close>, \<open>padStart(2, '0')\<close>,
  \<open>split('-')\<close> and \<open>Number(s)\<close> are written out on character lists; comparing two
  strings with \<open><\<close> is the lexicographic order of their code units. The second half
  proves that on years 1000 to 9999 these strings are the days of theory Calendar:
  printing is injective, parsing inverts it, and string order is day order.
\<close>

section \<open>Printing and parsing numbers\<close>

definition digit :: "nat \<Rightarrow> char" where
  "digit n = char_of (48 + n)"

fun show_nat :: "nat \<Rightarrow> string" where
  "show_nat n = (if n < 10 then [digit n] else show_nat (n div 10) @ [digit (n mod 10)])"

declare show_nat.simps [simp del]

definition js_string :: "int \<Rightarrow> string" where
  "js_string n = (if n < 0 then CHR ''-'' # show_nat (nat (- n)) else show_nat (nat n))"

definition pad :: "int \<Rightarrow> string" where
  "pad value = (let s = js_string value in replicate (2 - length s) CHR ''0'' @ s)"

fun split_dash :: "string \<Rightarrow> string list" where
  "split_dash [] = [[]]"
| "split_dash (c # cs) = (if c = CHR ''-'' then [] # split_dash cs
     else case split_dash cs of [] \<Rightarrow> [[c]] | w # ws \<Rightarrow> (c # w) # ws)"

text \<open>\<open>Number(s)\<close> for a string of digits.\<close>

definition js_number :: "string \<Rightarrow> int" where
  "js_number s = foldl (\<lambda>a c. a * 10 + (int (of_char c) - 48)) 0 s"

section \<open>Dates and keys\<close>

type_synonym PlainDate = string
type_synonym InvoiceKey = string

definition toPlainDate :: "int \<Rightarrow> int \<Rightarrow> int \<Rightarrow> PlainDate" where
  "toPlainDate year month day = js_string year @ ''-'' @ pad month @ ''-'' @ pad day"

text \<open>Components that are missing would be \<open>NaN\<close>; the dates here always have three.\<close>

definition parseDate :: "PlainDate \<Rightarrow> int \<times> int \<times> int" where
  "parseDate date = (case split_dash date of
      y # m # d # _ \<Rightarrow> (js_number y, js_number m, js_number d) | _ \<Rightarrow> (0, 0, 0))"

definition parseKey :: "InvoiceKey \<Rightarrow> int \<times> int" where
  "parseKey key = (case split_dash key of y # m # _ \<Rightarrow> (js_number y, js_number m) | _ \<Rightarrow> (0, 0))"

definition shiftMonth :: "int \<Rightarrow> int \<Rightarrow> int \<Rightarrow> int \<times> int" where
  "shiftMonth year month delta =
     (let index = year * 12 + (month - 1) + delta in (index div 12, index mod 12 + 1))"

definition addDays :: "PlainDate \<Rightarrow> int \<Rightarrow> PlainDate" where
  "addDays date days = (case parseDate date of (year, month, day) \<Rightarrow>
     let next = MakeDay year (month - 1) (day + days) in
     toPlainDate (yearFromDay next) (monthFromDay next + 1) (dateFromDay next))"

definition keyOf :: "int \<Rightarrow> int \<Rightarrow> InvoiceKey" where
  "keyOf year month = js_string year @ ''-'' @ pad month"

section \<open>Digits\<close>

definition digits :: "string \<Rightarrow> bool" where
  "digits s = (\<forall>c\<in>set s. 48 \<le> int (of_char c) \<and> int (of_char c) \<le> 57)"

lemma of_char_digit [simp]: "n < 10 \<Longrightarrow> of_char (digit n) = 48 + n"
  by (simp add: digit_def)

lemma digits_simps [simp]:
  "digits []" "digits (c # s) \<longleftrightarrow> 48 \<le> int (of_char c) \<and> int (of_char c) \<le> 57 \<and> digits s"
  "digits (s @ t) \<longleftrightarrow> digits s \<and> digits t"
  by (auto simp: digits_def)

lemma digits_show_nat: "digits (show_nat n)"
  by (induction n rule: show_nat.induct) (subst show_nat.simps, auto)

lemma js_number_snoc: "js_number (s @ [c]) = js_number s * 10 + (int (of_char c) - 48)"
  by (simp add: js_number_def)

lemma js_number_show_nat: "js_number (show_nat n) = int n"
proof (induction n rule: show_nat.induct)
  case (1 n)
  then show ?case
    by (subst show_nat.simps) (auto simp: js_number_snoc js_number_def[of "[_]"] zdiv_int zmod_int)
qed

lemma length_show_nat: "n < 10 ^ Suc k \<Longrightarrow> length (show_nat n) \<le> Suc k"
proof (induction k arbitrary: n)
  case 0 then show ?case by (subst show_nat.simps) simp
next
  case (Suc k)
  have "n div 10 < 10 ^ Suc k" using Suc.prems by (simp add: div_less_iff_less_mult)
  from Suc.IH[OF this] show ?case by (subst show_nat.simps) simp
qed

lemma length_show_nat_ge: "10 ^ k \<le> n \<Longrightarrow> Suc k \<le> length (show_nat n)"
proof (induction k arbitrary: n)
  case 0 then show ?case by (subst show_nat.simps) auto
next
  case (Suc k)
  have "10 \<le> n" using Suc.prems by (metis (no_types) le_trans one_le_power power_Suc mult.right_neutral
      mult_le_mono2 one_le_numeral)
  moreover have "10 ^ k \<le> n div 10" using Suc.prems by (simp add: less_eq_div_iff_mult_less_eq mult.commute)
  from Suc.IH[OF this] calculation show ?case by (subst show_nat.simps) simp
qed

lemma js_string_year:
  assumes "1000 \<le> y" "y \<le> 9999"
  shows "length (js_string y) = 4" "digits (js_string y)" "js_number (js_string y) = y"
proof -
  have y: "js_string y = show_nat (nat y)" using assms by (simp add: js_string_def)
  have "10 ^ 3 \<le> nat y" "nat y < 10 ^ Suc 3" using assms by simp_all
  from length_show_nat_ge[OF this(1)] length_show_nat[OF this(2)]
  show "length (js_string y) = 4" "digits (js_string y)" "js_number (js_string y) = y"
    using assms by (simp_all add: y digits_show_nat js_number_show_nat)
qed

lemma pad_two:
  assumes "0 \<le> v" "v \<le> 99"
  shows "length (pad v) = 2" "digits (pad v)" "js_number (pad v) = v"
proof -
  have v: "js_string v = show_nat (nat v)" using assms by (simp add: js_string_def)
  consider "v < 10" | "10 \<le> v" by linarith
  then have "length (pad v) = 2 \<and> digits (pad v) \<and> js_number (pad v) = v"
  proof cases
    case 1
    then have "nat v < 10" using assms by simp
    then have "show_nat (nat v) = [digit (nat v)]" by (subst show_nat.simps) simp
    with 1 assms show ?thesis by (simp add: pad_def v js_number_def)
  next
    case 2
    have "10 ^ 1 \<le> nat v" "nat v < 10 ^ Suc 1" using 2 assms by simp_all
    from length_show_nat_ge[OF this(1)] length_show_nat[OF this(2)] have "length (show_nat (nat v)) = 2" by simp
    with assms show ?thesis by (simp add: pad_def v digits_show_nat js_number_show_nat)
  qed
  then show "length (pad v) = 2" "digits (pad v)" "js_number (pad v) = v" by auto
qed

section \<open>String order is numeric order\<close>

lemma js_number_Cons: "js_number (c # s) = (int (of_char c) - 48) * 10 ^ length s + js_number s"
proof (induction s rule: rev_induct)
  case (snoc d s)
  have "js_number (c # s @ [d]) = js_number (c # s) * 10 + (int (of_char d) - 48)"
    using js_number_snoc[of "c # s" d] by simp
  with snoc show ?case by (simp add: js_number_snoc algebra_simps)
qed (simp add: js_number_def)

lemma js_number_bounds: "digits s \<Longrightarrow> 0 \<le> js_number s \<and> js_number s < 10 ^ length s"
proof (induction s)
  case (Cons c s)
  define x where "x = int (of_char c) - 48"
  have "0 \<le> x" "x \<le> 9" using Cons.prems by (simp_all add: x_def)
  then have b: "0 \<le> x * 10 ^ length s" "x * 10 ^ length s \<le> 9 * 10 ^ length s" by (simp_all add: mult_right_mono)
  from Cons have "0 \<le> js_number s" "js_number s < 10 ^ length s" by simp_all
  with b show ?case unfolding js_number_Cons x_def[symmetric] length_Cons power_Suc by linarith
qed (simp add: js_number_def)

lemma char_less_iff: "(a :: char) < b \<longleftrightarrow> int (of_char a) < int (of_char b)"
  by (simp add: less_char_def)

lemma digits_less_iff:
  "length s = length t \<Longrightarrow> digits s \<Longrightarrow> digits t \<Longrightarrow> s < t \<longleftrightarrow> js_number s < js_number t"
proof (induction s t rule: list_induct2)
  case (Cons a s b t)
  define x y where "x = int (of_char a) - 48" and "y = int (of_char b) - 48"
  have x: "0 \<le> x" "0 \<le> y" and d: "digits s" "digits t" using Cons.prems by (simp_all add: x_def y_def)
  have ab: "a < b \<longleftrightarrow> x < y" by (simp add: char_less_iff x_def y_def)
  have eq: "x = y \<longleftrightarrow> a = b" by (simp add: x_def y_def)
  let ?p = "10 ^ length t :: int"
  have n: "js_number (a # s) = x * ?p + js_number s" "js_number (b # t) = y * ?p + js_number t"
    using Cons.hyps by (simp_all add: js_number_Cons x_def y_def)
  have bs: "0 \<le> js_number s" "js_number s < ?p" "0 \<le> js_number t" "js_number t < ?p"
    using js_number_bounds[OF d(1)] js_number_bounds[OF d(2)] Cons.hyps by simp_all
  consider "x < y" | "x = y" | "y < x" by linarith
  then show ?case
  proof cases
    case 1
    then have "(x + 1) * ?p \<le> y * ?p" by (intro mult_right_mono) simp_all
    then have "js_number (a # s) < js_number (b # t)" using bs unfolding n distrib_right by linarith
    then show ?thesis using 1 ab by simp
  next
    case 2
    then have "js_number (a # s) < js_number (b # t) \<longleftrightarrow> js_number s < js_number t" unfolding n by simp
    then show ?thesis using 2 Cons.IH[OF d] eq by simp
  next
    case 3
    then have "(y + 1) * ?p \<le> x * ?p" by (intro mult_right_mono) simp_all
    then have "\<not> js_number (a # s) < js_number (b # t)" using bs unfolding n distrib_right by linarith
    moreover have "\<not> a < b" "a \<noteq> b" using 3 ab eq by simp_all
    ultimately show ?thesis by simp
  qed
qed simp

lemma append_less_iff:
  "length s = length t \<Longrightarrow> s @ u < t @ v \<longleftrightarrow> s < t \<or> s = t \<and> u < v" for s t :: string
  by (induction s t rule: list_induct2) auto

lemma digits_eq_iff:
  "length s = length t \<Longrightarrow> digits s \<Longrightarrow> digits t \<Longrightarrow> s = t \<longleftrightarrow> js_number s = js_number t"
  using digits_less_iff[of s t] digits_less_iff[of t s] by (metis less_irrefl linorder_neqE)

definition printable :: "int \<Rightarrow> int \<Rightarrow> int \<Rightarrow> bool" where
  "printable y m d = (1000 \<le> y \<and> y \<le> 9999 \<and> 0 \<le> m \<and> m \<le> 99 \<and> 0 \<le> d \<and> d \<le> 99)"

lemma toPlainDate_less_iff:
  assumes "printable y m d" "printable y' m' d'"
  shows "toPlainDate y m d < toPlainDate y' m' d' \<longleftrightarrow> civil_less (y, m, d) (y', m', d')"
proof -
  note Y = js_string_year[of y] js_string_year[of y']
  note P = pad_two[of m] pad_two[of m'] pad_two[of d] pad_two[of d']
  show ?thesis
    using assms Y P unfolding toPlainDate_def printable_def civil_less_def
    by (auto simp: append_less_iff digits_less_iff digits_eq_iff)
qed

lemma split_dash_digits: "digits s \<Longrightarrow> split_dash s = [s]"
  by (induction s) auto

lemma split_dash_append: "digits s \<Longrightarrow> split_dash (s @ CHR ''-'' # t) = s # split_dash t"
  by (induction s) auto

lemma parse_toPlainDate:
  assumes "printable y m d"
  shows "parseDate (toPlainDate y m d) = (y, m, d)"
  using assms js_string_year[of y] pad_two[of m] pad_two[of d]
  by (simp add: parseDate_def toPlainDate_def printable_def split_dash_append split_dash_digits)

lemma parse_keyOf:
  assumes "1000 \<le> y" "y \<le> 9999" "0 \<le> m" "m \<le> 99"
  shows "parseKey (keyOf y m) = (y, m)"
  using assms js_string_year[of y] pad_two[of m]
  by (simp add: parseKey_def keyOf_def split_dash_append split_dash_digits)

section \<open>Printed days\<close>

definition plain :: "int \<Rightarrow> PlainDate" where
  "plain n = toPlainDate (yearFromDay n) (monthFromDay n + 1) (dateFromDay n)"

definition in_range :: "int \<Rightarrow> bool" where
  "in_range n = (1000 \<le> yearFromDay n \<and> yearFromDay n \<le> 9999)"

lemma month_length: "1 \<le> m \<Longrightarrow> m \<le> 12 \<Longrightarrow> daysBefore l m - daysBefore l (m - 1) \<le> 31
    \<and> 28 \<le> daysBefore l m - daysBefore l (m - 1)"
  by (erule (1) month_cases) (simp_all add: daysBefore_def)

lemma valid_civil_bounds: "valid_civil y m d \<Longrightarrow> 1 \<le> m \<and> m \<le> 12 \<and> 1 \<le> d \<and> d \<le> 31"
  using month_length[of m "leap y"] by (auto simp: valid_civil_def)

lemma in_range_printable: "in_range n \<Longrightarrow> printable (yearFromDay n) (monthFromDay n + 1) (dateFromDay n)"
  using valid_civil_bounds[OF civil_valid[of n]] by (simp add: in_range_def printable_def)

lemma plain_less_iff: "in_range a \<Longrightarrow> in_range b \<Longrightarrow> plain a < plain b \<longleftrightarrow> a < b"
  using toPlainDate_less_iff[OF in_range_printable in_range_printable, of a b] civil_less_iff[of a b]
  by (simp add: plain_def civil_of_def)

lemma plain_le_iff: "in_range a \<Longrightarrow> in_range b \<Longrightarrow> plain a \<le> plain b \<longleftrightarrow> a \<le> b"
  using plain_less_iff[of b a] by (simp add: not_less[symmetric])

lemma plain_eq_iff: "in_range a \<Longrightarrow> in_range b \<Longrightarrow> plain a = plain b \<longleftrightarrow> a = b"
  using plain_le_iff[of a b] plain_le_iff[of b a] by (metis order_antisym order_refl)

lemma plain_MakeDay: "valid_civil y m d \<Longrightarrow> plain (MakeDay y (m - 1) d) = toPlainDate y m d"
  by (simp add: plain_def civil_MakeDay)

lemma parse_plain: "in_range n \<Longrightarrow> parseDate (plain n) = civil_of n"
  unfolding plain_def by (simp add: parse_toPlainDate[OF in_range_printable] civil_of_def)

lemma addDays_plain: "in_range n \<Longrightarrow> addDays (plain n) k = plain (n + k)"
  unfolding addDays_def parse_plain civil_of_def by (simp add: MakeDay_add MakeDay_civil plain_def Let_def)

lemma in_range_between:
  assumes "in_range a" "in_range b" "a \<le> n" "n \<le> b" shows "in_range n"
proof -
  have mono: "yearFromDay x \<le> yearFromDay y" if "x \<le> y" for x y
    using that yearFromDay_bounds[of x] yearFromDay_bounds[of y]
      dayFromYear_mono[of "yearFromDay y + 1" "yearFromDay x"] by linarith
  from mono[OF assms(3)] mono[OF assms(4)] assms(1,2) show ?thesis by (simp add: in_range_def)
qed

end
