(* ===== verification/Invoice.thy ===== *)
theory Invoice
  imports PlainDate TransactionRepo
begin

text \<open>
  Card invoices: \<open>InvoiceCalendar\<close>, \<open>allocateInvoice\<close> and \<open>buildInvoiceStatement\<close>
  of src/src/modules/account/valueObjects and the handler
  src/src/modules/account/features/get-credit-card-invoice/get-credit-card-invoice.handler.ts.
  All dates are the strings the code computes with; the theorems go through the
  refinement of theory PlainDate to day numbers, where invoice \<open>i\<close> (months counted
  from year 0) is the interval after the closing day of \<open>i - 1\<close> up to its own.
\<close>

section \<open>InvoiceCalendar\<close>

record cycle =
  cy_dueDay :: int
  cy_closingDaysBeforeDue :: int

record invoice_bounds =
  ib_key :: InvoiceKey
  ib_periodStart :: PlainDate
  ib_endExclusive :: PlainDate
  ib_periodEnd :: PlainDate
  ib_dueDate :: PlainDate

definition valid_cycle :: "cycle \<Rightarrow> bool" where
  "valid_cycle c = (isValidDueDay (Some (cy_dueDay c)) \<and> isValidClosingDaysBeforeDue (Some (cy_closingDaysBeforeDue c)))"

text \<open>The constructor throws; a card of the database that is not valid never gets a calendar.\<close>

definition InvoiceCalendar_new :: "cycle \<Rightarrow> cycle either" where
  "InvoiceCalendar_new c =
     (if \<not> isValidDueDay (Some (cy_dueDay c))
      then left_account (ValidationAccountError ''O dia de vencimento e invalido.'')
      else if \<not> isValidClosingDaysBeforeDue (Some (cy_closingDaysBeforeDue c))
      then left_account (ValidationAccountError ''A distancia entre fechamento e vencimento e invalida.'')
      else Inr c)"

definition dueOf :: "cycle \<Rightarrow> int \<Rightarrow> int \<Rightarrow> PlainDate" where
  "dueOf c year month = toPlainDate year month (min (cy_dueDay c) (daysInMonth year month))"

definition closingOf :: "cycle \<Rightarrow> PlainDate \<Rightarrow> PlainDate" where
  "closingOf c due = addDays due (- cy_closingDaysBeforeDue c)"

definition keyFromDue :: "PlainDate \<Rightarrow> InvoiceKey" where
  "keyFromDue due = (case parseDate due of (year, month, _) \<Rightarrow> keyOf year month)"

definition invoiceKeyFor :: "cycle \<Rightarrow> PlainDate \<Rightarrow> InvoiceKey" where
  "invoiceKeyFor c date =
     (let threshold = addDays date (cy_closingDaysBeforeDue c) in
      case parseDate threshold of (year, month, _) \<Rightarrow>
        let sameMonthDue = dueOf c year month in
        if sameMonthDue \<ge> threshold then keyFromDue sameMonthDue
        else case shiftMonth year month 1 of (y, m) \<Rightarrow> keyFromDue (dueOf c y m))"

definition previousKey :: "InvoiceKey \<Rightarrow> InvoiceKey" where
  "previousKey key = (case parseKey key of (year, month) \<Rightarrow>
     case shiftMonth year month (-1) of (y, m) \<Rightarrow> keyOf y m)"

definition bounds :: "cycle \<Rightarrow> InvoiceKey \<Rightarrow> invoice_bounds" where
  "bounds c key = (case parseKey key of (year, month) \<Rightarrow>
     let dueDate = dueOf c year month in
     case shiftMonth year month (-1) of (py, pm) \<Rightarrow>
       let previousClosing = closingOf c (dueOf c py pm);
           closing = closingOf c dueDate
       in \<lparr>ib_key = key, ib_periodStart = addDays previousClosing 1, ib_endExclusive = addDays closing 1,
           ib_periodEnd = closing, ib_dueDate = dueDate\<rparr>)"

section \<open>Allocation of a payment\<close>

definition allocateInvoice :: "cycle \<Rightarrow> PlainDate \<Rightarrow> InvoiceKey option \<Rightarrow> InvoiceKey" where
  "allocateInvoice c paymentDate explicitTarget =
     (if \<not> falsy explicitTarget then the explicitTarget
      else let containingKey = invoiceKeyFor c paymentDate in
           if ib_periodEnd (bounds c containingKey) = paymentDate then containingKey
           else previousKey containingKey)"

section \<open>Statement\<close>

datatype StatementEntryKind = charge | payment

record statement_entry =
  se_date :: PlainDate
  se_amount :: int
  se_kind :: StatementEntryKind

record invoice_statement =
  is_previousBalance :: int
  is_charges :: int
  is_payments :: int
  is_total :: int
  is_remaining :: int

definition sumOf :: "statement_entry list \<Rightarrow> StatementEntryKind \<Rightarrow> int" where
  "sumOf entries kind = foldl (\<lambda>s e. s + se_amount e) 0 (filter (\<lambda>e. se_kind e = kind) entries)"

definition balanceOf :: "statement_entry list \<Rightarrow> int" where
  "balanceOf entries = sumOf entries charge - sumOf entries payment"

definition atLeastZero :: "int \<Rightarrow> int" where
  "atLeastZero amount = (if amount > 0 then amount else 0)"

definition buildInvoiceStatement ::
  "cycle \<Rightarrow> InvoiceKey \<Rightarrow> PlainDate \<Rightarrow> statement_entry list \<Rightarrow> invoice_statement" where
  "buildInvoiceStatement c key today entries =
     (let b = bounds c key;
          posted = filter (\<lambda>e. se_date e \<le> today) entries;
          withinPeriod = filter (\<lambda>e. se_date e \<ge> ib_periodStart b \<and> se_date e \<le> ib_periodEnd b) posted;
          afterClosing = filter (\<lambda>e. se_date e > ib_periodEnd b) posted;
          previousBalance = balanceOf (filter (\<lambda>e. se_date e < ib_periodStart b) posted);
          charges = sumOf withinPeriod charge;
          payments = sumOf withinPeriod payment;
          total = previousBalance + charges - payments
      in \<lparr>is_previousBalance = previousBalance, is_charges = charges, is_payments = payments,
          is_total = total, is_remaining = atLeastZero (total - sumOf afterClosing payment)\<rparr>)"

section \<open>The invoice handler\<close>

datatype InvoiceStatus = current | closed | overdue | paid

definition entryKindOf :: "transaction \<Rightarrow> string \<Rightarrow> StatementEntryKind" where
  "entryKindOf t aid =
     (if tx_destinationAccountId t = Some aid then payment
      else if tx_type t = INCOME then payment else charge)"

definition invoiceStatusOf ::
  "invoice_statement \<Rightarrow> InvoiceKey \<Rightarrow> InvoiceKey \<Rightarrow> PlainDate \<Rightarrow> PlainDate \<Rightarrow> InvoiceStatus" where
  "invoiceStatusOf st key currentKey dueDate today =
     (if (is_previousBalance st > 0 \<or> is_charges st > 0) \<and> is_remaining st = 0 then paid
      else if key = currentKey then current
      else if dueDate < today then overdue else closed)"

record invoice_response =
  ir_account :: account
  ir_transactions :: "transaction list"
  ir_totalAmount :: int
  ir_previousBalance :: int
  ir_statementTotal :: int
  ir_pendingAmount :: int
  ir_availableLimit :: "int option"
  ir_dueDate :: PlainDate
  ir_dueMonth :: int
  ir_dueYear :: int
  ir_periodStart :: PlainDate
  ir_periodEnd :: PlainDate
  ir_invoiceStatus :: InvoiceStatus

definition findCreditCardLedger :: "db \<Rightarrow> string \<Rightarrow> string \<Rightarrow> transaction list" where
  "findCreditCardLedger d aid ws = rev (sort_key tx_date
     (filter (\<lambda>t. tx_workspaceId t = ws
        \<and> (tx_accountId t = aid \<or> tx_destinationAccountId t = Some aid)) (transactions d)))"

definition pendingChargesOf :: "transaction list \<Rightarrow> string \<Rightarrow> int" where
  "pendingChargesOf ts aid = foldl (\<lambda>s t. s + tx_amount t) 0
     (filter (\<lambda>t. tx_status t = PENDING \<and> entryKindOf t aid = charge) ts)"

definition statement_entries :: "(int \<Rightarrow> PlainDate) \<Rightarrow> string \<Rightarrow> transaction list \<Rightarrow> statement_entry list" where
  "statement_entries localDate aid ts =
     map (\<lambda>t. \<lparr>se_date = localDate (tx_date t), se_amount = tx_amount t, se_kind = entryKindOf t aid\<rparr>)
         (filter (\<lambda>t. tx_status t = COMPLETED) ts)"

text \<open>
  \<open>format tz t\<close> is \<open>dateProvider.format(t, 'YYYY-MM-DD', tz)\<close>, a dayjs call; \<open>month\<close> and
  \<open>year\<close> are the optional query parameters, 0 counting as absent as in the source.
\<close>

definition get_credit_card_invoice :: "(string \<Rightarrow> int \<Rightarrow> PlainDate) \<Rightarrow> int \<Rightarrow> db \<Rightarrow> string \<Rightarrow> string
    \<Rightarrow> int \<Rightarrow> int \<Rightarrow> invoice_response either" where
  "get_credit_card_invoice format now d aid ws month year =
     and_then (account_findById d aid) (\<lambda>found. case found of
       None \<Rightarrow> left_account (AccountNotFoundError ''Nao existe.'')
     | Some acc \<Rightarrow>
       if workspace_of acc \<noteq> ws then left_shared (UnauthorizedError ''Nao autorizado'')
       else case acc of
         CreditCard p cp \<Rightarrow>
           and_then (InvoiceCalendar_new \<lparr>cy_dueDay = dueDay cp, cy_closingDaysBeforeDue = closingDaysBeforeDue cp\<rparr>)
             (\<lambda>c. let localDate = format (acc_timezone p);
                      today = localDate now;
                      currentKey = invoiceKeyFor c today;
                      key = (if month \<noteq> 0 \<and> year \<noteq> 0 then keyOf year month else currentKey);
                      b = bounds c key;
                      ledger = findCreditCardLedger d aid ws;
                      st = buildInvoiceStatement c key today (statement_entries localDate aid ledger);
                      txs = filter (\<lambda>t. localDate (tx_date t) \<ge> ib_periodStart b
                                         \<and> localDate (tx_date t) \<le> ib_periodEnd b) ledger;
                      pendingAmount = pendingChargesOf txs aid
                  in Inr \<lparr>ir_account = acc, ir_transactions = txs, ir_totalAmount = is_remaining st,
                       ir_previousBalance = is_previousBalance st, ir_statementTotal = is_total st,
                       ir_pendingAmount = pendingAmount,
                       ir_availableLimit = (case creditLimit cp of None \<Rightarrow> None
                          | Some l \<Rightarrow> Some (atLeastZero (l - is_remaining st - pendingAmount))),
                       ir_dueDate = ib_dueDate b, ir_dueMonth = snd (parseKey key),
                       ir_dueYear = fst (parseKey key), ir_periodStart = ib_periodStart b,
                       ir_periodEnd = ib_periodEnd b,
                       ir_invoiceStatus = invoiceStatusOf st key currentKey (ib_dueDate b) today\<rparr>)
       | _ \<Rightarrow> left_account (AccountTypeError ''Tipo nao permitido para essa operacao.''))"

section \<open>Refinement to day numbers\<close>

definition due_day :: "cycle \<Rightarrow> int \<Rightarrow> int" where
  "due_day c i = MakeDay (i div 12) (i mod 12) (cy_dueDay c)"

definition closing_day :: "cycle \<Rightarrow> int \<Rightarrow> int" where
  "closing_day c i = due_day c i - cy_closingDaysBeforeDue c"

definition key_of_index :: "int \<Rightarrow> InvoiceKey" where
  "key_of_index i = keyOf (i div 12) (i mod 12 + 1)"

definition index_range :: "int \<Rightarrow> bool" where
  "index_range i = (12 * 1001 \<le> i \<and> i < 12 * 9999)"

lemma valid_cycleD:
  "valid_cycle c \<Longrightarrow> 1 \<le> cy_dueDay c \<and> cy_dueDay c \<le> 28 \<and> 5 \<le> cy_closingDaysBeforeDue c \<and> cy_closingDaysBeforeDue c \<le> 10"
  by (auto simp: valid_cycle_def isValidDueDay_def isValidClosingDaysBeforeDue_def MIN_DUE_DAY_def
      MAX_DUE_DAY_def CLOSING_DAYS_BEFORE_DUE_OPTIONS_def)

lemma due_valid_civil: "valid_cycle c \<Longrightarrow> valid_civil (i div 12) (i mod 12 + 1) (cy_dueDay c)"
  using valid_cycleD[of c] month_length[of "i mod 12 + 1" "leap (i div 12)"] pos_mod_bound[of 12 i] pos_mod_sign[of 12 i]
  unfolding valid_civil_def by linarith

lemma index_div_mod [calendar_simps]:
  "(12 * y + m) div 12 = y" "(12 * y + m) mod 12 = m" if "0 \<le> m" "m \<le> 11" for y m :: int
  using that by simp_all

lemma mod12: "0 \<le> i mod 12" "i mod 12 \<le> 11" for i :: int
  by simp_all

lemma div12_range: "12 * 1000 \<le> i \<Longrightarrow> i < 12 * 10000 \<Longrightarrow> 1000 \<le> i div 12 \<and> i div 12 \<le> 9999" for i :: int
  using mult_div_mod_eq[of 12 i] mod12[of i] by linarith

lemma due_day_civil:
  assumes "valid_cycle c"
  shows "yearFromDay (due_day c i) = i div 12" "monthFromDay (due_day c i) = i mod 12"
    "dateFromDay (due_day c i) = cy_dueDay c"
  using civil_MakeDay[OF due_valid_civil[OF assms, of i]] by (simp_all add: due_day_def)

lemma due_day_mono: assumes "valid_cycle c" "i < j" shows "due_day c i < due_day c j"
proof -
  have "i div 12 < j div 12 \<or> i div 12 = j div 12 \<and> i mod 12 + 1 < j mod 12 + 1"
    using assms(2) mult_div_mod_eq[of 12 i] mult_div_mod_eq[of 12 j] zdiv_mono1[of i j 12] by linarith
  from MakeDay_less[OF due_valid_civil[OF assms(1)] due_valid_civil[OF assms(1)], of i j] this
  show ?thesis by (auto simp: due_day_def)
qed

lemma closing_day_mono: "valid_cycle c \<Longrightarrow> i < j \<Longrightarrow> closing_day c i < closing_day c j"
  using due_day_mono[of c i j] by (simp add: closing_day_def)

lemma dueOf_index: "valid_cycle c \<Longrightarrow> dueOf c (i div 12) (i mod 12 + 1) = plain (due_day c i)"
  using due_day_civil[of c i] valid_cycleD[of c] month_length[of "i mod 12 + 1" "leap (i div 12)"] mod12[of i]
  by (simp add: dueOf_def plain_def daysInMonth_eq min_def)

lemma shiftMonth_index: "shiftMonth (i div 12) (i mod 12 + 1) k = ((i + k) div 12, (i + k) mod 12 + 1)"
  by (simp add: shiftMonth_def Let_def)

lemma due_in_range: "valid_cycle c \<Longrightarrow> 12 * 1000 \<le> i \<Longrightarrow> i < 12 * 10000 \<Longrightarrow> in_range (due_day c i)"
  using div12_range[of i] by (simp add: in_range_def due_day_civil)

lemma closingOf_index:
  "valid_cycle c \<Longrightarrow> 12 * 1000 \<le> i \<Longrightarrow> i < 12 * 10000 \<Longrightarrow> closingOf c (plain (due_day c i)) = plain (closing_day c i)"
  by (simp add: closingOf_def addDays_plain due_in_range closing_day_def)

lemma closing_in_range:
  assumes "valid_cycle c" "12 * 1001 \<le> i" "i < 12 * 10000" "-1 \<le> k" "k \<le> 1"
  shows "in_range (closing_day c i + k)"
proof (rule in_range_between)
  show "in_range (due_day c (12 * 1000))" "in_range (due_day c i)" using assms by (auto intro: due_in_range)
  show "closing_day c i + k \<le> due_day c i"
    using assms valid_cycleD[of c] by (simp add: closing_day_def)
  have gap: "due_day c (12 * 1000) + 20 \<le> due_day c (12 * 1000 + 1)"
    by (simp add: due_day_def MakeDay_def Let_def daysBefore_def)
  have "due_day c (12 * 1000 + 1) \<le> due_day c i"
    using due_day_mono[OF assms(1), of "12 * 1000 + 1" i] assms(2) by (cases "i = 12 * 1000 + 1") auto
  with gap show "due_day c (12 * 1000) \<le> closing_day c i + k"
    using assms valid_cycleD[of c] by (simp add: closing_day_def)
qed

lemma parse_key_of_index:
  assumes "12 * 1000 \<le> i" "i < 12 * 10000"
  shows "parseKey (key_of_index i) = (i div 12, i mod 12 + 1)"
  unfolding key_of_index_def using div12_range[OF assms] mod12[of i] by (intro parse_keyOf) simp_all

lemma bounds_index:
  assumes c: "valid_cycle c" and i: "index_range i"
  shows "bounds c (key_of_index i) = \<lparr>ib_key = key_of_index i, ib_periodStart = plain (closing_day c (i - 1) + 1),
     ib_endExclusive = plain (closing_day c i + 1), ib_periodEnd = plain (closing_day c i),
     ib_dueDate = plain (due_day c i)\<rparr>"
proof -
  have r: "12 * 1000 \<le> i" "i < 12 * 10000" "12 * 1000 \<le> i - 1" "12 * 1001 \<le> i"
    using i by (simp_all add: index_range_def)
  have cl: "closingOf c (plain (due_day c (i - 1))) = plain (closing_day c (i - 1))"
    "closingOf c (plain (due_day c i)) = plain (closing_day c i)"
    using closingOf_index[OF c] r by simp_all
  have "in_range (closing_day c i)" using closing_in_range[OF c r(4,2), of 0] by simp
  moreover have "in_range (closing_day c (i - 1))"
  proof (rule in_range_between)
    show "in_range (due_day c (12 * 1000))" "in_range (due_day c i)" using r c by (auto intro: due_in_range)
    have gap: "due_day c (12 * 1000) + 20 \<le> due_day c (12 * 1000 + 1)"
      by (simp add: due_day_def MakeDay_def Let_def daysBefore_def)
    have "due_day c (12 * 1000 + 1) \<le> due_day c (i - 1)"
      using due_day_mono[OF c, of "12 * 1000 + 1" "i - 1"] r(4) by (cases "i - 1 = 12 * 1000 + 1") auto
    with gap show "due_day c (12 * 1000) \<le> closing_day c (i - 1)"
      using valid_cycleD[OF c] by (simp add: closing_day_def)
    show "closing_day c (i - 1) \<le> due_day c i"
      using due_day_mono[OF c, of "i - 1" i] valid_cycleD[OF c] by (simp add: closing_day_def)
  qed
  ultimately show ?thesis
    unfolding bounds_def parse_key_of_index[OF r(1,2)]
    by (simp add: dueOf_index[OF c] shiftMonth_index Let_def cl addDays_plain)
qed

section \<open>Every day belongs to one invoice\<close>

definition invoice_index :: "cycle \<Rightarrow> int \<Rightarrow> int" where
  "invoice_index c n = (let t = n + cy_closingDaysBeforeDue c; j = 12 * yearFromDay t + monthFromDay t
     in if due_day c j \<ge> t then j else j + 1)"

lemma month_bounds: "0 \<le> monthFromDay n" "monthFromDay n \<le> 11"
  using valid_civil_bounds[OF civil_valid[of n]] by auto

lemma invoice_index_contains:
  assumes c: "valid_cycle c"
  shows "closing_day c (invoice_index c n - 1) < n" "n \<le> closing_day c (invoice_index c n)"
proof -
  define t where "t = n + cy_closingDaysBeforeDue c"
  define j where "j = 12 * yearFromDay t + monthFromDay t"
  have jdm: "j div 12 = yearFromDay t" "j mod 12 = monthFromDay t"
    using index_div_mod[OF month_bounds] by (simp_all add: j_def)
  have before: "civil_less (civil_of (due_day c i)) (civil_of t)" if "i < j" for i
  proof -
    have "i div 12 < j div 12 \<or> i div 12 = j div 12 \<and> i mod 12 + 1 < j mod 12 + 1"
      using that mult_div_mod_eq[of 12 i] mult_div_mod_eq[of 12 j] zdiv_mono1[of i j 12] by linarith
    then show ?thesis by (auto simp: civil_less_def civil_of_def due_day_civil[OF c] jdm)
  qed
  have after: "t < due_day c (j + 1)"
  proof -
    have "j div 12 < (j + 1) div 12 \<or> j div 12 = (j + 1) div 12 \<and> j mod 12 + 1 < (j + 1) mod 12 + 1"
      using mult_div_mod_eq[of 12 j] mult_div_mod_eq[of 12 "j + 1"] zdiv_mono1[of j "j + 1" 12] by linarith
    then have "civil_less (civil_of t) (civil_of (due_day c (j + 1)))"
      by (auto simp: civil_less_def civil_of_def due_day_civil[OF c] jdm)
    then show ?thesis by (simp add: civil_less_iff)
  qed
  have prev: "due_day c (j - 1) < t" using before[of "j - 1"] by (simp add: civil_less_iff)
  have idx: "invoice_index c n = (if due_day c j \<ge> t then j else j + 1)"
    by (simp add: invoice_index_def t_def j_def Let_def)
  show "closing_day c (invoice_index c n - 1) < n" "n \<le> closing_day c (invoice_index c n)"
    using prev after by (auto simp: idx closing_day_def t_def)
qed

lemma invoice_index_unique:
  assumes c: "valid_cycle c" and i: "closing_day c (i - 1) < n" "n \<le> closing_day c i"
  shows "invoice_index c n = i"
proof -
  note ii = invoice_index_contains[OF c, of n]
  have "\<not> invoice_index c n < i"
  proof
    assume "invoice_index c n < i"
    then have "closing_day c (invoice_index c n) \<le> closing_day c (i - 1)"
      using closing_day_mono[OF c, of "invoice_index c n" "i - 1"] by (cases "invoice_index c n = i - 1") auto
    with ii(2) i(1) show False by simp
  qed
  moreover have "\<not> i < invoice_index c n"
  proof
    assume "i < invoice_index c n"
    then have "closing_day c i \<le> closing_day c (invoice_index c n - 1)"
      using closing_day_mono[OF c, of i "invoice_index c n - 1"] by (cases "i = invoice_index c n - 1") auto
    with ii(1) i(2) show False by simp
  qed
  ultimately show ?thesis by simp
qed

end
