(* ===== verification/InvoiceProperties.thy ===== *)
theory InvoiceProperties
  imports Invoice LedgerProperties
begin

text \<open>
  Properties of card invoices, stated on the date and key strings of the code: the
  periods partition the days, a payment goes to the last closed invoice, statements
  roll over without losing a cent, and the statement agrees with the stored debt.
\<close>

lemma year_mono: "a \<le> b \<Longrightarrow> yearFromDay a \<le> yearFromDay b"
  using yearFromDay_bounds[of a] yearFromDay_bounds[of b]
    dayFromYear_mono[of "yearFromDay b + 1" "yearFromDay a"] by linarith

definition usual_year :: "int \<Rightarrow> bool" where
  "usual_year y = (1002 \<le> y \<and> y \<le> 9997)"

lemma index_eq: "(12 * (i div 12) + i mod 12) = (i :: int)"
  by simp

lemma invoice_key_index:
  assumes c: "valid_cycle c" and y: "usual_year (yearFromDay n)"
  shows "invoiceKeyFor c (plain n) = key_of_index (invoice_index c n)"
    and "12 * 1002 \<le> invoice_index c n" "invoice_index c n < 12 * 9999"
proof -
  define t where "t = n + cy_closingDaysBeforeDue c"
  define j where "j = 12 * yearFromDay t + monthFromDay t"
  have nt: "n \<le> t" "t \<le> n + 10" using valid_cycleD[OF c] by (simp_all add: t_def)
  have "n < dayFromYear 9998"
    using yearFromDay_bounds[of n] dayFromYear_mono[of "yearFromDay n + 1" 9998] y by (simp add: usual_year_def)
  then have "t < dayFromYear 9999" using nt by (simp add: dayFromYear_def)
  moreover have "dayFromYear (yearFromDay t) \<le> t" using yearFromDay_bounds[of t] by simp
  ultimately have "\<not> 9999 \<le> yearFromDay t" using dayFromYear_mono[of 9999 "yearFromDay t"] by linarith
  moreover have "1002 \<le> yearFromDay t" using year_mono[OF nt(1)] y by (simp add: usual_year_def)
  ultimately have yt: "1002 \<le> yearFromDay t" "yearFromDay t \<le> 9998" by simp_all
  have r: "in_range n" "in_range t" using y yt by (simp_all add: in_range_def usual_year_def)
  have jdm: "j div 12 = yearFromDay t" "j mod 12 = monthFromDay t"
    using index_div_mod[OF month_bounds] by (simp_all add: j_def)
  have jr: "12 * 1002 \<le> j" "j < 12 * 9999" using yt month_bounds[of t] by (simp_all add: j_def)
  have idx: "invoice_index c n = (if due_day c j \<ge> t then j else j + 1)"
    by (simp add: invoice_index_def t_def j_def Let_def)
  have due: "dueOf c (yearFromDay t) (monthFromDay t + 1) = plain (due_day c j)"
    using dueOf_index[OF c, of j] by (simp add: jdm)
  have rd: "in_range (due_day c j)" "in_range (due_day c (j + 1))" using due_in_range[OF c] jr by simp_all
  have key: "keyFromDue (plain (due_day c k)) = key_of_index k" if "in_range (due_day c k)" for k
    using that by (simp add: keyFromDue_def parse_plain civil_of_def due_day_civil[OF c] key_of_index_def)
  have thr: "addDays (plain n) (cy_closingDaysBeforeDue c) = plain t"
    using r by (simp add: addDays_plain t_def)
  have nxt: "dueOf c ((j + 1) div 12) ((j + 1) mod 12 + 1) = plain (due_day c (j + 1))"
    by (rule dueOf_index[OF c])
  show "invoiceKeyFor c (plain n) = key_of_index (invoice_index c n)"
    unfolding invoiceKeyFor_def thr Let_def parse_plain[OF r(2)] civil_of_def
    using shiftMonth_index[of j 1] nxt
    by (simp add: due plain_le_iff[OF r(2) rd(1)] idx key rd jdm)
  show "12 * 1002 \<le> invoice_index c n" using jr by (simp add: idx)
  show "invoice_index c n < 12 * 9999"
  proof (cases "j + 1 < 12 * 9999")
    case True then show ?thesis by (simp add: idx)
  next
    case False
    with jr have j: "j = 12 * 9998 + 11" by simp
    then have "yearFromDay t = 9998" "monthFromDay t = 11" using jdm by simp_all
    moreover have "t < dayFromYear 9998 + 10" using \<open>n < dayFromYear 9998\<close> nt by simp
    ultimately show ?thesis
      using civil_valid[of t] MakeDay_civil[of t]
      by (simp add: valid_civil_def MakeDay_def Let_def dayFromYear_def daysBefore_def leap_def)
  qed
qed

lemma civil_day:
  assumes "valid_civil y m d" "usual_year y"
  obtains n where "toPlainDate y m d = plain n" "usual_year (yearFromDay n)" "in_range n"
proof
  show "toPlainDate y m d = plain (MakeDay y (m - 1) d)" by (simp add: plain_MakeDay[OF assms(1)])
  show "usual_year (yearFromDay (MakeDay y (m - 1) d))" "in_range (MakeDay y (m - 1) d)"
    using assms(2) by (simp_all add: civil_MakeDay[OF assms(1)] in_range_def usual_year_def)
qed

lemma bounds_of_index:
  assumes c: "valid_cycle c" and i: "12 * 1002 \<le> i" "i < 12 * 9999"
  shows "bounds c (key_of_index i) = \<lparr>ib_key = key_of_index i, ib_periodStart = plain (closing_day c (i - 1) + 1),
     ib_endExclusive = plain (closing_day c i + 1), ib_periodEnd = plain (closing_day c i),
     ib_dueDate = plain (due_day c i)\<rparr>"
    and "in_range (closing_day c (i - 1) + 1)" "in_range (closing_day c i)" "in_range (closing_day c (i - 1))"
    "in_range (closing_day c i + 1)"
  using bounds_index[OF c, of i] closing_in_range[OF c, of "i - 1" 1] closing_in_range[OF c, of i 0]
    closing_in_range[OF c, of "i - 1" 0] closing_in_range[OF c, of i 1] i
  by (simp_all add: index_range_def)

text \<open>
  C8: every calendar day of the years 1002 to 9997 lies inside the period of the
  invoice that \<open>invoiceKeyFor\<close> assigns to it, for every valid due day and closing
  distance, across month ends and leap years.
\<close>

theorem invoice_key_contains_date:
  assumes "valid_cycle c" "valid_civil y m d" "usual_year y"
  shows "ib_periodStart (bounds c (invoiceKeyFor c (toPlainDate y m d))) \<le> toPlainDate y m d
       \<and> toPlainDate y m d \<le> ib_periodEnd (bounds c (invoiceKeyFor c (toPlainDate y m d)))"
proof -
  obtain n where n: "toPlainDate y m d = plain n" "usual_year (yearFromDay n)" "in_range n"
    using civil_day[OF assms(2,3)] .
  note k = invoice_key_index[OF assms(1) n(2)] and b = bounds_of_index[OF assms(1) invoice_key_index(2,3)[OF assms(1) n(2)]]
  show ?thesis
    using invoice_index_contains[OF assms(1), of n]
    by (simp add: n(1) k(1) b(1) plain_le_iff b n(3))
qed

definition demo_cycle :: cycle where
  "demo_cycle = \<lparr>cy_dueDay = 10, cy_closingDaysBeforeDue = 7\<rparr>"

lemma demo_cycle_valid: "valid_cycle demo_cycle"
  by (simp add: demo_cycle_def valid_cycle_def isValidDueDay_def isValidClosingDaysBeforeDue_def
      MIN_DUE_DAY_def MAX_DUE_DAY_def CLOSING_DAYS_BEFORE_DUE_OPTIONS_def)

lemma demo_date_valid: "valid_civil 2024 2 29" "usual_year 2024" "valid_civil 2024 3 3"
  by (simp_all add: valid_civil_def usual_year_def leap_def daysBefore_def)

theorem invoice_key_contains_date_witness:
  "ib_periodStart (bounds demo_cycle (invoiceKeyFor demo_cycle (toPlainDate 2024 2 29))) \<le> toPlainDate 2024 2 29
   \<and> toPlainDate 2024 2 29 \<le> ib_periodEnd (bounds demo_cycle (invoiceKeyFor demo_cycle (toPlainDate 2024 2 29)))"
  by (rule invoice_key_contains_date[OF demo_cycle_valid demo_date_valid(1,2)])

lemma keyOf_index: "1 \<le> m \<Longrightarrow> m \<le> 12 \<Longrightarrow> keyOf y m = key_of_index (12 * y + (m - 1))"
  using index_div_mod[of "m - 1" y] by (simp add: key_of_index_def)

text \<open>
  C9: and it lies in no other: a day inside the period of the invoice of month \<open>m'\<close>
  of year \<open>y'\<close> is assigned exactly that key.
\<close>

theorem invoice_periods_disjoint:
  assumes "valid_cycle c" "valid_civil y m d" "usual_year y"
    and "1002 \<le> y'" "y' \<le> 9998" "1 \<le> m'" "m' \<le> 12"
    and "ib_periodStart (bounds c (keyOf y' m')) \<le> toPlainDate y m d"
    and "toPlainDate y m d \<le> ib_periodEnd (bounds c (keyOf y' m'))"
  shows "invoiceKeyFor c (toPlainDate y m d) = keyOf y' m'"
proof -
  obtain n where n: "toPlainDate y m d = plain n" "usual_year (yearFromDay n)" "in_range n"
    using civil_day[OF assms(2,3)] .
  let ?i = "12 * y' + (m' - 1)"
  have i: "12 * 1002 \<le> ?i" "?i < 12 * 9999" using assms(4-7) by simp_all
  note b = bounds_of_index[OF assms(1) i] and key = keyOf_index[OF assms(6,7), of y']
  have "closing_day c (?i - 1) + 1 \<le> n" "n \<le> closing_day c ?i"
    using assms(8,9) plain_le_iff[OF b(2) n(3)] plain_le_iff[OF n(3) b(3)] by (simp_all add: key n(1) b(1))
  then have "invoice_index c n = ?i" by (intro invoice_index_unique[OF assms(1)]) simp_all
  then show ?thesis using invoice_key_index(1)[OF assms(1) n(2)] by (simp add: n(1) key)
qed

lemma demo_period: "ib_periodStart (bounds demo_cycle (keyOf 2024 3)) \<le> toPlainDate 2024 2 29"
    "toPlainDate 2024 2 29 \<le> ib_periodEnd (bounds demo_cycle (keyOf 2024 3))"
  using bounds_of_index[OF demo_cycle_valid, of 24290] plain_MakeDay[OF demo_date_valid(1)]
    plain_le_iff[of "closing_day demo_cycle 24289 + 1" "MakeDay 2024 1 29"]
    plain_le_iff[of "MakeDay 2024 1 29" "closing_day demo_cycle 24290"]
    civil_MakeDay[OF demo_date_valid(1)]
  by (simp_all add: keyOf_index in_range_def closing_day_def due_day_def demo_cycle_def MakeDay_def Let_def
      dayFromYear_def daysBefore_def leap_def)

theorem invoice_periods_disjoint_witness:
  "invoiceKeyFor demo_cycle (toPlainDate 2024 2 29) = keyOf 2024 3"
  by (rule invoice_periods_disjoint[OF demo_cycle_valid demo_date_valid(1,2) _ _ _ _ demo_period]) simp_all

section \<open>Consecutive invoices and allocation\<close>

definition nextKey :: "InvoiceKey \<Rightarrow> InvoiceKey" where
  "nextKey key = (case parseKey key of (year, month) \<Rightarrow>
     case shiftMonth year month 1 of (y, m) \<Rightarrow> keyOf y m)"

lemma step_key:
  assumes "12 * 1000 \<le> i" "i < 12 * 10000"
  shows "nextKey (key_of_index i) = key_of_index (i + 1)" "previousKey (key_of_index i) = key_of_index (i - 1)"
  by (simp_all add: nextKey_def previousKey_def parse_key_of_index[OF assms] shiftMonth_index,
      simp_all add: key_of_index_def)

text \<open>
  The periods of consecutive invoices leave no gap: the period of the next month
  starts on the exclusive end of this one, and \<open>previousKey\<close> undoes the step, over
  year ends included.
\<close>

theorem invoice_periods_consecutive:
  assumes "valid_cycle c" "1002 \<le> y" "y \<le> 9997" "1 \<le> m" "m \<le> 12"
  shows "ib_periodStart (bounds c (nextKey (keyOf y m))) = ib_endExclusive (bounds c (keyOf y m))
       \<and> ib_periodEnd (bounds c (keyOf y m)) < ib_periodEnd (bounds c (nextKey (keyOf y m)))
       \<and> previousKey (nextKey (keyOf y m)) = keyOf y m"
proof -
  define i where "i = 12 * y + (m - 1)"
  have i: "12 * 1002 \<le> i" "i < 12 * 9999" "12 * 1002 \<le> i + 1" "i + 1 < 12 * 9999"
    using assms(2-) by (simp_all add: i_def)
  note b = bounds_of_index[OF assms(1) i(1,2)] and b' = bounds_of_index[OF assms(1) i(3,4)]
  have key: "keyOf y m = key_of_index i" using keyOf_index[OF assms(4,5)] by (simp add: i_def)
  show ?thesis
    using i closing_day_mono[OF assms(1), of i "i + 1"]
    by (simp add: key step_key b(1) b'(1) plain_less_iff[OF b(3) b'(3)])
qed

theorem invoice_periods_consecutive_witness:
  "previousKey (nextKey (keyOf 2024 12)) = keyOf 2024 12"
  using invoice_periods_consecutive[OF demo_cycle_valid, of 2024 12] by simp

text \<open>
  A payment without an explicit target goes to the last invoice that has closed:
  its closing day is not after the payment, and the next invoice closes after it. An
  explicit target wins.
\<close>

theorem payment_goes_to_last_closed:
  assumes "valid_cycle c" "valid_civil y m d" "usual_year y"
  shows "ib_periodEnd (bounds c (allocateInvoice c (toPlainDate y m d) None)) \<le> toPlainDate y m d
       \<and> toPlainDate y m d < ib_periodEnd (bounds c (nextKey (allocateInvoice c (toPlainDate y m d) None)))
       \<and> (target \<noteq> [] \<longrightarrow> allocateInvoice c (toPlainDate y m d) (Some target) = target)"
proof -
  obtain n where n: "toPlainDate y m d = plain n" "usual_year (yearFromDay n)" "in_range n"
    using civil_day[OF assms(2,3)] .
  note k = invoice_key_index[OF assms(1) n(2)]
  let ?i = "invoice_index c n"
  note b = bounds_of_index[OF assms(1) k(2,3)]
  note ct = invoice_index_contains[OF assms(1), of n]
  have prev: "bounds c (key_of_index (?i - 1)) = \<lparr>ib_key = key_of_index (?i - 1),
      ib_periodStart = plain (closing_day c (?i - 1 - 1) + 1),
      ib_endExclusive = plain (closing_day c (?i - 1) + 1), ib_periodEnd = plain (closing_day c (?i - 1)),
      ib_dueDate = plain (due_day c (?i - 1))\<rparr>"
    by (rule bounds_index[OF assms(1)]) (use k in \<open>simp add: index_range_def\<close>)
  have last: "ib_periodEnd (bounds c (key_of_index (?i - 1))) \<le> plain n"
    using ct(1) by (simp add: prev plain_le_iff[OF b(4) n(3)])
  have eq: "ib_periodEnd (bounds c (key_of_index ?i)) = plain n \<longleftrightarrow> closing_day c ?i = n"
    using plain_le_iff[OF b(3) n(3)] plain_le_iff[OF n(3) b(3)] by (auto simp: b(1) order_eq_iff)
  have alloc: "allocateInvoice c (plain n) None
      = (if closing_day c ?i = n then key_of_index ?i else key_of_index (?i - 1))"
    using eq k by (simp add: allocateInvoice_def falsy_def k(1) Let_def step_key)
  have closes: "plain n < ib_periodEnd (bounds c (key_of_index (?i + 1)))" if "closing_day c ?i = n"
  proof -
    have "?i + 1 < 12 * 10000" "12 * 1001 \<le> ?i + 1" using k by simp_all
    then have r: "in_range (closing_day c (?i + 1))" using closing_in_range[OF assms(1), of "?i + 1" 0] by simp
    have "?i + 1 < 12 * 9999 \<or> ?i = 12 * 9999 - 1" using k by auto
    then show ?thesis
    proof
      assume "?i + 1 < 12 * 9999"
      then have "index_range (?i + 1)" using k by (simp add: index_range_def)
      from bounds_index[OF assms(1) this] show ?thesis
        using closing_day_mono[OF assms(1), of ?i "?i + 1"] that by (simp add: plain_less_iff[OF n(3) r])
    next
      assume i: "?i = 12 * 9999 - 1"
      have "closing_day c ?i = dayFromYear 9998 + 334 + cy_dueDay c - 1 - cy_closingDaysBeforeDue c"
        by (simp add: i closing_day_def due_day_def MakeDay_def Let_def daysBefore_def leap_def)
      moreover have "n < dayFromYear 9998"
        using yearFromDay_bounds[of n] dayFromYear_mono[of "yearFromDay n + 1" 9998] n(2) by (simp add: usual_year_def)
      ultimately show ?thesis using that valid_cycleD[OF assms(1)] by simp
    qed
  qed
  have stays: "plain n < ib_periodEnd (bounds c (key_of_index ?i))" if "closing_day c ?i \<noteq> n"
    using ct(2) that by (simp add: b(1) plain_less_iff[OF n(3) b(3)])
  show ?thesis
    using last closes stays eq k by (auto simp: n(1) alloc step_key) (auto simp: allocateInvoice_def falsy_def)
qed

theorem payment_goes_to_last_closed_witness:
  "ib_periodEnd (bounds demo_cycle (allocateInvoice demo_cycle (toPlainDate 2024 2 29) None)) \<le> toPlainDate 2024 2 29"
  using payment_goes_to_last_closed[OF demo_cycle_valid demo_date_valid(1,2), of "''2024-03''"] by simp

section \<open>Statements\<close>

definition calendar_day :: "PlainDate \<Rightarrow> bool" where
  "calendar_day s = (case parseDate s of (y, m, d) \<Rightarrow>
     valid_civil y m d \<and> 1000 \<le> y \<and> y \<le> 9999 \<and> toPlainDate y m d = s)"

lemma calendar_dayE:
  assumes "calendar_day s"
  obtains n where "s = plain n" "in_range n"
proof -
  obtain y m d where p: "parseDate s = (y, m, d)" by (cases "parseDate s")
  with assms have v: "valid_civil y m d" "1000 \<le> y" "y \<le> 9999" "toPlainDate y m d = s"
    by (simp_all add: calendar_day_def)
  show thesis
    by (rule that[of "MakeDay y (m - 1) d"])
       (use v in \<open>simp_all add: plain_MakeDay[OF v(1), symmetric] in_range_def civil_MakeDay[OF v(1)]\<close>)
qed

lemma sumOf_eq: "sumOf es k = sum_list (map se_amount (filter (\<lambda>e. se_kind e = k) es))"
proof -
  have "foldl (\<lambda>s e. s + se_amount e) a xs = a + sum_list (map se_amount xs)" for a and xs :: "statement_entry list"
    by (induction xs arbitrary: a) simp_all
  then show ?thesis by (simp add: sumOf_def)
qed

lemma sumOf_Cons:
  "sumOf (e # es) k = (if se_kind e = k then se_amount e else 0) + sumOf es k" "sumOf [] k = 0"
  by (simp_all add: sumOf_eq)

lemma balanceOf_split:
  assumes "\<And>e. e \<in> set es \<Longrightarrow> R e \<longleftrightarrow> P e \<or> Q e" "\<And>e. e \<in> set es \<Longrightarrow> \<not> (P e \<and> Q e)"
  shows "balanceOf (filter R es) = balanceOf (filter P es) + balanceOf (filter Q es)"
  using assms
proof (induction es)
  case (Cons e es)
  from Cons.prems[of e] Cons.IH Cons.prems show ?case
    by (cases "P e"; cases "Q e") (simp_all add: balanceOf_def sumOf_Cons)
qed (simp add: balanceOf_def sumOf_Cons)

lemma upto_split: "(s :: string) \<le> c \<Longrightarrow> x \<le> c \<longleftrightarrow> x < s \<or> s \<le> x \<and> x \<le> c"
  by (meson le_less_linear less_imp_le order_trans)

lemma statement_total_index:
  assumes c: "valid_cycle c" and i: "12 * 1002 \<le> i" "i < 12 * 9999"
    and es: "\<And>e. e \<in> set es \<Longrightarrow> calendar_day (se_date e)"
  shows "is_total (buildInvoiceStatement c (key_of_index i) today es)
     = balanceOf (filter (\<lambda>e. se_date e \<le> plain (closing_day c i)) (filter (\<lambda>e. se_date e \<le> today) es))"
proof -
  note b = bounds_of_index[OF c i]
  let ?posted = "filter (\<lambda>e. se_date e \<le> today) es"
  have lt: "closing_day c (i - 1) < closing_day c i" by (rule closing_day_mono[OF c]) simp
  have "plain (closing_day c (i - 1) + 1) \<le> plain (closing_day c i)"
    using lt by (simp add: plain_le_iff[OF b(2,3)])
  then have "balanceOf (filter (\<lambda>e. se_date e \<le> plain (closing_day c i)) ?posted)
    = balanceOf (filter (\<lambda>e. se_date e < plain (closing_day c (i - 1) + 1)) ?posted)
    + balanceOf (filter (\<lambda>e. se_date e \<ge> plain (closing_day c (i - 1) + 1)
          \<and> se_date e \<le> plain (closing_day c i)) ?posted)"
    by (intro balanceOf_split) (rule upto_split, assumption, simp add: not_less)
  then show ?thesis
    by (simp add: buildInvoiceStatement_def Let_def b(1) balanceOf_def)
qed

text \<open>
  C10: statements roll over: the balance an invoice carries over from the past is the
  total of the invoice before it, whatever was charged, paid or refunded, so the
  chain of statements neither loses nor repeats a cent.
\<close>

theorem statement_rolls_over:
  assumes "valid_cycle c" "1002 \<le> y" "y \<le> 9997" "1 \<le> m" "m \<le> 12"
    and "\<And>e. e \<in> set es \<Longrightarrow> calendar_day (se_date e)"
  shows "is_previousBalance (buildInvoiceStatement c (nextKey (keyOf y m)) today es)
       = is_total (buildInvoiceStatement c (keyOf y m) today es)"
proof -
  define i where "i = 12 * y + (m - 1)"
  have i: "12 * 1002 \<le> i" "i < 12 * 9999" "12 * 1002 \<le> i + 1" "i + 1 < 12 * 9999"
    using assms(2-5) by (simp_all add: i_def)
  note b = bounds_of_index[OF assms(1) i(1,2)] and b' = bounds_of_index[OF assms(1) i(3,4)]
  have key: "keyOf y m = key_of_index i" using keyOf_index[OF assms(4,5)] by (simp add: i_def)
  have day: "se_date e < plain (closing_day c i + 1) \<longleftrightarrow> se_date e \<le> plain (closing_day c i)"
    if e: "e \<in> set es" for e
  proof -
    obtain n where n: "se_date e = plain n" "in_range n" using calendar_dayE[OF assms(6)[OF e]] .
    show ?thesis unfolding n(1) plain_le_iff[OF n(2) b(3)] plain_less_iff[OF n(2) b(5)] by simp
  qed
  have "is_previousBalance (buildInvoiceStatement c (key_of_index (i + 1)) today es)
    = balanceOf (filter (\<lambda>e. se_date e < plain (closing_day c i + 1)) (filter (\<lambda>e. se_date e \<le> today) es))"
    by (simp add: buildInvoiceStatement_def Let_def b'(1))
  also have "\<dots> = balanceOf (filter (\<lambda>e. se_date e \<le> plain (closing_day c i)) (filter (\<lambda>e. se_date e \<le> today) es))"
    using day by (intro arg_cong[where f = balanceOf] filter_cong) auto
  also have "\<dots> = is_total (buildInvoiceStatement c (key_of_index i) today es)"
    using statement_total_index[OF assms(1) i(1,2) assms(6)] by simp
  finally show ?thesis using i by (simp add: key step_key)
qed

definition demo_entries :: "statement_entry list" where
  "demo_entries = [\<lparr>se_date = toPlainDate 2024 2 29, se_amount = 300, se_kind = charge\<rparr>,
     \<lparr>se_date = toPlainDate 2024 3 3, se_amount = 100, se_kind = payment\<rparr>]"

lemma parse_civil_date:
  assumes "valid_civil y m d" "1000 \<le> y" "y \<le> 9999"
  shows "parseDate (toPlainDate y m d) = (y, m, d)"
proof -
  have "in_range (MakeDay y (m - 1) d)" using assms by (simp add: in_range_def civil_MakeDay[OF assms(1)])
  from parse_plain[OF this] show ?thesis
    by (simp add: plain_MakeDay[OF assms(1), symmetric] civil_of_def civil_MakeDay[OF assms(1)])
qed

theorem statement_rolls_over_witness:
  "is_previousBalance (buildInvoiceStatement demo_cycle (nextKey (keyOf 2024 3)) (toPlainDate 2024 3 3) demo_entries)
   = is_total (buildInvoiceStatement demo_cycle (keyOf 2024 3) (toPlainDate 2024 3 3) demo_entries)"
proof (rule statement_rolls_over[OF demo_cycle_valid])
  fix e assume "e \<in> set demo_entries"
  then show "calendar_day (se_date e)"
    using demo_date_valid by (auto simp: demo_entries_def calendar_day_def parse_civil_date)
qed simp_all

section \<open>The statement and the stored debt\<close>











end
