(* ===== verification/World.thy ===== *)
theory World
  imports Books Invoice Complex_Main
begin

text \<open>
  What the services share: the category entity
  (src/src/modules/category), the state of the program between two requests, the
  date provider they are given, and the report generation counter they bump.
\<close>

section \<open>Categories\<close>

record category =
  cat_id :: string
  cat_workspaceId :: "string option"
  cat_name :: string
  cat_type :: TransactionType
  cat_parentId :: "string option"
  cat_isSystemCategory :: bool

definition Category_create :: "category \<Rightarrow> category either" where
  "Category_create c =
     (if cat_name c = [] \<or> blank (cat_name c) then left_category InvalidCategoryNameError
      else if cat_parentId c = Some []
        then left_category (InvalidParentCategoryError ''O ID da categoria pai nao pode ser vazio.'')
      else if cat_id c \<noteq> [] \<and> cat_parentId c = Some (cat_id c)
        then left_category (InvalidParentCategoryError ''Uma categoria nao pode pertencer a si mesma.'')
      else Inr c)"

definition category_updateName :: "string \<Rightarrow> category \<Rightarrow> category either" where
  "category_updateName newName c =
     (if cat_isSystemCategory c then left_category SystemCategoryModificationError
      else if newName = [] \<or> blank newName then left_category InvalidCategoryNameError
      else Inr (c\<lparr>cat_name := newName\<rparr>))"

definition category_moveToParent :: "string option \<Rightarrow> category \<Rightarrow> category either" where
  "category_moveToParent newParentId c =
     (if cat_isSystemCategory c then left_category SystemCategoryModificationError
      else if newParentId = Some []
        then left_category (InvalidParentCategoryError ''O ID da categoria pai nao pode ser vazio.'')
      else if cat_id c \<noteq> [] \<and> newParentId = Some (cat_id c)
        then left_category (InvalidParentCategoryError ''Uma categoria nao pode pertencer a si mesma.'')
      else Inr (c\<lparr>cat_parentId := newParentId\<rparr>))"

text \<open>\<open>SYSTEM_CATEGORY\<close>: the ids of the two categories the backend assigns itself.\<close>

definition SYSTEM_CATEGORY_TRANSFER :: string where
  "SYSTEM_CATEGORY_TRANSFER = ''19323ba9-e496-4db9-9c22-b2a5c7cb790e''"

definition SYSTEM_CATEGORY_CREDIT_CARD_PAYMENT :: string where
  "SYSTEM_CATEGORY_CREDIT_CARD_PAYMENT = ''0d19bbf8-b66a-4cc2-9c7c-3fcd961f06b1''"

text \<open>\<open>BigInt(n)\<close> of a number: a RangeError when it is not an integer.\<close>

definition js_BigInt :: "rat \<Rightarrow> int either" where
  "js_BigInt x = (if of_int \<lfloor>x\<rfloor> = x then Inr \<lfloor>x\<rfloor>
     else throw_js ''The number cannot be converted to a BigInt because it is not an integer'')"

section \<open>Date provider\<close>

text \<open>
  \<open>DateProvider\<close> is implemented by calls of dayjs with a time zone, so it is a
  parameter: midnight of a calendar date or of the day of an instant in a zone,
  calendar addition, formatting. Instants are milliseconds. A service gets the
  time \<open>now\<close> of its request as an argument of its own.
\<close>

datatype date_unit = Day | Month | Year

record date_provider =
  dp_startOfDay :: "string \<Rightarrow> string \<Rightarrow> int"
  dp_startOfDayAt :: "int \<Rightarrow> string \<Rightarrow> int"
  dp_add :: "int \<Rightarrow> int \<Rightarrow> date_unit \<Rightarrow> string \<Rightarrow> int"
  dp_format :: "int \<Rightarrow> string \<Rightarrow> string \<Rightarrow> string"

section \<open>The state between requests\<close>

text \<open>
  The tables the services read and write, and the keys on which
  \<open>CacheProvider.incrementCounter\<close> has been called, oldest first.
\<close>

record world =
  w_db :: db
  w_categories :: "category list"
  w_users :: "string list"
  w_increments :: "string list"

definition reportGenerationKey :: "string \<Rightarrow> string" where
  "reportGenerationKey workspaceId = ''cache-gen:report:'' @ workspaceId"

definition bumpReportGeneration :: "string \<Rightarrow> world \<Rightarrow> world" where
  "bumpReportGeneration ws w = w\<lparr>w_increments := w_increments w @ [reportGenerationKey ws]\<rparr>"

definition with_db :: "db \<Rightarrow> world \<Rightarrow> world" where
  "with_db d w = w\<lparr>w_db := d\<rparr>"

definition category_findById :: "world \<Rightarrow> string \<Rightarrow> category option either" where
  "category_findById w cid = (case find_row (\<lambda>c. cat_id c = cid) (w_categories w) of
      None \<Rightarrow> Inr None
    | Some raw \<Rightarrow> (case Category_create raw of Inl e \<Rightarrow> Inl e | Inr c \<Rightarrow> Inr (Some c)))"

text \<open>The test \<open>account?.workspaceId !== workspaceId\<close> of the services.\<close>

definition foreign :: "account option \<Rightarrow> string \<Rightarrow> bool" where
  "foreign acc ws = (case acc of None \<Rightarrow> True | Some a \<Rightarrow> workspace_of a \<noteq> ws)"

definition category_foreign :: "category \<Rightarrow> string \<Rightarrow> bool" where
  "category_foreign c ws = (\<not> falsy (cat_workspaceId c) \<and> cat_workspaceId c \<noteq> Some ws)"

lemma findById_own:
  "account_findById d i = Inr acc \<Longrightarrow> \<not> foreign acc ws \<Longrightarrow>
     \<exists>r a. acc = Some a \<and> account_row_of d i = Some r \<and> account_toDomain r = Inr a
       \<and> row_workspaceId r = ws \<and> row_id r = i"
  by (auto simp: account_findById_def foreign_def and_then_Inr_iff account_row_of_def
      dest: toDomain_row_facts find_row_SomeD split: option.splits)

end
