(* ===== verification/Schedule.thy ===== *)
theory Schedule
  imports World Recurring
begin

text \<open>
  Schedules of recurring transactions: src/src/utils/installmentSchedule.ts, the
  service CalculateNextGenerationDateService and
  \<open>MoneyUtils.splitIntoInstallments\<close>; then the laws of calendar addition they rely
  on, as locales, and the fixed-offset calendar that satisfies them.
\<close>

section \<open>installmentSchedule.ts\<close>

definition MAX_INSTALLMENTS :: int where "MAX_INSTALLMENTS = 365"
definition DAYS_PER_WEEK :: int where "DAYS_PER_WEEK = 7"
definition HALF_DAY_IN_MS :: int where "HALF_DAY_IN_MS = 12 * 60 * 60 * 1000"
definition LOCAL_DATE_FORMAT :: string where "LOCAL_DATE_FORMAT = ''YYYY-MM-DD''"

record schedule =
  sc_startDate :: int
  sc_frequency :: RecurrenceFrequency
  sc_interval :: int
  sc_timezone :: string

definition addOccurrences :: "date_provider \<Rightarrow> schedule \<Rightarrow> int \<Rightarrow> int" where
  "addOccurrences dp s occurrences =
     (case sc_frequency s of
        WEEKLY \<Rightarrow> dp_add dp (sc_startDate s) (sc_interval s * DAYS_PER_WEEK * occurrences) Day (sc_timezone s)
      | MONTHLY \<Rightarrow> dp_add dp (sc_startDate s) (sc_interval s * occurrences) Month (sc_timezone s)
      | YEARLY \<Rightarrow> dp_add dp (sc_startDate s) (sc_interval s * occurrences) Year (sc_timezone s))"

definition nextOccurrence :: "date_provider \<Rightarrow> schedule \<Rightarrow> int" where
  "nextOccurrence dp s = addOccurrences dp s 1"

definition calculateInstallmentEndDate :: "date_provider \<Rightarrow> schedule \<Rightarrow> int \<Rightarrow> int" where
  "calculateInstallmentEndDate dp s installments = addOccurrences dp s (installments - 1)"

definition localCalendarDate :: "date_provider \<Rightarrow> int \<Rightarrow> string \<Rightarrow> string" where
  "localCalendarDate dp date tz = dp_format dp date LOCAL_DATE_FORMAT tz"

definition localNoonOfStartDay :: "date_provider \<Rightarrow> schedule \<Rightarrow> int" where
  "localNoonOfStartDay dp s =
     dp_startOfDay dp (localCalendarDate dp (sc_startDate s) (sc_timezone s)) (sc_timezone s) + HALF_DAY_IN_MS"

fun infer_loop :: "date_provider \<Rightarrow> schedule \<Rightarrow> schedule \<Rightarrow> string \<Rightarrow> int list \<Rightarrow> int option" where
  "infer_loop dp noon s target [] = None"
| "infer_loop dp noon s target (n # ns) =
     (let calendarDate = localCalendarDate dp (calculateInstallmentEndDate dp noon n) (sc_timezone s);
          storedDate = localCalendarDate dp (calculateInstallmentEndDate dp s n) (sc_timezone s)
      in if calendarDate = target \<or> storedDate = target then Some n
         else if calendarDate > target \<and> storedDate > target then None
         else infer_loop dp noon s target ns)"

definition inferInstallmentCount :: "date_provider \<Rightarrow> schedule \<Rightarrow> int \<Rightarrow> int option" where
  "inferInstallmentCount dp s endDate =
     infer_loop dp (s\<lparr>sc_startDate := localNoonOfStartDay dp s\<rparr>) s
       (localCalendarDate dp endDate (sc_timezone s)) [1..MAX_INSTALLMENTS]"

section \<open>Next generation date and split\<close>

definition nextGenerationDate :: "date_provider \<Rightarrow> int \<Rightarrow> RecurrenceFrequency \<Rightarrow> int \<Rightarrow> string \<Rightarrow> int" where
  "nextGenerationDate dp baseDate frequency intv tz =
     (case frequency of
        WEEKLY \<Rightarrow> dp_add dp baseDate (intv * 7) Day tz
      | MONTHLY \<Rightarrow> dp_add dp baseDate intv Month tz
      | YEARLY \<Rightarrow> dp_add dp baseDate intv Year tz)"

definition splitIntoInstallments :: "int \<Rightarrow> int \<Rightarrow> int either" where
  "splitIntoInstallments totalAmountCents installments =
     (if installments \<le> 0 then throw_js ''O numero de parcelas deve ser maior que zero''
      else if totalAmountCents \<le> 0 then throw_js ''O valor total deve ser maior que zero''
      else Inr (bigint_div totalAmountCents installments))"

section \<open>Calendar addition on day numbers\<close>

definition add_months :: "int \<Rightarrow> int \<Rightarrow> int" where
  "add_months d n = (let i = 12 * yearFromDay d + monthFromDay d + n;
       y = i div 12; m = i mod 12
     in MakeDay y m (min (dateFromDay d) (daysInMonth y (m + 1))))"

fun cal_add :: "int \<Rightarrow> int \<Rightarrow> date_unit \<Rightarrow> int" where
  "cal_add d n Day = d + n"
| "cal_add d n Month = add_months d n"
| "cal_add d n Year = add_months d (12 * n)"

text \<open>Months counted from year 0, the day each of them starts on and its length.\<close>

definition month_no :: "int \<Rightarrow> int" where
  "month_no d = 12 * yearFromDay d + monthFromDay d"

definition month_start :: "int \<Rightarrow> int" where
  "month_start i = MakeDay (i div 12) (i mod 12) 1"

definition month_len :: "int \<Rightarrow> int" where
  "month_len i = daysInMonth (i div 12) (i mod 12 + 1)"

lemma month_len_bounds: "28 \<le> month_len i" "month_len i \<le> 31"
  using month_length[of "i mod 12 + 1" "leap (i div 12)"] mod12[of i]
  by (simp_all add: month_len_def daysInMonth_eq)

lemma month_start_Suc: "month_start (i + 1) = month_start i + month_len i"
proof (cases "i mod 12 = 11")
  case True
  have "(i + 1) div 12 = i div 12 + 1" "(i + 1) mod 12 = 0"
    using True mult_div_mod_eq[of 12 i] by presburger+
  with True show ?thesis
    by (simp add: month_start_def month_len_def daysInMonth_eq MakeDay_simple dayFromYear_Suc)
next
  case False
  have "(i + 1) div 12 = i div 12" "(i + 1) mod 12 = i mod 12 + 1"
    using False mod12[of i] mult_div_mod_eq[of 12 i] by presburger+
  with False mod12[of i] show ?thesis
    by (simp add: month_start_def month_len_def daysInMonth_eq MakeDay_simple)
qed

lemma month_day_civil:
  assumes "1 \<le> k" "k \<le> month_len i"
  shows "yearFromDay (month_start i + k - 1) = i div 12" "monthFromDay (month_start i + k - 1) = i mod 12"
    "dateFromDay (month_start i + k - 1) = k" "month_no (month_start i + k - 1) = i"
proof -
  have v: "valid_civil (i div 12) (i mod 12 + 1) k"
    using assms mod12[of i] by (simp add: valid_civil_def month_len_def daysInMonth_eq)
  have "MakeDay (i div 12) (i mod 12) k = month_start i + k - 1"
    using MakeDay_add[of "i div 12" "i mod 12" 1 "k - 1"] by (simp add: month_start_def)
  with civil_MakeDay[OF v] show "yearFromDay (month_start i + k - 1) = i div 12"
    "monthFromDay (month_start i + k - 1) = i mod 12" "dateFromDay (month_start i + k - 1) = k"
    by simp_all
  then show "month_no (month_start i + k - 1) = i" by (simp add: month_no_def)
qed

lemma day_in_month:
  "d = month_start (month_no d) + dateFromDay d - 1" "1 \<le> dateFromDay d" "dateFromDay d \<le> month_len (month_no d)"
proof -
  have dm: "month_no d div 12 = yearFromDay d" "month_no d mod 12 = monthFromDay d"
    using index_div_mod[OF month_bounds] by (simp_all add: month_no_def)
  show "1 \<le> dateFromDay d" "dateFromDay d \<le> month_len (month_no d)"
    using civil_valid[of d] month_bounds[of d] by (simp_all add: valid_civil_def month_len_def dm daysInMonth_eq)
  show "d = month_start (month_no d) + dateFromDay d - 1"
    using MakeDay_add[of "yearFromDay d" "monthFromDay d" 1 "dateFromDay d - 1"] MakeDay_civil[of d]
    by (simp add: month_start_def dm)
qed

lemma add_months_eq:
  "add_months d n = month_start (month_no d + n) + min (dateFromDay d) (month_len (month_no d + n)) - 1"
  using MakeDay_add[of "(month_no d + n) div 12" "(month_no d + n) mod 12" 1
      "min (dateFromDay d) (month_len (month_no d + n)) - 1"]
  by (simp add: add_months_def month_start_def month_len_def month_no_def Let_def)

lemma month_no_add_months: "month_no (add_months d n) = month_no d + n"
  "dateFromDay (add_months d n) = min (dateFromDay d) (month_len (month_no d + n))"
  unfolding add_months_eq
  using month_day_civil(3,4)[of "min (dateFromDay d) (month_len (month_no d + n))" "month_no d + n"]
    day_in_month(2)[of d] month_len_bounds(1)[of "month_no d + n"]
  by simp_all

lemma add_months_step: "add_months d n + 28 \<le> add_months d (n + 1)"
  using month_start_Suc[of "month_no d + n"] month_len_bounds[of "month_no d + n"]
    month_len_bounds[of "month_no d + n + 1"] day_in_month(2)[of d]
  by (simp add: add_months_eq add.assoc)

lemma add_months_gap: "m < n \<Longrightarrow> add_months d m + 28 \<le> add_months d n"
proof (induction n rule: int_gr_induct)
  case base then show ?case by (rule add_months_step)
next
  case (step n) then show ?case using add_months_step[of d n] by linarith
qed

lemma month_start_mono: "i < j \<Longrightarrow> month_start i < month_start j"
proof (induction j rule: int_gr_induct)
  case base then show ?case using month_len_bounds(1)[of i] by (simp add: month_start_Suc)
next
  case (step j) then show ?case using month_len_bounds(1)[of j] by (simp add: month_start_Suc)
qed

lemma add_months_0: "add_months d 0 = d"
  using day_in_month[of d] by (simp add: add_months_eq)

lemma cal_add_0: "cal_add d 0 u = d"
  by (cases u) (simp_all add: add_months_0)

text \<open>Occurrences of a schedule are at least a week apart.\<close>

definition occurrence_day :: "int \<Rightarrow> RecurrenceFrequency \<Rightarrow> int \<Rightarrow> int \<Rightarrow> int" where
  "occurrence_day d frequency intv k =
     (case frequency of WEEKLY \<Rightarrow> cal_add d (intv * 7 * k) Day
        | MONTHLY \<Rightarrow> cal_add d (intv * k) Month | YEARLY \<Rightarrow> cal_add d (intv * k) Year)"

lemma occurrence_gap:
  assumes "0 < intv" "k < l"
  shows "occurrence_day d f intv k + 7 \<le> occurrence_day d f intv l"
proof -
  have kl: "intv * k < intv * l" using assms by simp
  have "intv * (l - k) \<ge> 1" using assms by (simp add: int_one_le_iff_zero_less)
  then have "intv * 7 * k + 7 \<le> intv * 7 * l" by (simp add: algebra_simps)
  moreover have "add_months d (intv * k) + 28 \<le> add_months d (intv * l)" by (rule add_months_gap[OF kl])
  moreover have "add_months d (12 * (intv * k)) + 28 \<le> add_months d (12 * (intv * l))"
    using kl by (intro add_months_gap) simp
  ultimately show ?thesis by (cases f) (simp_all add: occurrence_day_def)
qed

section \<open>Laws of the date provider\<close>

text \<open>
  What dayjs promises for a zone: an instant has a local day, dates are printed as
  the strings of theory PlainDate, noon of a day lies on that day, and calendar
  addition hits the calendar day up to the one that a change of offset can move it.
\<close>

locale drifting_calendar =
  fixes dp :: date_provider and tz :: string and dayof :: "int \<Rightarrow> int"
  assumes format_day: "in_range (dayof t) \<Longrightarrow> dp_format dp t LOCAL_DATE_FORMAT tz = plain (dayof t)"
    and add_day: "\<bar>dayof (dp_add dp t n u tz) - cal_add (dayof t) n u\<bar> \<le> 1"
    and noon_day: "in_range d \<Longrightarrow> dayof (dp_startOfDay dp (plain d) tz + HALF_DAY_IN_MS) = d"
begin

lemma occurrence_near:
  assumes "sc_timezone s = tz"
  shows "\<bar>dayof (addOccurrences dp s k)
      - occurrence_day (dayof (sc_startDate s)) (sc_frequency s) (sc_interval s) k\<bar> \<le> 1"
  using assms add_day[of "sc_startDate s" "sc_interval s * 7 * k" Day]
    add_day[of "sc_startDate s" "sc_interval s * k" Month] add_day[of "sc_startDate s" "sc_interval s * k" Year]
  by (cases "sc_frequency s") (simp_all add: addOccurrences_def occurrence_day_def DAYS_PER_WEEK_def)

lemma infer_from:
  assumes s: "0 < sc_interval s" "sc_timezone s = tz" and noon: "sc_timezone noon = tz"
    "sc_frequency noon = sc_frequency s" "sc_interval noon = sc_interval s"
    "dayof (sc_startDate noon) = dayof (sc_startDate s)"
    and n: "n \<le> MAX_INSTALLMENTS"
    and lo: "in_range (dayof (sc_startDate s) - 1)"
    and hi: "in_range (occurrence_day (dayof (sc_startDate s)) (sc_frequency s) (sc_interval s) (n - 1) + 1)"
    and k: "1 \<le> k" "k \<le> n"
  shows "infer_loop dp noon s (localCalendarDate dp (calculateInstallmentEndDate dp s n) tz)
     [k..MAX_INSTALLMENTS] = Some n"
  using k
proof (induction "nat (n - k)" arbitrary: k)
  case 0
  then have "k = n" by simp
  with n s(2) show ?case by (simp add: upto_rec1)
next
  case (Suc m)
  then have k: "1 \<le> k" "k < n" and m: "m = nat (n - (k + 1))" by simp_all
  let ?o = "occurrence_day (dayof (sc_startDate s)) (sc_frequency s) (sc_interval s)"
  let ?day = "\<lambda>sch j. dayof (calculateInstallmentEndDate dp sch j)"
  have o0: "?o 0 = dayof (sc_startDate s)" by (cases "sc_frequency s") (simp_all add: occurrence_day_def add_months_0)
  have lok: "?o 0 \<le> ?o (k - 1)"
    using occurrence_gap[OF s(1), of 0 "k - 1" "dayof (sc_startDate s)" "sc_frequency s"] k
    by (cases "k = 1") auto
  have gap: "?o (k - 1) + 7 \<le> ?o (n - 1)" using occurrence_gap[OF s(1)] k by simp
  have near: "\<bar>?day s k - ?o (k - 1)\<bar> \<le> 1" "\<bar>?day s n - ?o (n - 1)\<bar> \<le> 1" "\<bar>?day noon k - ?o (k - 1)\<bar> \<le> 1"
    using occurrence_near[OF s(2)] occurrence_near[OF noon(1)] noon
    by (simp_all add: calculateInstallmentEndDate_def)
  have r: "in_range (?day s k)" "in_range (?day s n)" "in_range (?day noon k)"
    by (rule in_range_between[OF lo hi]; use near lok gap o0 in linarith)+
  have date: "localCalendarDate dp (calculateInstallmentEndDate dp sch j) tz = plain (?day sch j)"
    if "in_range (?day sch j)" for sch j
    using format_day[OF that] by (simp add: localCalendarDate_def)
  have lt: "?day s k < ?day s n" "?day noon k < ?day s n" using near gap by linarith+
  have strict: "plain (?day s k) < plain (?day s n)" "plain (?day noon k) < plain (?day s n)"
    using lt by (simp_all add: plain_less_iff r)
  have "infer_loop dp noon s (plain (?day s n)) [k + 1..MAX_INSTALLMENTS] = Some n"
    using Suc.hyps(1)[OF m] k date[OF r(2)] by simp
  moreover have "[k..MAX_INSTALLMENTS] = k # [k + 1..MAX_INSTALLMENTS]" using k n by (simp add: upto_rec1)
  ultimately show ?case
    using strict by (auto simp: date[OF r(1)] date[OF r(2)] date[OF r(3)] s(2) Let_def)
qed

lemma infer_inverts:
  assumes "0 < sc_interval s" "sc_timezone s = tz" "1 \<le> n" "n \<le> MAX_INSTALLMENTS"
    and "in_range (dayof (sc_startDate s) - 1)" "in_range (dayof (sc_startDate s))"
    and "in_range (occurrence_day (dayof (sc_startDate s)) (sc_frequency s) (sc_interval s) (n - 1) + 1)"
  shows "inferInstallmentCount dp s (calculateInstallmentEndDate dp s n) = Some n"
proof -
  have "dayof (localNoonOfStartDay dp s) = dayof (sc_startDate s)"
    using noon_day[OF assms(6)] format_day[OF assms(6)] assms(2)
    by (simp add: localNoonOfStartDay_def localCalendarDate_def)
  then show ?thesis
    unfolding inferInstallmentCount_def assms(2)
    by (intro infer_from) (use assms in simp_all)
qed

end

text \<open>A zone whose offset does not change over the schedule: addition keeps the time of day.\<close>

definition DAY_MS :: int where "DAY_MS = 86400000"

locale exact_calendar = drifting_calendar +
  assumes add_exact: "dp_add dp t n u tz = t + (cal_add (dayof t) n u - dayof t) * DAY_MS"
    and day_shift: "dayof (t + k * DAY_MS) = dayof t + k"
begin

lemma next_exact:
  "nextGenerationDate dp t f intv tz = t + (occurrence_day (dayof t) f intv 1 - dayof t) * DAY_MS"
  by (cases f) (simp_all add: nextGenerationDate_def add_exact occurrence_day_def)

lemma end_exact:
  "sc_timezone s = tz \<Longrightarrow> calculateInstallmentEndDate dp s n = sc_startDate s
     + (occurrence_day (dayof (sc_startDate s)) (sc_frequency s) (sc_interval s) (n - 1)
        - dayof (sc_startDate s)) * DAY_MS"
  by (cases "sc_frequency s")
     (simp_all add: calculateInstallmentEndDate_def addOccurrences_def add_exact occurrence_day_def DAYS_PER_WEEK_def)

end

section \<open>A calendar of fixed offsets\<close>

definition zone_day :: "int \<Rightarrow> int \<Rightarrow> int" where
  "zone_day off t = (t + off) div DAY_MS"

definition fixed_offsets :: "(string \<Rightarrow> int) \<Rightarrow> date_provider" where
  "fixed_offsets off = \<lparr>
     dp_startOfDay = (\<lambda>s tz. case parseDate s of (y, m, d) \<Rightarrow> MakeDay y (m - 1) d * DAY_MS - off tz),
     dp_startOfDayAt = (\<lambda>t tz. zone_day (off tz) t * DAY_MS - off tz),
     dp_add = (\<lambda>t n u tz. t + (cal_add (zone_day (off tz) t) n u - zone_day (off tz) t) * DAY_MS),
     dp_format = (\<lambda>t fmt tz. plain (zone_day (off tz) t))\<rparr>"

lemma zone_day_shift: "zone_day off (t + k * DAY_MS) = zone_day off t + k"
  by (simp add: zone_day_def DAY_MS_def add.commute add.left_commute)

lemma zone_day_mono: "s \<le> t \<Longrightarrow> zone_day off s \<le> zone_day off t"
  by (simp add: zone_day_def DAY_MS_def zdiv_mono1)

interpretation fixed: exact_calendar "fixed_offsets off" tz "zone_day (off tz)"
proof
  fix t n u d k
  show "dp_format (fixed_offsets off) t LOCAL_DATE_FORMAT tz = plain (zone_day (off tz) t)"
    by (simp add: fixed_offsets_def)
  show "dp_add (fixed_offsets off) t n u tz
      = t + (cal_add (zone_day (off tz) t) n u - zone_day (off tz) t) * DAY_MS"
    by (simp add: fixed_offsets_def)
  then show "\<bar>zone_day (off tz) (dp_add (fixed_offsets off) t n u tz) - cal_add (zone_day (off tz) t) n u\<bar> \<le> 1"
    by (simp add: zone_day_shift)
  show "zone_day (off tz) (t + k * DAY_MS) = zone_day (off tz) t + k" by (rule zone_day_shift)
  assume "in_range d"
  then show "zone_day (off tz) (dp_startOfDay (fixed_offsets off) (plain d) tz + HALF_DAY_IN_MS) = d"
    by (simp add: fixed_offsets_def parse_plain civil_of_def MakeDay_civil zone_day_def DAY_MS_def HALF_DAY_IN_MS_def)
qed

end
