(* ===== verification/TransactionServices.thy ===== *)
theory TransactionServices
  imports World
begin

text \<open>
  The services of src/src/modules/transaction/features that write transactions:
  create, update, delete, set status and pay a card invoice. Each takes the time of
  the request, the identifiers it draws and the state, and answers either the error
  it returns (or throws) or the next state with its result.
\<close>

section \<open>Create a transaction\<close>

record create_tx_request =
  ct_workspaceId :: string
  ct_sub :: string
  ct_accountId :: string
  ct_categoryId :: "string option"
  ct_title :: string
  ct_description :: "string option"
  ct_amount :: int
  ct_date :: string
  ct_type :: TransactionType
  ct_status :: "TransactionStatus option"
  ct_destinationAccountId :: "string option"

definition ct_validateAndFetchAccounts :: "db \<Rightarrow> create_tx_request \<Rightarrow> account either" where
  "ct_validateAndFetchAccounts d req =
     and_then (account_findById d (ct_accountId req)) (\<lambda>acc.
       if foreign acc (ct_workspaceId req) then left_shared (UnauthorizedError ''Conta origem invalida.'')
       else if ct_type req = TRANSFER then
         (if falsy (ct_destinationAccountId req) then left_tx DestinationAccountRequiredForTransferError
          else and_then (account_findById d (the (ct_destinationAccountId req))) (\<lambda>dest.
            if foreign dest (ct_workspaceId req)
            then left_shared (UnauthorizedError ''Conta destino invalida.'')
            else if account_type (the dest) = CREDIT_CARD then left_tx CreditCardTransferNotAllowedError
            else Inr (the acc)))
       else Inr (the acc))"

definition ct_resolveCategoryId :: "world \<Rightarrow> string option \<Rightarrow> string \<Rightarrow> string either" where
  "ct_resolveCategoryId w cid ws =
     (if falsy cid then Inr SYSTEM_CATEGORY_TRANSFER
      else and_then (category_findById w (the cid)) (\<lambda>category. case category of
          None \<Rightarrow> left_category CategoryNotFoundError
        | Some c \<Rightarrow> if category_foreign c ws
                    then left_shared (UnauthorizedError ''Categoria nao pertence ao workspace.'')
                    else Inr (cat_id c)))"

definition ct_resolveDateAndStatus ::
  "date_provider \<Rightarrow> int \<Rightarrow> string \<Rightarrow> TransactionStatus option \<Rightarrow> string \<Rightarrow> int \<times> TransactionStatus" where
  "ct_resolveDateAndStatus dp now date status tz =
     (let transactionDate = dp_startOfDay dp date tz; today = dp_startOfDayAt dp now tz
      in (transactionDate,
          if transactionDate > today then PENDING
          else case status of Some s \<Rightarrow> s | None \<Rightarrow> COMPLETED))"

text \<open>
  \<open>applyEffects\<close> and \<open>applyBalanceEffects\<close>. The account objects are the values of
  the locked map and are mutated in place, hence the updated map; a destination that
  is the source itself is one object.
\<close>

definition apply_at :: "(account \<Rightarrow> int \<Rightarrow> account either) \<Rightarrow> (string \<times> account) list \<Rightarrow> string \<Rightarrow> int
    \<Rightarrow> (string \<times> account) list either" where
  "apply_at op accts aid amount = (case map_of accts aid of
      None \<Rightarrow> Inr accts
    | Some a \<Rightarrow> and_then (op a amount) (\<lambda>b. Inr (AList.update aid b accts)))"

definition ct_applyEffects :: "(string \<times> account) list \<Rightarrow> string \<Rightarrow> string option \<Rightarrow> TransactionType
    \<Rightarrow> int \<Rightarrow> (string \<times> account) list either" where
  "ct_applyEffects accts source dest type amount =
     (case type of
        EXPENSE \<Rightarrow> apply_at applyExpenseEffect accts source amount
      | INCOME \<Rightarrow> apply_at applyIncomeEffect accts source amount
      | TRANSFER \<Rightarrow> (case dest of
          None \<Rightarrow> Inr accts
        | Some target \<Rightarrow> and_then (apply_at applyExpenseEffect accts source amount)
                           (\<lambda>accts'. apply_at applyIncomeEffect accts' target amount)))"

definition ct_applyBalanceEffects :: "transaction \<Rightarrow> create_mutation" where
  "ct_applyBalanceEffects t accts =
     (if tx_status t \<noteq> COMPLETED then Inr []
      else case map_of accts (tx_accountId t) of
        None \<Rightarrow> left_account (AccountNotFoundError ''Conta nao encontrada.'')
      | Some a \<Rightarrow>
          let dest = (if falsy (tx_destinationAccountId t) then None
                      else map_of accts (the (tx_destinationAccountId t)))
          in if \<not> falsy (tx_destinationAccountId t) \<and> dest = None
             then left_account (AccountNotFoundError ''Conta nao encontrada.'')
             else let before = [(account_id a, balance a)];
                      balancesBefore = (case dest of None \<Rightarrow> before
                         | Some b \<Rightarrow> AList.update (account_id b) (balance b) before)
                  in and_then (ct_applyEffects accts (account_id a) (map_option (\<lambda>b. account_id b) dest)
                                 (tx_type t) (tx_amount t))
                       (\<lambda>accts'. Inr (balance_deltas accts' balancesBefore)))"

definition createTransaction :: "date_provider \<Rightarrow> int \<Rightarrow> string \<Rightarrow> create_tx_request \<Rightarrow> world
    \<Rightarrow> (world \<times> transaction) either" where
  "createTransaction dp now uuid req w =
     and_then (ct_validateAndFetchAccounts (w_db w) req) (\<lambda>acc.
     and_then (ct_resolveCategoryId w (ct_categoryId req) (ct_workspaceId req)) (\<lambda>categoryId.
     case ct_resolveDateAndStatus dp now (ct_date req) (ct_status req) (acc_timezone (base_of acc)) of
       (transactionDate, resolvedStatus) \<Rightarrow>
     and_then (Transaction_create now
        \<lparr>tx_workspaceId = ct_workspaceId req, tx_accountId = ct_accountId req, tx_categoryId = categoryId,
         tx_destinationAccountId = ct_destinationAccountId req, tx_title = ct_title req,
         tx_description = ct_description req, tx_amount = ct_amount req, tx_date = transactionDate,
         tx_type = ct_type req, tx_installmentGroupId = None, tx_installmentNumber = None,
         tx_installmentCount = None, tx_recurringId = None, tx_invoicePeriodMonth = None,
         tx_invoicePeriodYear = None\<rparr> (Some resolvedStatus) None None []) (\<lambda>t.
     and_then (createWithBalanceUpdate uuid t (ct_applyBalanceEffects t)
                 \<lparr>ctx_cause = None, ctx_actorId = ct_sub req\<rparr> (w_db w)) (\<lambda>d.
     Inr (bumpReportGeneration (ct_workspaceId req) (with_db d w),
          t\<lparr>tx_id := ensureEntityId uuid (tx_id t)\<rparr>)))))"

section \<open>Update a transaction\<close>

record update_tx_request =
  ut_transactionId :: string
  ut_workspaceId :: string
  ut_sub :: string
  ut_accountId :: string
  ut_categoryId :: "string option"
  ut_title :: string
  ut_description :: "string option"
  ut_amount :: int
  ut_date :: string
  ut_type :: TransactionType
  ut_status :: TransactionStatus
  ut_destinationAccountId :: "string option"

text \<open>The ids in the order the \<open>Set\<close> of the source keeps them: by first insertion.\<close>

definition ut_accountIds :: "transaction \<Rightarrow> update_tx_request \<Rightarrow> string list" where
  "ut_accountIds oldTx req = rev (remdups (rev ([tx_accountId oldTx, ut_accountId req]
     @ (if falsy (tx_destinationAccountId oldTx) then [] else [the (tx_destinationAccountId oldTx)])
     @ (if ut_type req = TRANSFER \<and> \<not> falsy (ut_destinationAccountId req)
        then [the (ut_destinationAccountId req)] else []))))"

definition ut_fetchInvolvedAccounts ::
  "db \<Rightarrow> transaction \<Rightarrow> update_tx_request \<Rightarrow> (string \<times> account) list either" where
  "ut_fetchInvolvedAccounts d oldTx req =
     and_then (traverse (\<lambda>i. and_then (account_findById d i) (\<lambda>acc.
          if foreign acc (ut_workspaceId req)
          then left_shared (UnauthorizedError ''Conta invalida ou acesso negado.'')
          else Inr (i, the acc))) (ut_accountIds oldTx req)) (\<lambda>accountsMap.
       if ut_type req = TRANSFER \<and> ut_destinationAccountId req = Some (ut_accountId req)
       then left_tx SourceAndDestinationAccountMustBeDifferentError
       else let destination = (if falsy (ut_destinationAccountId req) then None
                               else map_of accountsMap (the (ut_destinationAccountId req)))
            in if ut_type req = TRANSFER \<and> (case destination of Some a \<Rightarrow> is_CreditCard a | None \<Rightarrow> False)
               then left_tx CreditCardTransferNotAllowedError
               else Inr accountsMap)"

definition ut_resolveCategoryId :: "world \<Rightarrow> update_tx_request \<Rightarrow> string either" where
  "ut_resolveCategoryId w req =
     (if falsy (ut_categoryId req) then Inr SYSTEM_CATEGORY_TRANSFER
      else and_then (category_findById w (the (ut_categoryId req))) (\<lambda>category. case category of
          None \<Rightarrow> left_shared (UnauthorizedError ''Categoria invalida.'')
        | Some c \<Rightarrow> if category_foreign c (ut_workspaceId req)
                    then left_shared (UnauthorizedError ''Categoria invalida.'')
                    else Inr (the (ut_categoryId req))))"

text \<open>The installment and invoice fields are not among the fields of the request.\<close>

definition ut_buildUpdatedTransaction :: "int \<Rightarrow> update_tx_request \<Rightarrow> string \<Rightarrow> int \<Rightarrow> TransactionStatus
    \<Rightarrow> transaction \<Rightarrow> transaction either" where
  "ut_buildUpdatedTransaction now req categoryId date status cur =
     Transaction_create now
        \<lparr>tx_workspaceId = ut_workspaceId req, tx_accountId = ut_accountId req, tx_categoryId = categoryId,
         tx_destinationAccountId = ut_destinationAccountId req, tx_title = ut_title req,
         tx_description = ut_description req, tx_amount = ut_amount req, tx_date = date,
         tx_type = ut_type req, tx_installmentGroupId = None, tx_installmentNumber = None,
         tx_installmentCount = None, tx_recurringId = tx_recurringId cur,
         tx_invoicePeriodMonth = None, tx_invoicePeriodYear = None\<rparr>
        (Some status) (Some (tx_createdAt cur)) (Some now) (tx_id cur)"

definition updateTransaction :: "date_provider \<Rightarrow> int \<Rightarrow> update_tx_request \<Rightarrow> world
    \<Rightarrow> (world \<times> transaction) either" where
  "updateTransaction dp now req w =
     (case transaction_of (w_db w) (ut_transactionId req) of
        None \<Rightarrow> left_tx TransactionNotFoundError
      | Some currentTx \<Rightarrow>
          if tx_workspaceId currentTx \<noteq> ut_workspaceId req then left_tx TransactionNotFoundError
          else and_then (ut_fetchInvolvedAccounts (w_db w) currentTx req) (\<lambda>accountsMap.
          and_then (ut_resolveCategoryId w req) (\<lambda>categoryId.
          let tz = acc_timezone (base_of (the (map_of accountsMap (ut_accountId req))));
              date = dp_startOfDay dp (ut_date req) tz;
              today = dp_startOfDayAt dp now tz;
              status = (if date > today then PENDING else ut_status req)
          in and_then (updateWithBalanceEffect (ut_transactionId req)
                         (ut_buildUpdatedTransaction now req categoryId date status)
                         \<lparr>ctx_cause = None, ctx_actorId = ut_sub req\<rparr> (w_db w)) (\<lambda>(d, t).
             Inr (bumpReportGeneration (ut_workspaceId req) (with_db d w), t)))))"

section \<open>Delete and change of status\<close>

definition deleteTransaction :: "string \<Rightarrow> string \<Rightarrow> string \<Rightarrow> world \<Rightarrow> (world \<times> unit) either" where
  "deleteTransaction tid ws sub w =
     (case transaction_of (w_db w) tid of
        None \<Rightarrow> left_tx TransactionNotFoundError
      | Some t \<Rightarrow>
          if tx_workspaceId t \<noteq> ws
          then left_shared (UnauthorizedError ''Transacao nao pertence ao workspace.'')
          else and_then (deleteWithBalanceEffect (tx_id t) \<lparr>ctx_cause = None, ctx_actorId = sub\<rparr> (w_db w))
                 (\<lambda>(d, deleted). if \<not> deleted then left_tx TransactionNotFoundError
                    else Inr (bumpReportGeneration ws (with_db d w), ())))"

definition setTransactionStatus :: "int \<Rightarrow> string \<Rightarrow> string \<Rightarrow> string \<Rightarrow> TransactionStatus \<Rightarrow> world
    \<Rightarrow> (world \<times> transaction) either" where
  "setTransactionStatus now tid ws sub status w =
     and_then (updateStatusWithBalanceEffect now
         \<lparr>sp_transactionId = tid, sp_workspaceId = ws, sp_status = status, sp_scheduledSettlement = False\<rparr>
         \<lparr>ctx_cause = None, ctx_actorId = sub\<rparr> (w_db w))
       (\<lambda>(d, t). Inr (bumpReportGeneration ws (with_db d w), t))"

section \<open>Pay a card invoice\<close>

record pay_request =
  py_workspaceId :: string
  py_sub :: string
  py_sourceAccountId :: string
  py_creditCardAccountId :: string
  py_amount :: rat
  py_categoryId :: "string option"
  py_description :: "string option"
  py_month :: int
  py_year :: int

definition py_validateDestinationAccount :: "db \<Rightarrow> pay_request \<Rightarrow> account either" where
  "py_validateDestinationAccount d req =
     and_then (account_findById d (py_creditCardAccountId req)) (\<lambda>found.
       if foreign found (py_workspaceId req) then left_account (AccountNotFoundError [])
       else if py_sourceAccountId req = py_creditCardAccountId req
         then left_tx SourceAndDestinationAccountMustBeDifferentError
       else if \<not> is_CreditCard (the found)
         then left_account (InvalidAccountError ''A conta de destino deve ser um cartao de credito.'')
       else Inr (the found))"

definition py_validateSourceAccount :: "db \<Rightarrow> pay_request \<Rightarrow> account either" where
  "py_validateSourceAccount d req =
     and_then (account_findById d (py_sourceAccountId req)) (\<lambda>source.
       if foreign source (py_workspaceId req)
       then left_account (AccountNotFoundError ''Conta de origem nao encontrada.'')
       else if is_CreditCard (the source) then left_tx CannotPayInvoiceWithCreditCardError
       else Inr (the source))"

text \<open>An absent month or year of the request is 0, as falsy as in the source.\<close>

definition py_explicitInvoiceKey :: "pay_request \<Rightarrow> InvoiceKey option" where
  "py_explicitInvoiceKey req =
     (if py_month req = 0 \<or> py_year req = 0 then None
      else Some (js_string (py_year req) @ ''-'' @ pad (py_month req)))"

text \<open>\<open>debit\<close> as the subclasses inherit or override it.\<close>

fun debit :: "account \<Rightarrow> int \<Rightarrow> account either" where
  "debit (CashAccount p) amount = and_then (base_debit p amount) (Inr \<circ> CashAccount)"
| "debit (CheckingAccount p) amount = and_then (checking_debit p amount) (Inr \<circ> CheckingAccount)"
| "debit (CreditCard p c) amount = and_then (base_debit p amount) (\<lambda>p'. Inr (CreditCard p' c))"
| "debit (InvestmentAccount p) amount = and_then (base_debit p amount) (Inr \<circ> InvestmentAccount)"

text \<open>\<open>payInvoice\<close> of the account the locked map holds for the card.\<close>

fun card_payInvoice :: "account \<Rightarrow> int \<Rightarrow> account either" where
  "card_payInvoice (CreditCard p c) amount = and_then (payInvoice p amount) (\<lambda>p'. Inr (CreditCard p' c))"
| "card_payInvoice a amount =
     left_account (InvalidAccountError ''A conta de destino deve ser um cartao de credito.'')"

definition py_applyPaymentEffects :: "transaction \<Rightarrow> create_mutation" where
  "py_applyPaymentEffects t accts =
     (case map_of accts (tx_accountId t) of
        None \<Rightarrow> left_account (AccountNotFoundError ''Conta de origem nao encontrada.'')
      | Some source \<Rightarrow>
          (case (if falsy (tx_destinationAccountId t) then None
                 else map_of accts (the (tx_destinationAccountId t))) of
             None \<Rightarrow> left_account (AccountNotFoundError [])
           | Some dest \<Rightarrow>
               if \<not> is_CreditCard dest
               then left_account (InvalidAccountError ''A conta de destino deve ser um cartao de credito.'')
               else and_then (debit source (tx_amount t)) (\<lambda>source'.
                    and_then (card_payInvoice dest (tx_amount t)) (\<lambda>dest'.
                    Inr (AList.update (account_id dest') (balance dest' - balance dest)
                           [(account_id source', balance source' - balance source)])))))"

definition py_periodMonth :: "InvoiceKey \<Rightarrow> int" where
  "py_periodMonth key = js_number (take 2 (drop 5 key))"

definition py_periodYear :: "InvoiceKey \<Rightarrow> int" where
  "py_periodYear key = js_number (take 4 key)"

definition payCreditCardInvoice :: "date_provider \<Rightarrow> int \<Rightarrow> string \<Rightarrow> pay_request \<Rightarrow> world
    \<Rightarrow> (world \<times> transaction) either" where
  "payCreditCardInvoice dp now uuid req w =
     and_then (py_validateDestinationAccount (w_db w) req) (\<lambda>creditCard.
     and_then (py_validateSourceAccount (w_db w) req) (\<lambda>source.
     and_then (js_BigInt (py_amount req)) (\<lambda>amountBigInt.
     let tz = acc_timezone (base_of creditCard);
         today = dp_startOfDayAt dp now tz;
         paidAt = dp_format dp now ''DD/MM/YYYY - HH:mm:ss'' tz
     in and_then (case creditCard of CreditCard p c \<Rightarrow> InvoiceCalendar_new
            \<lparr>cy_dueDay = dueDay c, cy_closingDaysBeforeDue = closingDaysBeforeDue c\<rparr>
          | _ \<Rightarrow> left_account (InvalidAccountError ''A conta de destino deve ser um cartao de credito.''))
          (\<lambda>calendar.
        let invoiceKey = allocateInvoice calendar (dp_format dp now ''YYYY-MM-DD'' tz)
                           (py_explicitInvoiceKey req)
        in and_then (Transaction_create now
             \<lparr>tx_workspaceId = py_workspaceId req, tx_accountId = py_sourceAccountId req,
              tx_categoryId = (case py_categoryId req of None \<Rightarrow> SYSTEM_CATEGORY_CREDIT_CARD_PAYMENT | Some c \<Rightarrow> c),
              tx_destinationAccountId = Some (py_creditCardAccountId req),
              tx_title = ''Pagamento de Fatura '' @ name_of creditCard @ '' ('' @ invoiceKey @ '')'',
              tx_description = Some (case py_description req of Some s \<Rightarrow> s
                | None \<Rightarrow> ''Pagamento da fatura: '' @ name_of creditCard @ '' - ('' @ invoiceKey @ '') - '' @ paidAt),
              tx_amount = amountBigInt, tx_date = today, tx_type = TRANSFER,
              tx_installmentGroupId = None, tx_installmentNumber = None, tx_installmentCount = None,
              tx_recurringId = None, tx_invoicePeriodMonth = Some (py_periodMonth invoiceKey),
              tx_invoicePeriodYear = Some (py_periodYear invoiceKey)\<rparr> (Some COMPLETED) None None []) (\<lambda>t.
           and_then (createWithBalanceUpdate uuid t (py_applyPaymentEffects t)
                       \<lparr>ctx_cause = Some INVOICE_PAID, ctx_actorId = py_sub req\<rparr> (w_db w)) (\<lambda>d.
           Inr (bumpReportGeneration (py_workspaceId req) (with_db d w),
                t\<lparr>tx_id := ensureEntityId uuid (tx_id t)\<rparr>)))))))"

end
