(* ===== verification/RecurringServices.thy ===== *)
theory RecurringServices
  imports Schedule TransactionServices
begin

text \<open>
  The services of src/src/modules/transaction/features that write recurring rules:
  installment purchase, create, update, toggle and delete.
\<close>

section \<open>Installment purchase\<close>

definition MIN_PURCHASE_INSTALLMENTS :: int where "MIN_PURCHASE_INSTALLMENTS = 2"

record purchase_request =
  ip_workspaceId :: string
  ip_sub :: string
  ip_accountId :: string
  ip_categoryId :: string
  ip_title :: string
  ip_description :: "string option"
  ip_totalAmount :: int
  ip_installments :: int
  ip_purchaseDate :: string
  ip_type :: TransactionType

definition validateCategory :: "world \<Rightarrow> string \<Rightarrow> string \<Rightarrow> unit either" where
  "validateCategory w cid ws =
     and_then (category_findById w cid) (\<lambda>category. case category of
         None \<Rightarrow> left_category CategoryNotFoundError
       | Some c \<Rightarrow> if category_foreign c ws
                   then left_shared (UnauthorizedError ''Categoria nao pertence ao workspace.'')
                   else Inr ())"

definition ip_recurring :: "date_provider \<Rightarrow> purchase_request \<Rightarrow> string \<Rightarrow> int \<Rightarrow> string \<Rightarrow> int \<Rightarrow> recurring" where
  "ip_recurring dp req rid firstDate tz baseAmount =
     \<lparr>rc_id = rid, rc_workspaceId = ip_workspaceId req, rc_accountId = ip_accountId req,
      rc_destinationAccountId = None, rc_categoryId = ip_categoryId req, rc_title = ip_title req,
      rc_description = ip_description req, rc_amount = baseAmount, rc_frequency = MONTHLY,
      rc_interval = 1, rc_installmentCount = Some (ip_installments req), rc_startDate = firstDate,
      rc_endDate = Some (calculateInstallmentEndDate dp \<lparr>sc_startDate = firstDate,
          sc_frequency = MONTHLY, sc_interval = 1, sc_timezone = tz\<rparr> (ip_installments req)),
      rc_lastGenerated = Some firstDate, rc_active = True, rc_type = ip_type req\<rparr>"

definition ip_first :: "purchase_request \<Rightarrow> string \<Rightarrow> int \<Rightarrow> int \<Rightarrow> transaction_draft" where
  "ip_first req rid firstDate amount =
     \<lparr>tx_workspaceId = ip_workspaceId req, tx_accountId = ip_accountId req, tx_categoryId = ip_categoryId req,
      tx_destinationAccountId = None, tx_title = ip_title req, tx_description = ip_description req,
      tx_amount = amount, tx_date = firstDate, tx_type = ip_type req, tx_installmentGroupId = None,
      tx_installmentNumber = None, tx_installmentCount = None, tx_recurringId = Some rid,
      tx_invoicePeriodMonth = None, tx_invoicePeriodYear = None\<rparr>"

definition createInstallmentPurchase :: "date_provider \<Rightarrow> int \<Rightarrow> string \<Rightarrow> string \<Rightarrow> purchase_request \<Rightarrow> world
    \<Rightarrow> (world \<times> recurring \<times> transaction) either" where
  "createInstallmentPurchase dp now ruuid tuuid req w =
     (if ip_installments req < MIN_PURCHASE_INSTALLMENTS \<or> ip_installments req > MAX_INSTALLMENTS
      then left_tx (InstallmentCountOutOfRangeError MIN_PURCHASE_INSTALLMENTS MAX_INSTALLMENTS)
      else and_then (account_findById (w_db w) (ip_accountId req)) (\<lambda>acc.
        if foreign acc (ip_workspaceId req) then left_shared (UnauthorizedError [])
        else if account_type (the acc) = INVESTMENT then left_tx InvestmentAccountNotAllowedError
        else and_then (validateCategory w (ip_categoryId req) (ip_workspaceId req)) (\<lambda>_.
          let tz = acc_timezone (base_of (the acc));
              firstDate = dp_startOfDay dp (ip_purchaseDate req) tz;
              baseAmount = bigint_div (ip_totalAmount req) (ip_installments req);
              remainder = ip_totalAmount req - baseAmount * ip_installments req
          in and_then (RecurringTransaction_create (ip_recurring dp req ruuid firstDate tz baseAmount)) (\<lambda>r.
             and_then (Transaction_create now (ip_first req (rc_id r) firstDate (baseAmount + remainder))
                (Some (if firstDate > dp_startOfDayAt dp now tz then PENDING else COMPLETED)) None None tuuid) (\<lambda>t.
             and_then (createInstallmentPlan tuuid r t \<lparr>ctx_cause = None, ctx_actorId = ip_sub req\<rparr> (w_db w)) (\<lambda>d.
             Inr (bumpReportGeneration (ip_workspaceId req) (with_db d w), r, t)))))))"

section \<open>Create\<close>

text \<open>An absent \<open>amount\<close> is the mode with a total and a number of installments.\<close>

record create_recurring_request =
  cr_workspaceId :: string
  cr_accountId :: string
  cr_categoryId :: "string option"
  cr_destinationAccountId :: "string option"
  cr_title :: string
  cr_description :: "string option"
  cr_amount :: "int option"
  cr_totalAmount :: int
  cr_installments :: int
  cr_frequency :: RecurrenceFrequency
  cr_interval :: int
  cr_type :: TransactionType
  cr_startDate :: string
  cr_endDate :: "string option"
  cr_active :: "bool option"

definition cr_validateDestinationAccount :: "db \<Rightarrow> string option \<Rightarrow> string \<Rightarrow> unit either" where
  "cr_validateDestinationAccount d dest ws =
     (if falsy dest then Inr ()
      else and_then (account_findById d (the dest)) (\<lambda>found.
        if foreign found ws then left_shared (UnauthorizedError [])
        else if is_CreditCard (the found) then left_tx CreditCardTransferNotAllowedError
        else Inr ()))"

definition cr_resolveAmountAndEndDate :: "date_provider \<Rightarrow> create_recurring_request \<Rightarrow> int \<Rightarrow> string
    \<Rightarrow> (int \<times> int option \<times> int option) either" where
  "cr_resolveAmountAndEndDate dp req start tz =
     (case cr_amount req of
        None \<Rightarrow> and_then (splitIntoInstallments (cr_totalAmount req) (cr_installments req)) (\<lambda>amount.
          Inr (amount, Some (calculateInstallmentEndDate dp \<lparr>sc_startDate = start,
                 sc_frequency = cr_frequency req, sc_interval = cr_interval req, sc_timezone = tz\<rparr>
                 (cr_installments req)), Some (cr_installments req)))
      | Some amount \<Rightarrow> Inr (amount,
          (if falsy (cr_endDate req) then None else Some (dp_startOfDay dp (the (cr_endDate req)) tz)), None))"

definition createRecurringTransaction :: "date_provider \<Rightarrow> int \<Rightarrow> string \<Rightarrow> create_recurring_request \<Rightarrow> world
    \<Rightarrow> (world \<times> recurring) either" where
  "createRecurringTransaction dp now uuid req w =
     and_then (account_findById (w_db w) (cr_accountId req)) (\<lambda>acc.
       if foreign acc (cr_workspaceId req) then left_shared (UnauthorizedError [])
       else and_then (cr_validateDestinationAccount (w_db w) (cr_destinationAccountId req) (cr_workspaceId req)) (\<lambda>_.
       and_then (ct_resolveCategoryId w (cr_categoryId req) (cr_workspaceId req)) (\<lambda>categoryId.
         let tz = acc_timezone (base_of (the acc));
             start = dp_startOfDay dp (cr_startDate req) tz
         in if start \<le> dp_startOfDayAt dp now tz then left_tx StartDateCannotBeTodayOrPastError
            else and_then (cr_resolveAmountAndEndDate dp req start tz) (\<lambda>(amount, end, installmentCount).
              and_then (RecurringTransaction_create
                \<lparr>rc_id = [], rc_workspaceId = cr_workspaceId req, rc_accountId = cr_accountId req,
                 rc_destinationAccountId = cr_destinationAccountId req, rc_categoryId = categoryId,
                 rc_title = cr_title req, rc_description = cr_description req, rc_amount = amount,
                 rc_frequency = cr_frequency req, rc_interval = cr_interval req,
                 rc_installmentCount = installmentCount, rc_startDate = start, rc_endDate = end,
                 rc_lastGenerated = None, rc_active = (case cr_active req of None \<Rightarrow> True | Some b \<Rightarrow> b),
                 rc_type = cr_type req\<rparr>) (\<lambda>r.
              and_then (recurring_create uuid r (w_db w)) (\<lambda>(d, created).
              Inr (bumpReportGeneration (cr_workspaceId req) (with_db d w), created)))))))"

section \<open>Update\<close>

text \<open>
  A field that may be undefined is an option; one that may also be null is an
  option of an option.
\<close>

record update_recurring_request =
  ur_id :: string
  ur_workspaceId :: string
  ur_accountId :: "string option"
  ur_categoryId :: "string option option"
  ur_title :: "string option"
  ur_description :: "string option option"
  ur_amount :: "int option"
  ur_frequency :: "RecurrenceFrequency option"
  ur_interval :: "int option"
  ur_startDate :: "string option"
  ur_endDate :: "string option option"
  ur_destinationAccountId :: "string option option"

definition or_else :: "'a option \<Rightarrow> 'a \<Rightarrow> 'a" where
  "or_else x y = (case x of None \<Rightarrow> y | Some v \<Rightarrow> v)"

definition given :: "string option option \<Rightarrow> string option" where
  "given x = or_else x None"

definition ur_validateAndFetchBaseEntities :: "db \<Rightarrow> update_recurring_request \<Rightarrow> (recurring \<times> account) either" where
  "ur_validateAndFetchBaseEntities d req =
     (case recurring_of d (ur_id req) of
        None \<Rightarrow> left_tx RecurringTransactionNotFoundError
      | Some r \<Rightarrow>
          if rc_workspaceId r \<noteq> ur_workspaceId req
          then left_shared (UnauthorizedError ''Transacao nao pertence ao workspace.'')
          else and_then (account_findById d (or_else (ur_accountId req) (rc_accountId r))) (\<lambda>found.
            case found of
              None \<Rightarrow> left_account (AccountNotFoundError [])
            | Some a \<Rightarrow> if workspace_of a \<noteq> ur_workspaceId req
                        then left_shared (UnauthorizedError ''Conta invalida ou nao pertence ao workspace.'')
                        else Inr (r, a)))"

definition ur_validateDependencies :: "world \<Rightarrow> update_recurring_request \<Rightarrow> recurring \<Rightarrow> string \<Rightarrow> unit either" where
  "ur_validateDependencies w req r sourceAccountId =
     and_then (if falsy (given (ur_categoryId req)) then Inr ()
               else validateCategory w (the (given (ur_categoryId req))) (ur_workspaceId req)) (\<lambda>_.
     and_then (if falsy (given (ur_destinationAccountId req)) then Inr ()
        else and_then (account_findById (w_db w) (the (given (ur_destinationAccountId req)))) (\<lambda>dest.
          if foreign dest (ur_workspaceId req)
          then left_shared (UnauthorizedError ''Conta destino invalida ou nao pertence ao workspace.'')
          else if account_type (the dest) = CREDIT_CARD then left_tx CreditCardTransferNotAllowedError
          else Inr ())) (\<lambda>_.
       let isTransfer = (rc_type r = TRANSFER \<or> \<not> falsy (given (ur_destinationAccountId req)));
           destinationAccountId = or_else (ur_destinationAccountId req) (rc_destinationAccountId r)
       in if isTransfer \<and> destinationAccountId = Some sourceAccountId
          then left_tx SourceAndDestinationAccountMustBeDifferentError else Inr ()))"

definition ur_updateDetails :: "update_recurring_request \<Rightarrow> recurring \<Rightarrow> recurring either" where
  "ur_updateDetails req r =
     (if ur_title req = None \<and> ur_description req = None \<and> ur_categoryId req = None then Inr r
      else rc_updateDetails (or_else (ur_title req) (rc_title r))
             (or_else (ur_description req) (rc_description r))
             (or_else (given (ur_categoryId req)) (rc_categoryId r)) r)"

definition ur_updateAccount :: "string option \<Rightarrow> recurring \<Rightarrow> recurring either" where
  "ur_updateAccount aid r =
     (case aid of None \<Rightarrow> Inr r
      | Some a \<Rightarrow> if a = rc_accountId r then Inr r else rc_changeAccount a r)"

definition ur_reconcileInstallmentCount :: "date_provider \<Rightarrow> string \<Rightarrow> recurring \<Rightarrow> recurring" where
  "ur_reconcileInstallmentCount dp tz r =
     (if rc_installmentCount r = None then r
      else case rc_endDate r of
        None \<Rightarrow> rc_changeInstallmentCount None r
      | Some e \<Rightarrow> rc_changeInstallmentCount
          (inferInstallmentCount dp \<lparr>sc_startDate = rc_startDate r, sc_frequency = rc_frequency r,
             sc_interval = rc_interval r, sc_timezone = tz\<rparr> e) r)"

definition ur_updateSchedule :: "date_provider \<Rightarrow> int \<Rightarrow> string \<Rightarrow> update_recurring_request \<Rightarrow> recurring \<Rightarrow> recurring either" where
  "ur_updateSchedule dp now tz req r =
     (if ur_startDate req = None \<and> ur_endDate req = None \<and> ur_frequency req = None \<and> ur_interval req = None
      then Inr r
      else let newStartDate = (if falsy (ur_startDate req) then rc_startDate r
                               else dp_startOfDay dp (the (ur_startDate req)) tz);
               newEndDate = (case ur_endDate req of None \<Rightarrow> rc_endDate r
                  | Some e \<Rightarrow> if falsy e then None else Some (dp_startOfDay dp (the e) tz));
               startDateChanged = (ur_startDate req \<noteq> None
                  \<and> newStartDate \<noteq> dp_startOfDayAt dp (rc_startDate r) tz);
               newFrequency = or_else (ur_frequency req) (rc_frequency r);
               newInterval = or_else (ur_interval req) (rc_interval r);
               scheduleChanged = (newStartDate \<noteq> rc_startDate r \<or> newEndDate \<noteq> rc_endDate r
                  \<or> newFrequency \<noteq> rc_frequency r \<or> newInterval \<noteq> rc_interval r)
           in if startDateChanged \<and> newStartDate \<le> dp_startOfDayAt dp now tz
              then left_tx StartDateCannotBeTodayOrPastError
              else and_then (rc_updateSchedule newStartDate newEndDate newFrequency newInterval r) (\<lambda>r1.
                let r2 = (if scheduleChanged then ur_reconcileInstallmentCount dp tz r1 else r1)
                in Inr (if startDateChanged then rc_clearLastGenerated r2 else r2)))"

text \<open>The result of \<open>convertToTransfer\<close> is ignored: a refusal leaves the rule as it is.\<close>

definition ur_updateDestination :: "string option option \<Rightarrow> recurring \<Rightarrow> recurring either" where
  "ur_updateDestination dest r =
     (case dest of
        None \<Rightarrow> Inr r
      | Some None \<Rightarrow> if rc_type r = TRANSFER then left_tx CannotRemoveDestinationAccountError else Inr r
      | Some (Some a) \<Rightarrow> (case rc_convertToTransfer a r of Inl _ \<Rightarrow> Inr r | Inr r' \<Rightarrow> Inr r'))"

definition ur_applyMutations :: "date_provider \<Rightarrow> int \<Rightarrow> string \<Rightarrow> update_recurring_request \<Rightarrow> recurring \<Rightarrow> recurring either" where
  "ur_applyMutations dp now tz req r =
     and_then (ur_updateDetails req r) (\<lambda>r1.
     and_then (ur_updateAccount (ur_accountId req) r1) (\<lambda>r2.
     and_then (case ur_amount req of None \<Rightarrow> Inr r2 | Some x \<Rightarrow> rc_updateAmount x r2) (\<lambda>r3.
     and_then (ur_updateSchedule dp now tz req r3) (\<lambda>r4.
     ur_updateDestination (ur_destinationAccountId req) r4))))"

definition updateRecurringTransaction :: "date_provider \<Rightarrow> int \<Rightarrow> update_recurring_request \<Rightarrow> world
    \<Rightarrow> (world \<times> recurring) either" where
  "updateRecurringTransaction dp now req w =
     and_then (ur_validateAndFetchBaseEntities (w_db w) req) (\<lambda>(r, acc).
     and_then (ur_validateDependencies w req r (account_id acc)) (\<lambda>_.
     and_then (ur_applyMutations dp now (acc_timezone (base_of acc)) req r) (\<lambda>r'.
     and_then (recurring_update r' (w_db w)) (\<lambda>d.
     Inr (bumpReportGeneration (ur_workspaceId req) (with_db d w), r')))))"

section \<open>Toggle and delete\<close>

definition toggleActiveRecurringTransaction :: "string \<Rightarrow> string \<Rightarrow> world \<Rightarrow> (world \<times> recurring) either" where
  "toggleActiveRecurringTransaction rid ws w =
     (case recurring_of (w_db w) rid of
        None \<Rightarrow> left_tx RecurringTransactionNotFoundError
      | Some r \<Rightarrow>
          if rc_workspaceId r \<noteq> ws then left_shared (UnauthorizedError [])
          else let r' = rc_setActive (\<not> rc_active r) r
               in and_then (recurring_update r' (w_db w)) (\<lambda>d.
                  Inr (bumpReportGeneration ws (with_db d w), r')))"

definition deleteRecurringTransaction :: "string \<Rightarrow> string \<Rightarrow> world \<Rightarrow> (world \<times> unit) either" where
  "deleteRecurringTransaction rid ws w =
     (case recurring_of (w_db w) rid of
        None \<Rightarrow> left_tx RecurringTransactionNotFoundError
      | Some r \<Rightarrow>
          if rc_workspaceId r \<noteq> ws then left_shared (UnauthorizedError [])
          else and_then (recurring_delete rid (w_db w)) (\<lambda>d.
               Inr (bumpReportGeneration ws (with_db d w), ())))"

end
