(* ===== verification/AccountServices.thy ===== *)
theory AccountServices
  imports World
begin

text \<open>
  The services of src/src/modules/account/features that write accounts: create,
  update and delete. The amounts of the requests are JavaScript numbers, here
  rationals, which \<open>BigInt\<close> refuses when they are not integers.
\<close>

record create_account_request =
  ca_workspaceId :: string
  ca_sub :: string
  ca_type :: AccountType
  ca_name :: string
  ca_timezone :: string
  ca_balance :: "rat option"
  ca_creditLimit :: "rat option"
  ca_closingDaysBeforeDue :: int
  ca_dueDay :: int

definition ca_build :: "create_account_request \<Rightarrow> account either" where
  "ca_build req =
     (let opening = js_BigInt (case ca_balance req of None \<Rightarrow> 0 | Some b \<Rightarrow> b) in
      case ca_type req of
        CREDIT_CARD \<Rightarrow>
          and_then (case ca_creditLimit req of None \<Rightarrow> Inr None
                    | Some l \<Rightarrow> and_then (js_BigInt l) (Inr \<circ> Some)) (\<lambda>limit.
          CreditCard_create (ca_workspaceId req) (ca_name req) (ca_timezone req) None
            \<lparr>creditLimit = limit, closingDaysBeforeDue = ca_closingDaysBeforeDue req, dueDay = ca_dueDay req\<rparr> [])
      | CHECKING \<Rightarrow> and_then opening (\<lambda>b.
          CheckingAccount_create (ca_workspaceId req) (ca_name req) (ca_timezone req) (Some b) [])
      | CASH \<Rightarrow> and_then opening (\<lambda>b.
          CashAccount_create (ca_workspaceId req) (ca_name req) (ca_timezone req) (Some b) [])
      | INVESTMENT \<Rightarrow> and_then opening (\<lambda>b.
          InvestmentAccount_create (ca_workspaceId req) (ca_name req) (ca_timezone req) (Some b) []))"

definition createAccount :: "string \<Rightarrow> create_account_request \<Rightarrow> world \<Rightarrow> (world \<times> account) either" where
  "createAccount uuid req w =
     (if ca_sub req \<notin> set (w_users w) then left_user UserNotFoundError
      else and_then (findByNameAndWorkspaceId (w_db w) (ca_name req) (ca_workspaceId req)) (\<lambda>same.
        if same \<noteq> None
        then left_account (ConflictAccountError ''Ja existe uma conta com este nome no workspace.'')
        else and_then (ca_build req) (\<lambda>acc.
          and_then (createWithOpeningMovement uuid acc (ca_sub req) (w_db w)) (\<lambda>d.
          Inr (bumpReportGeneration (ca_workspaceId req) (with_db d w),
               map_base (\<lambda>p. p\<lparr>acc_id := ensureEntityId uuid (acc_id p)\<rparr>) acc)))))"

record update_account_request =
  ua_accountId :: string
  ua_workspaceId :: string
  ua_name :: string
  ua_closingDaysBeforeDue :: "int option"
  ua_dueDay :: "int option"
  ua_creditLimit :: "rat option"

definition ua_validateCreditCardFields :: "update_account_request \<Rightarrow> card_props \<Rightarrow> card_props either" where
  "ua_validateCreditCardFields req c =
     and_then (case (ua_closingDaysBeforeDue req, ua_dueDay req) of
         (Some closing, Some due) \<Rightarrow> updateInvoiceDates c closing due
       | _ \<Rightarrow> Inr c) (\<lambda>c'.
     case ua_creditLimit req of
       None \<Rightarrow> Inr c'
     | Some l \<Rightarrow> and_then (js_BigInt l) (\<lambda>cents. adjustLimit c' (Some cents)))"

definition ua_rename :: "db \<Rightarrow> update_account_request \<Rightarrow> account \<Rightarrow> account either" where
  "ua_rename d req acc =
     (if ua_name req = [] \<or> name_of acc = ua_name req then Inr acc
      else and_then (findByNameAndWorkspaceId d (ua_name req) (ua_workspaceId req)) (\<lambda>same.
        if (case same of None \<Rightarrow> False | Some other \<Rightarrow> account_id other \<noteq> ua_accountId req)
        then left_account (ConflictAccountError ''Ja existe uma conta com esse nome neste workspace.'')
        else updateName acc (ua_name req)))"

definition updateAccount :: "update_account_request \<Rightarrow> world \<Rightarrow> (world \<times> account) either" where
  "updateAccount req w =
     and_then (account_findById (w_db w) (ua_accountId req)) (\<lambda>found.
       if foreign found (ua_workspaceId req) then left_shared (UnauthorizedError [])
       else and_then (ua_rename (w_db w) req (the found)) (\<lambda>acc.
         and_then (case acc of
             CreditCard p c \<Rightarrow> and_then (ua_validateCreditCardFields req c) (\<lambda>c'. Inr (CreditCard p c'))
           | _ \<Rightarrow> Inr acc) (\<lambda>acc'.
         Inr (with_db (account_update acc' (w_db w)) w, acc'))))"

definition deleteAccount :: "string \<Rightarrow> string \<Rightarrow> world \<Rightarrow> (world \<times> unit) either" where
  "deleteAccount aid ws w =
     and_then (account_findById (w_db w) aid) (\<lambda>found.
       if foreign found ws then left_shared (UnauthorizedError [])
       else and_then (account_delete aid (w_db w)) (\<lambda>d.
         Inr (bumpReportGeneration ws (with_db d w), ())))"

section \<open>What the services keep\<close>

lemma ca_build_facts:
  assumes "ca_build req = Inr acc"
  shows "valid_account acc" "workspace_of acc = ca_workspaceId req" "name_of acc = ca_name req"
    "account_type acc = ca_type req" "account_id acc = []"
proof -
  have base: "workspace_of acc = ca_workspaceId req \<and> name_of acc = ca_name req
      \<and> account_type acc = ca_type req \<and> account_id acc = []"
    using assms
    by (cases "ca_type req")
       (auto simp: ca_build_def Let_def and_then_Inr_iff CreditCard_create_def CheckingAccount_create_def
        CashAccount_create_def InvestmentAccount_create_def split: if_splits)
  show "valid_account acc"
    using assms
    by (cases "ca_type req")
       (auto simp: ca_build_def Let_def and_then_Inr_iff dest: create_valid)
  show "workspace_of acc = ca_workspaceId req" "name_of acc = ca_name req"
    "account_type acc = ca_type req" "account_id acc = []" using base by simp_all
qed

lemma createAccount_Inr:
  assumes "createAccount uuid req w = Inr (w', acc')"
  obtains acc d where "ca_build req = Inr acc"
    "createWithOpeningMovement uuid acc (ca_sub req) (w_db w) = Inr d"
    "w_db w' = d" "w_increments w' = w_increments w @ [reportGenerationKey (ca_workspaceId req)]"
    "acc' = map_base (\<lambda>p. p\<lparr>acc_id := ensureEntityId uuid (acc_id p)\<rparr>) acc"
  using assms
  by (auto simp: createAccount_def and_then_Inr_iff bumpReportGeneration_def with_db_def split: if_splits)

lemma ua_rename_facts:
  "ua_rename d req acc = Inr acc' \<Longrightarrow> account_id acc' = account_id acc \<and> workspace_of acc' = workspace_of acc
     \<and> balance acc' = balance acc \<and> account_type acc' = account_type acc"
  by (cases acc) (auto simp: ua_rename_def updateName_def and_then_Inr_iff account_simps split: if_splits option.splits)

lemma updateAccount_Inr:
  assumes "updateAccount req w = Inr (w', acc')"
  obtains r a where "account_row_of (w_db w) (ua_accountId req) = Some r" "account_toDomain r = Inr a"
    "row_workspaceId r = ua_workspaceId req" "w_db w' = account_update acc' (w_db w)"
    "account_id acc' = ua_accountId req" "balance acc' = balance a"
    "account_type acc' = account_type a" "w_increments w' = w_increments w"
proof -
  from assms obtain found acc where f: "account_findById (w_db w) (ua_accountId req) = Inr found"
    "\<not> foreign found (ua_workspaceId req)" "ua_rename (w_db w) req (the found) = Inr acc"
    and c: "(case acc of CreditCard p c \<Rightarrow> and_then (ua_validateCreditCardFields req c) (\<lambda>c'. Inr (CreditCard p c'))
           | _ \<Rightarrow> Inr acc) = Inr acc'"
    and w: "w_db w' = account_update acc' (w_db w)" "w_increments w' = w_increments w"
    by (auto simp: updateAccount_def and_then_Inr_iff with_db_def split: if_splits)
  from c have same: "base_of acc' = base_of acc \<and> account_type acc' = account_type acc"
    by (cases acc) (auto simp: and_then_Inr_iff)
  from findById_own[OF f(1,2)] obtain r a where r: "found = Some a"
    "account_row_of (w_db w) (ua_accountId req) = Some r" "account_toDomain r = Inr a"
    "row_workspaceId r = ua_workspaceId req" "row_id r = ua_accountId req" by blast
  from ua_rename_facts[OF f(3)] same r toDomain_row_facts[OF r(3)] w show thesis
    by (intro that[of r a]) simp_all
qed

end
