(* ===== verification/Redis.thy ===== *)
theory Redis
  imports Errors
begin

text \<open>
  RedisService (src/src/infra/cache/redis/RedisService.ts) on a Redis server. The
  commands of the server are a parameter, their documented effect is the locale
  \<open>redis_laws\<close>; the service adds what happens when Redis is disabled, when there is
  no client and when a command fails.
\<close>

record 's redis_server =
  sv_get :: "'s \<Rightarrow> string \<Rightarrow> string option"
  sv_set :: "'s \<Rightarrow> string \<Rightarrow> string \<Rightarrow> int option \<Rightarrow> 's"
  sv_set_nx :: "'s \<Rightarrow> string \<Rightarrow> string \<Rightarrow> int option \<Rightarrow> 's \<times> bool"
  sv_del :: "'s \<Rightarrow> string \<Rightarrow> 's"
  sv_incr :: "'s \<Rightarrow> string \<Rightarrow> 's"
  sv_number :: "string option \<Rightarrow> int"

text \<open>
  \<open>rd_isEnabled\<close> is the configuration, \<open>rd_client\<close> that \<open>getClient()\<close> is not null,
  \<open>rd_answers\<close> that the commands of this call succeed, \<open>rd_store\<close> the server.
\<close>

record 's redis =
  rd_isEnabled :: bool
  rd_client :: bool
  rd_answers :: bool
  rd_store :: 's

record lock_handle =
  lk_key :: string
  lk_token :: string

definition DEFAULT_LOCK_TTL_SECONDS :: int where "DEFAULT_LOCK_TTL_SECONDS = 30"

definition reaches :: "'s redis \<Rightarrow> bool" where
  "reaches r = (rd_client r \<and> rd_answers r)"

definition redis_get :: "'s redis_server \<Rightarrow> string \<Rightarrow> 's redis \<Rightarrow> string option" where
  "redis_get sv key r = (if reaches r then sv_get sv (rd_store r) key else None)"

definition redis_set :: "'s redis_server \<Rightarrow> string \<Rightarrow> string \<Rightarrow> int option \<Rightarrow> 's redis \<Rightarrow> 's redis \<times> bool" where
  "redis_set sv key val ttl r =
     (if reaches r
      then (r\<lparr>rd_store := sv_set sv (rd_store r) key val (if ttl = Some 0 then None else ttl)\<rparr>, True)
      else (r, False))"

definition redis_del :: "'s redis_server \<Rightarrow> string \<Rightarrow> 's redis \<Rightarrow> 's redis \<times> bool" where
  "redis_del sv key r = (if reaches r then (r\<lparr>rd_store := sv_del sv (rd_store r) key\<rparr>, True) else (r, False))"

definition redis_exists :: "'s redis_server \<Rightarrow> string \<Rightarrow> 's redis \<Rightarrow> bool" where
  "redis_exists sv key r = (reaches r \<and> sv_get sv (rd_store r) key \<noteq> None)"

text \<open>\<open>token\<close> is the \<open>randomUUID()\<close> of the call.\<close>

definition acquireLock :: "'s redis_server \<Rightarrow> string \<Rightarrow> string \<Rightarrow> int \<Rightarrow> 's redis
    \<Rightarrow> ('s redis \<times> lock_handle option) either" where
  "acquireLock sv token key ttl r =
     (let lock = \<lparr>lk_key = key, lk_token = token\<rparr> in
      if \<not> rd_isEnabled r then Inr (r, Some lock)
      else if \<not> rd_client r then throw_js ''Redis client is not available''
      else if \<not> rd_answers r then throw_js ''Redis lock command failed''
      else case sv_set_nx sv (rd_store r) key token (Some ttl) of (s, ok) \<Rightarrow>
        Inr (r\<lparr>rd_store := s\<rparr>, if ok then Some lock else None))"

text \<open>The Lua script runs atomically on the server.\<close>

definition RELEASE_LOCK_SCRIPT :: "'s redis_server \<Rightarrow> string \<Rightarrow> string \<Rightarrow> 's \<Rightarrow> 's \<times> int" where
  "RELEASE_LOCK_SCRIPT sv key token s =
     (if sv_get sv s key = Some token then (sv_del sv s key, 1) else (s, 0))"

definition releaseLock :: "'s redis_server \<Rightarrow> lock_handle \<Rightarrow> 's redis \<Rightarrow> 's redis \<times> bool" where
  "releaseLock sv lock r =
     (if \<not> reaches r then (r, False)
      else case RELEASE_LOCK_SCRIPT sv (lk_key lock) (lk_token lock) (rd_store r) of
        (s, released) \<Rightarrow> (r\<lparr>rd_store := s\<rparr>, released = 1))"

text \<open>
  \<open>MULTI; SET key initial NX; GET or INCR key; EXEC\<close>: null when Redis does not
  answer, so callers see that there is no counter.
\<close>

definition readCounter :: "'s redis_server \<Rightarrow> string \<Rightarrow> string \<Rightarrow> 's redis \<Rightarrow> 's redis \<times> int option" where
  "readCounter sv key initial r =
     (if \<not> reaches r then (r, None)
      else let s = fst (sv_set_nx sv (rd_store r) key initial None)
           in (r\<lparr>rd_store := s\<rparr>, Some (sv_number sv (sv_get sv s key))))"

definition incrementCounter :: "'s redis_server \<Rightarrow> string \<Rightarrow> string \<Rightarrow> 's redis \<Rightarrow> 's redis \<times> int option" where
  "incrementCounter sv key initial r =
     (if \<not> reaches r then (r, None)
      else let s = sv_incr sv (fst (sv_set_nx sv (rd_store r) key initial None)) key
           in (r\<lparr>rd_store := s\<rparr>, Some (sv_number sv (sv_get sv s key))))"

section \<open>Laws of the server\<close>

locale redis_laws =
  fixes sv :: "'s redis_server"
  assumes set_nx_free: "sv_get sv s k = None \<Longrightarrow>
        snd (sv_set_nx sv s k v ttl) \<and> sv_get sv (fst (sv_set_nx sv s k v ttl)) k = Some v"
    and set_nx_taken: "sv_get sv s k = Some w \<Longrightarrow> sv_set_nx sv s k v ttl = (s, False)"
    and set_nx_other: "j \<noteq> k \<Longrightarrow> sv_get sv (fst (sv_set_nx sv s k v ttl)) j = sv_get sv s j"
    and set_get: "sv_get sv (sv_set sv s k v ttl) j = (if j = k then Some v else sv_get sv s j)"
    and del_get: "sv_get sv (sv_del sv s k) j = (if j = k then None else sv_get sv s j)"
    and incr_number: "sv_get sv s k = Some v \<Longrightarrow>
        sv_number sv (sv_get sv (sv_incr sv s k) k) = sv_number sv (Some v) + 1"
    and incr_kept: "sv_get sv s k \<noteq> None \<Longrightarrow> sv_get sv (sv_incr sv s k) k \<noteq> None"
    and incr_other: "j \<noteq> k \<Longrightarrow> sv_get sv (sv_incr sv s k) j = sv_get sv s j"
begin

definition held :: "'s redis \<Rightarrow> lock_handle \<Rightarrow> bool" where
  "held r l = (rd_isEnabled r \<and> sv_get sv (rd_store r) (lk_key l) = Some (lk_token l))"

lemma acquire_held:
  assumes "acquireLock sv token key ttl r = Inr (r', Some l)" "rd_isEnabled r"
  shows "held r' l" "l = \<lparr>lk_key = key, lk_token = token\<rparr>" "sv_get sv (rd_store r) key = None"
proof -
  from assms obtain s where sn: "sv_set_nx sv (rd_store r) key token (Some ttl) = (s, True)"
    and r: "r' = r\<lparr>rd_store := s\<rparr>" and l: "l = \<lparr>lk_key = key, lk_token = token\<rparr>"
    by (auto simp: acquireLock_def Let_def split: if_splits prod.splits)
  show "sv_get sv (rd_store r) key = None"
  proof (cases "sv_get sv (rd_store r) key")
    case (Some w) from set_nx_taken[OF this, of token "Some ttl"] sn show ?thesis by simp
  qed simp
  from set_nx_free[OF this, of token "Some ttl"] sn show "held r' l"
    by (simp add: held_def r l assms(2))
  show "l = \<lparr>lk_key = key, lk_token = token\<rparr>" by (rule l)
qed

lemma acquire_excluded:
  assumes "held r l" "acquireLock sv token (lk_key l) ttl r = Inr (r', got)"
  shows "got = None \<and> r' = r"
  using assms set_nx_taken[of "rd_store r" "lk_key l" "lk_token l"]
  by (auto simp: held_def acquireLock_def Let_def split: if_splits)

lemma release_other:
  assumes "held r l" "lk_key m \<noteq> lk_key l \<or> lk_token m \<noteq> lk_token l"
  shows "held (fst (releaseLock sv m r)) l"
  using assms by (auto simp: held_def releaseLock_def RELEASE_LOCK_SCRIPT_def del_get split: if_splits)

lemma release_own:
  assumes "held r l" "reaches r"
  shows "snd (releaseLock sv l r)" "sv_get sv (rd_store (fst (releaseLock sv l r))) (lk_key l) = None"
  using assms by (simp_all add: held_def releaseLock_def RELEASE_LOCK_SCRIPT_def del_get)

lemma counter_step:
  assumes "reaches r"
  shows "snd (incrementCounter sv k a r) = map_option (\<lambda>n. n + 1) (snd (readCounter sv k a r))"
proof -
  have "\<exists>v. sv_get sv (fst (sv_set_nx sv (rd_store r) k a None)) k = Some v"
    using set_nx_free[of "rd_store r" k a None] set_nx_taken[of "rd_store r" k _ a None]
    by (cases "sv_get sv (rd_store r) k") auto
  with assms show ?thesis by (auto simp: incrementCounter_def readCounter_def incr_number)
qed

end

text \<open>A server that keeps its keys in a map and ignores expiry satisfies the laws.\<close>

definition unary :: "int \<Rightarrow> string" where
  "unary n = (if 0 \<le> n then replicate (nat n) CHR ''+'' else CHR ''-'' # replicate (nat (- n)) CHR ''+'')"

definition unary_number :: "string option \<Rightarrow> int" where
  "unary_number v = (case v of None \<Rightarrow> 0
     | Some s \<Rightarrow> (case s of c # cs \<Rightarrow> if c = CHR ''-'' then - int (length cs) else int (length s) | [] \<Rightarrow> 0))"

lemma unary_number_unary [simp]: "unary_number (Some (unary n)) = n"
  by (cases "nat n") (auto simp: unary_number_def unary_def split: list.splits)

definition map_server :: "(string \<Rightarrow> string option) redis_server" where
  "map_server = \<lparr>
     sv_get = (\<lambda>s k. s k),
     sv_set = (\<lambda>s k v ttl. s(k \<mapsto> v)),
     sv_set_nx = (\<lambda>s k v ttl. if s k = None then (s(k \<mapsto> v), True) else (s, False)),
     sv_del = (\<lambda>s k. s(k := None)),
     sv_incr = (\<lambda>s k. s(k \<mapsto> unary (unary_number (s k) + 1))),
     sv_number = unary_number\<rparr>"

interpretation map_redis: redis_laws map_server
  by unfold_locales (auto simp: map_server_def)

end
