(* ===== verification/Jobs.thy ===== *)
theory Jobs
  imports RecurringServices Redis
begin

text \<open>
  The scheduled jobs that write: GenerateRecurringTransactionsJobService and
  SettleCardInstallmentsJobService
  (src/src/modules/transaction/jobs). Failures of single items are values of the
  run, as in the source, which logs them and goes on.
\<close>

section \<open>Generation of recurring transactions\<close>

definition BATCH_SIZE :: nat where "BATCH_SIZE = 50"
definition LOCK_TTL_SECONDS :: int where "LOCK_TTL_SECONDS = 300"
definition CACHE_TTL_SECONDS :: int where "CACHE_TTL_SECONDS = 86400"
definition LOOK_AHEAD_DAYS :: int where "LOOK_AHEAD_DAYS = 7"

definition RECURRING_GENERATION_TIMEZONE :: string where
  "RECURRING_GENERATION_TIMEZONE = ''America/Sao_Paulo''"

fun getMaxGenerations :: "RecurrenceFrequency \<Rightarrow> nat" where
  "getMaxGenerations WEEKLY = 104"
| "getMaxGenerations MONTHLY = 24"
| "getMaxGenerations YEARLY = 10"

definition generated_draft :: "recurring \<Rightarrow> int \<Rightarrow> transaction_draft" where
  "generated_draft r date =
     \<lparr>tx_workspaceId = rc_workspaceId r, tx_accountId = rc_accountId r, tx_categoryId = rc_categoryId r,
      tx_destinationAccountId = rc_destinationAccountId r, tx_title = rc_title r,
      tx_description = rc_description r, tx_amount = rc_amount r, tx_date = date, tx_type = rc_type r,
      tx_installmentGroupId = None, tx_installmentNumber = None, tx_installmentCount = None,
      tx_recurringId = Some (rc_id r), tx_invoicePeriodMonth = None, tx_invoicePeriodYear = None\<rparr>"

definition next_target :: "date_provider \<Rightarrow> recurring \<Rightarrow> int \<Rightarrow> int" where
  "next_target dp r base =
     nextGenerationDate dp base (rc_frequency r) (rc_interval r) RECURRING_GENERATION_TIMEZONE"

text \<open>
  The while loop; the first argument is the number of generations the safety limit
  still allows. The result is the rule, the transactions and whether one was refused.
\<close>

fun generation_loop :: "nat \<Rightarrow> date_provider \<Rightarrow> int \<Rightarrow> int \<Rightarrow> int \<Rightarrow> recurring \<Rightarrow> transaction list
    \<Rightarrow> recurring \<times> transaction list \<times> bool" where
  "generation_loop left dp now threshold target r ts =
     (if target > threshold then (r, ts, False)
      else case left of
        0 \<Rightarrow> (r, ts, False)
      | Suc left' \<Rightarrow>
          if (case rc_endDate r of None \<Rightarrow> False | Some e \<Rightarrow> target > e)
          then (rc_setActive False r, ts, False)
          else case Transaction_create now (generated_draft r target) (Some PENDING) None None [] of
              Inl e \<Rightarrow> (r, ts, True)
            | Inr t \<Rightarrow> generation_loop left' dp now threshold (next_target dp r target)
                         (rc_markAsGenerated target r) (ts @ [t]))"

declare generation_loop.simps [simp del]

record recurrence_outcome =
  ro_generatedCount :: nat
  ro_failed :: bool
  ro_persisted :: bool

definition generateTransactionsForRecurring :: "date_provider \<Rightarrow> int \<Rightarrow> (nat \<Rightarrow> string) \<Rightarrow> int \<Rightarrow> recurring
    \<Rightarrow> db \<Rightarrow> (db \<times> recurrence_outcome) either" where
  "generateTransactionsForRecurring dp now fresh threshold r d =
     (let target = (case rc_lastGenerated r of None \<Rightarrow> rc_startDate r | Some g \<Rightarrow> next_target dp r g) in
      case generation_loop (getMaxGenerations (rc_frequency r)) dp now threshold target r [] of
        (r', ts, failed) \<Rightarrow>
          if ts = [] \<and> rc_active r'
          then Inr (d, \<lparr>ro_generatedCount = 0, ro_failed = failed, ro_persisted = False\<rparr>)
          else and_then (createGeneratedTransactions fresh ts r' d) (\<lambda>(d', n).
                 Inr (d', \<lparr>ro_generatedCount = n, ro_failed = failed, ro_persisted = True\<rparr>)))"

definition generateForRecurring :: "date_provider \<Rightarrow> int \<Rightarrow> (nat \<Rightarrow> string) \<Rightarrow> int \<Rightarrow> recurring \<Rightarrow> db
    \<Rightarrow> db \<times> recurrence_outcome" where
  "generateForRecurring dp now fresh threshold r d =
     (case generateTransactionsForRecurring dp now fresh threshold r d of
        Inr res \<Rightarrow> res
      | Inl _ \<Rightarrow> (d, \<lparr>ro_generatedCount = 0, ro_failed = True, ro_persisted = False\<rparr>))"

record generation_counters =
  gc_generatedCount :: nat
  gc_failedCount :: nat
  gc_processedCount :: nat

definition add_once :: "'a \<Rightarrow> 'a list \<Rightarrow> 'a list" where
  "add_once x xs = (if x \<in> set xs then xs else xs @ [x])"

type_synonym generation_state = "db \<times> generation_counters \<times> string list"

definition generate_one :: "date_provider \<Rightarrow> int \<Rightarrow> (string \<Rightarrow> nat \<Rightarrow> string) \<Rightarrow> int \<Rightarrow> recurring
    \<Rightarrow> generation_state \<Rightarrow> generation_state" where
  "generate_one dp now fresh threshold r st = (case st of (d, c, ws) \<Rightarrow>
     case generateForRecurring dp now (fresh (rc_id r)) threshold r d of (d', out) \<Rightarrow>
       (d', \<lparr>gc_generatedCount = gc_generatedCount c + ro_generatedCount out,
             gc_failedCount = gc_failedCount c + (if ro_failed out then 1 else 0),
             gc_processedCount = gc_processedCount c + 1\<rparr>,
        if ro_persisted out then add_once (rc_workspaceId r) ws else ws))"

text \<open>
  The do-while over batches; the fuel is shown sufficient below. \<open>None\<close> means the
  fuel ran out.
\<close>

fun generate_batches :: "nat \<Rightarrow> date_provider \<Rightarrow> int \<Rightarrow> (string \<Rightarrow> nat \<Rightarrow> string) \<Rightarrow> int \<Rightarrow> string option
    \<Rightarrow> generation_state \<Rightarrow> generation_state option" where
  "generate_batches 0 dp now fresh lookAhead afterId st = None"
| "generate_batches (Suc fuel) dp now fresh lookAhead afterId st =
     (let batch = listNeedingGeneration (fst st) lookAhead BATCH_SIZE afterId;
          st' = fold (generate_one dp now fresh lookAhead) batch st
      in if length batch = BATCH_SIZE
         then generate_batches fuel dp now fresh lookAhead
                (if batch = [] then None else Some (rc_id (last batch))) st'
         else Some st')"

definition generateAll :: "date_provider \<Rightarrow> int \<Rightarrow> (string \<Rightarrow> nat \<Rightarrow> string) \<Rightarrow> int \<Rightarrow> world
    \<Rightarrow> (world \<times> generation_counters) option" where
  "generateAll dp now fresh lookAhead w =
     map_option (\<lambda>(d, c, ws). (fold bumpReportGeneration ws (with_db d w), c))
       (generate_batches (Suc (length (recurrings (w_db w)))) dp now fresh lookAhead None
          (w_db w, \<lparr>gc_generatedCount = 0, gc_failedCount = 0, gc_processedCount = 0\<rparr>, []))"

datatype RecurringGenerationOutcome = skipped_already_processed | skipped_lock_held | nothing_due
  | success | partial_failure | total_failure

definition classifyOutcome :: "generation_counters \<Rightarrow> RecurringGenerationOutcome" where
  "classifyOutcome c =
     (if gc_processedCount c = 0 then nothing_due
      else if gc_failedCount c = 0 then success
      else if gc_failedCount c = gc_processedCount c then total_failure
      else partial_failure)"

definition skippedSummary :: "RecurringGenerationOutcome \<Rightarrow> RecurringGenerationOutcome \<times> generation_counters" where
  "skippedSummary out = (out, \<lparr>gc_generatedCount = 0, gc_failedCount = 0, gc_processedCount = 0\<rparr>)"

text \<open>
  \<open>execute\<close>: the state and the lock are those of the end of the call, after the
  \<open>finally\<close>; a run whose fuel is exhausted has no value.
\<close>

definition generateRecurringTransactions :: "'s redis_server \<Rightarrow> date_provider \<Rightarrow> int
    \<Rightarrow> (string \<Rightarrow> nat \<Rightarrow> string) \<Rightarrow> string \<Rightarrow> world \<times> 's redis
    \<Rightarrow> ((world \<times> 's redis) \<times> (RecurringGenerationOutcome \<times> generation_counters) either) option" where
  "generateRecurringTransactions sv dp now fresh token st = (case st of (w, redis) \<Rightarrow>
     let day = dp_format dp now ''YYYY-MM-DD'' RECURRING_GENERATION_TIMEZONE;
         cacheKey = ''processed:recurring:'' @ day;
         lockKey = ''lock:recurring:'' @ day
     in if redis_exists sv cacheKey redis then Some (st, Inr (skippedSummary skipped_already_processed))
        else case acquireLock sv token lockKey LOCK_TTL_SECONDS redis of
            Inl (Thrown (JsError m)) \<Rightarrow> Some (st, left_tx (RecurringGenerationFailedError m))
          | Inl e \<Rightarrow> Some (st, Inl e)
          | Inr (redis1, None) \<Rightarrow> Some ((w, redis1), Inr (skippedSummary skipped_lock_held))
          | Inr (redis1, Some lock) \<Rightarrow>
              let lookAhead = dp_add dp now LOOK_AHEAD_DAYS Day RECURRING_GENERATION_TIMEZONE in
              map_option (\<lambda>(w', counters).
                let redis2 = fst (redis_set sv cacheKey ''1'' (Some CACHE_TTL_SECONDS) redis1);
                    redis3 = fst (releaseLock sv lock redis2)
                in ((w', redis3), Inr (classifyOutcome counters, counters)))
              (generateAll dp now fresh lookAhead w))"

section \<open>Settlement of card installments\<close>

definition SETTLE_BATCH_SIZE :: nat where "SETTLE_BATCH_SIZE = 500"
definition TIME_BUDGET_MS :: int where "TIME_BUDGET_MS = 30000"

definition SYSTEM_ACTOR_ID :: string where
  "SYSTEM_ACTOR_ID = ''system:settle-card-installments''"

text \<open>
  \<open>localDay tz t\<close> stands for the day Postgres computes for an instant in a zone
  (\<open>localDayIn\<close>, an SQL expression).
\<close>

definition dueCardTransactionsFilter :: "(string \<Rightarrow> int \<Rightarrow> int) \<Rightarrow> db \<Rightarrow> int \<Rightarrow> transaction \<Rightarrow> bool" where
  "dueCardTransactionsFilter localDay d now t =
     (tx_status t = PENDING \<and> (tx_recurringId t \<noteq> None \<or> tx_installmentGroupId t \<noteq> None)
      \<and> tx_type t \<in> {EXPENSE, INCOME}
      \<and> (case account_row_of d (tx_accountId t) of None \<Rightarrow> False
         | Some a \<Rightarrow> row_type a = AccountType_value CREDIT_CARD
             \<and> localDay (row_timezone a) (tx_date t) \<le> localDay (row_timezone a) now))"

definition findDueCardTransactions :: "(string \<Rightarrow> int \<Rightarrow> int) \<Rightarrow> db \<Rightarrow> int \<Rightarrow> nat \<Rightarrow> transaction list \<times> nat" where
  "findDueCardTransactions localDay d now limit =
     (let due = sort_key tx_date (sort_key tx_id (filter (dueCardTransactionsFilter localDay d now) (transactions d)))
      in (take limit due, length due))"

datatype item_result = settled | skipped | failed

definition isAlreadySettledByAnotherRun :: "app_error \<Rightarrow> bool" where
  "isAlreadySettledByAnotherRun e =
     (e = TransactionErr TransactionAlreadyCompletedError
      \<or> e = TransactionErr TransactionStatusChangedConcurrentlyError)"

definition settle :: "int \<Rightarrow> transaction \<Rightarrow> db \<Rightarrow> db \<times> item_result" where
  "settle now t d =
     (case updateStatusWithBalanceEffect now
         \<lparr>sp_transactionId = tx_id t, sp_workspaceId = tx_workspaceId t, sp_status = COMPLETED,
          sp_scheduledSettlement = True\<rparr>
         \<lparr>ctx_cause = Some STATUS_CHANGED, ctx_actorId = SYSTEM_ACTOR_ID\<rparr> d of
        Inr (d', _) \<Rightarrow> (d', settled)
      | Inl e \<Rightarrow> (d, if isAlreadySettledByAnotherRun e then skipped else failed))"

record settle_counts =
  st_settled :: nat
  st_skipped :: nat
  st_failed :: nat
  st_processed :: nat

fun count_result :: "item_result \<Rightarrow> settle_counts \<Rightarrow> settle_counts" where
  "count_result settled c = c\<lparr>st_settled := st_settled c + 1, st_processed := st_processed c + 1\<rparr>"
| "count_result skipped c = c\<lparr>st_skipped := st_skipped c + 1, st_processed := st_processed c + 1\<rparr>"
| "count_result failed c = c\<lparr>st_failed := st_failed c + 1, st_processed := st_processed c + 1\<rparr>"

text \<open>\<open>clock n\<close> is \<open>dateProvider.now()\<close> when \<open>n\<close> items have been processed.\<close>

definition isOverBudget :: "int \<Rightarrow> int \<Rightarrow> bool" where
  "isOverBudget startedAt now = (now - startedAt \<ge> TIME_BUDGET_MS)"

fun settle_loop :: "(nat \<Rightarrow> int) \<Rightarrow> int \<Rightarrow> transaction list \<Rightarrow> db \<times> settle_counts \<times> string list
    \<Rightarrow> db \<times> settle_counts \<times> string list" where
  "settle_loop clock startedAt [] st = st"
| "settle_loop clock startedAt (t # ts) (d, c, ws) =
     (if st_processed c > 0 \<and> isOverBudget startedAt (clock (st_processed c)) then (d, c, ws)
      else case settle (clock (st_processed c)) t d of (d', res) \<Rightarrow>
        settle_loop clock startedAt ts
          (d', count_result res c, if res = settled then add_once (tx_workspaceId t) ws else ws))"

datatype SettleOutcome = settle_nothing_due | settle_success | settle_partial_failure | settle_total_failure

definition settle_classifyOutcome :: "settle_counts \<Rightarrow> SettleOutcome" where
  "settle_classifyOutcome c =
     (if st_processed c = 0 then settle_nothing_due
      else if st_failed c = 0 then settle_success
      else if st_failed c = st_processed c then settle_total_failure
      else settle_partial_failure)"

record settle_summary =
  ss_outcome :: SettleOutcome
  ss_counts :: settle_counts
  ss_remainingCount :: int

definition settleCardInstallments :: "(string \<Rightarrow> int \<Rightarrow> int) \<Rightarrow> (nat \<Rightarrow> int) \<Rightarrow> int \<Rightarrow> world
    \<Rightarrow> world \<times> settle_summary" where
  "settleCardInstallments localDay clock startedAt w =
     (case findDueCardTransactions localDay (w_db w) startedAt SETTLE_BATCH_SIZE of (due, totalDue) \<Rightarrow>
      case settle_loop clock startedAt due
             (w_db w, \<lparr>st_settled = 0, st_skipped = 0, st_failed = 0, st_processed = 0\<rparr>, []) of
        (d, c, ws) \<Rightarrow>
          (fold bumpReportGeneration ws (with_db d w),
           \<lparr>ss_outcome = settle_classifyOutcome c, ss_counts = c,
            ss_remainingCount = int totalDue - int (st_processed c)\<rparr>))"

end
