(* ===== verification/ServiceContracts.thy ===== *)
theory ServiceContracts
  imports RecurringServices AccountServices Jobs
begin

text \<open>
  The contracts of the services towards the repositories: the balance mutations they
  pass satisfy the locale \<open>balance_mutation\<close>, and every success of a service is one
  committed step of the repositories plus one bump of the report generation of the
  workspace of the request.
\<close>

section \<open>The mutations are net mutations\<close>

lemma effect_ops:
  "applyExpenseEffect = (\<lambda>a x. apply_effect False a expense x)"
  "applyIncomeEffect = (\<lambda>a x. apply_effect False a income x)"
  by (simp_all add: fun_eq_iff apply_effect_def applyEffect_def)

lemma deltas_before:
  "sum_list (posted i (balance_deltas accts' [(s, x)]))
     = (if i = s then (case map_of accts' s of None \<Rightarrow> 0 | Some a \<Rightarrow> balance a - x) else 0)"
  "sum_list (posted i (balance_deltas accts' [(s, x), (k, y)]))
     = (if i = s then (case map_of accts' s of None \<Rightarrow> 0 | Some a \<Rightarrow> balance a - x) else 0)
       + (if i = k then (case map_of accts' k of None \<Rightarrow> 0 | Some a \<Rightarrow> balance a - y) else 0)"
  by (auto simp: posted_balance_deltas ledger_simps split: option.splits)

lemma apply_at_Inr:
  assumes "apply_at op accts i x = Inr accts'" "map_of accts i = Some a"
  obtains b where "op a x = Inr b" "map_of accts' = (map_of accts)(i \<mapsto> b)"
  using assms by (auto simp: apply_at_def and_then_Inr_iff update_conv')

lemma effects_of_completed:
  "tx_status t = COMPLETED \<Longrightarrow> balanceEffects t =
     \<lparr>eff_accountId = tx_accountId t, eff_amount = tx_amount t,
      eff_kind = (if tx_type t = INCOME then income else expense)\<rparr> #
     (if tx_type t = TRANSFER \<and> \<not> falsy (tx_destinationAccountId t)
      then [\<lparr>eff_accountId = the (tx_destinationAccountId t), eff_amount = tx_amount t, eff_kind = income\<rparr>]
      else [])"
  by (simp add: balanceEffects_def resolveBalanceEffects_def buildEffect_def)

lemma ct_net_mutation:
  assumes v: "valid_transaction t"
  shows "net_mutation (balanceEffects t) (ct_applyBalanceEffects t)"
  unfolding net_mutation_def
proof (intro allI impI)
  fix accts ds i assume k: "keyed accts" and f: "ct_applyBalanceEffects t accts = Inr ds"
  let ?P = "sum_list (posted i ds) = (case map_of accts i of None \<Rightarrow> 0 | Some a \<Rightarrow> direction a * net_effect i (balanceEffects t))
        \<and> (map_of accts i = None \<longrightarrow> effects_on i (balanceEffects t) = [])"
  show ?P
  proof (cases "tx_status t = COMPLETED")
    case False
    with f show ?thesis
      by (simp add: ct_applyBalanceEffects_def balanceEffects_def resolveBalanceEffects_def ledger_simps
          account_simps split: option.splits)
  next
    case True
    note eff = effects_of_completed[OF True]
    let ?s = "tx_accountId t" and ?x = "tx_amount t"
    from f True obtain a where a: "map_of accts ?s = Some a"
      by (auto simp: ct_applyBalanceEffects_def split: option.splits)
    with k have ida: "account_id a = ?s" by (simp add: keyed_def)
    define dest where "dest = (if falsy (tx_destinationAccountId t) then None
                      else map_of accts (the (tx_destinationAccountId t)))"
    have idd: "account_id b = the (tx_destinationAccountId t) \<and> map_of accts (the (tx_destinationAccountId t)) = Some b"
      if "dest = Some b" for b
      using that k by (auto simp: dest_def keyed_def split: if_splits)
    from f True a obtain accts' where
        ap: "ct_applyEffects accts ?s (map_option (\<lambda>b. account_id b) dest) (tx_type t) ?x = Inr accts'"
      and ds: "ds = balance_deltas accts' (case dest of None \<Rightarrow> [(?s, balance a)]
                 | Some b \<Rightarrow> AList.update (account_id b) (balance b) [(?s, balance a)])"
      and dn: "falsy (tx_destinationAccountId t) \<or> dest \<noteq> None"
      unfolding ct_applyBalanceEffects_def dest_def[symmetric] Let_def
      by (auto simp: ida and_then_Inr_iff dest_def split: if_splits)
    show ?thesis
    proof (cases "tx_type t = TRANSFER")
      case False
      define kd where "kd = (if tx_type t = INCOME then income else expense)"
      have "apply_at (\<lambda>a x. apply_effect False a kd x) accts ?s ?x = Inr accts'"
        using ap False by (cases "tx_type t") (simp_all add: ct_applyEffects_def effect_ops kd_def)
      from apply_at_Inr[OF this a] obtain b where b: "apply_effect False a kd ?x = Inr b"
        and m: "map_of accts' = (map_of accts)(?s \<mapsto> b)" .
      from account_effects.ap_bal[OF b] show ?thesis
        unfolding ds using a False idd
        by (cases dest) (auto simp: deltas_before m eff account_simps kd_def split: option.splits)
    next
      case TR: True
      with v have nf: "\<not> falsy (tx_destinationAccountId t)" and ne: "tx_destinationAccountId t \<noteq> Some ?s"
        by (simp_all add: valid_transaction_def)
      with dn obtain d where d: "dest = Some d" by auto
      let ?k = "the (tx_destinationAccountId t)"
      have ks: "?k \<noteq> ?s" using nf ne by (auto simp: falsy_def)
      note dd = idd[OF d]
      from ap TR d obtain accts1 where s1: "apply_at (\<lambda>a x. apply_effect False a expense x) accts ?s ?x = Inr accts1"
        and s2: "apply_at (\<lambda>a x. apply_effect False a income x) accts1 ?k ?x = Inr accts'"
        using dd by (auto simp: ct_applyEffects_def effect_ops and_then_Inr_iff)
      from apply_at_Inr[OF s1 a] obtain b where b: "apply_effect False a expense ?x = Inr b"
        and m1: "map_of accts1 = (map_of accts)(?s \<mapsto> b)" .
      have d1: "map_of accts1 ?k = Some d" using dd ks by (simp add: m1)
      from apply_at_Inr[OF s2 d1] obtain e where e: "apply_effect False d income ?x = Inr e"
        and m2: "map_of accts' = (map_of accts1)(?k \<mapsto> e)" .
      from account_effects.ap_bal[OF b] account_effects.ap_bal[OF e] show ?thesis
        unfolding ds using a d dd ks nf TR
        by (auto simp: deltas_before m1 m2 eff account_simps split: option.splits)
    qed
  qed
qed

interpretation create_mutation: balance_mutation valid_transaction ct_applyBalanceEffects
  by unfold_locales (rule ct_net_mutation)

lemma debit_facts:
  "debit a x = Inr b \<Longrightarrow> balance b = balance a - x \<and> account_id b = account_id a"
  by (cases a) (auto simp: and_then_Inr_iff base_debit_def checking_debit_def split: if_splits)

lemma card_payInvoice_facts:
  "card_payInvoice a x = Inr b \<Longrightarrow> balance b = balance a - x \<and> account_id b = account_id a \<and> is_CreditCard a"
  by (cases a) (auto simp: and_then_Inr_iff payInvoice_def split: if_splits)

text \<open>
  A payment takes the amount from the balance of the source and from the debt of the
  card; the source is no card, which \<open>validateSourceAccount\<close> checked before the lock.
\<close>

definition payment_accounts :: "(string \<times> account) list \<Rightarrow> transaction \<Rightarrow> bool" where
  "payment_accounts accts t = (case map_of accts (tx_accountId t) of
      None \<Rightarrow> True | Some a \<Rightarrow> \<not> is_CreditCard a)"

lemma py_deltas:
  assumes v: "valid_transaction t" "tx_type t = TRANSFER" "tx_status t = COMPLETED"
    and k: "keyed accts" and f: "py_applyPaymentEffects t accts = Inr ds" and src: "payment_accounts accts t"
  shows "sum_list (posted i ds) = (case map_of accts i of None \<Rightarrow> 0 | Some a \<Rightarrow> direction a * net_effect i (balanceEffects t))"
    and "map_of accts i = None \<Longrightarrow> effects_on i (balanceEffects t) = []"
proof -
  note eff = effects_of_completed[OF v(3)]
  let ?s = "tx_accountId t" and ?k = "the (tx_destinationAccountId t)" and ?x = "tx_amount t"
  from v have nf: "\<not> falsy (tx_destinationAccountId t)" and ks: "?k \<noteq> ?s"
    by (auto simp: valid_transaction_def falsy_def)
  with f obtain a d where a: "map_of accts ?s = Some a" and d: "map_of accts ?k = Some d"
    by (auto simp: py_applyPaymentEffects_def split: option.splits)
  from f a d nf obtain a' d' where a': "debit a ?x = Inr a'" and d': "card_payInvoice d ?x = Inr d'"
    and ds: "ds = AList.update (account_id d') (balance d' - balance d) [(account_id a', balance a' - balance a)]"
    by (auto simp: py_applyPaymentEffects_def and_then_Inr_iff split: if_splits)
  from k a d have ids: "account_id a = ?s" "account_id d = ?k" by (simp_all add: keyed_def)
  note fa = debit_facts[OF a'] and fd = card_payInvoice_facts[OF d']
  have dir: "direction a = 1" "direction d = -1"
    using src a fd by (simp_all add: payment_accounts_def direction_def)
  have ds': "ds = [(?s, - ?x), (?k, - ?x)]" unfolding ds using fa fd ids ks by simp
  show "sum_list (posted i ds) = (case map_of accts i of None \<Rightarrow> 0 | Some a \<Rightarrow> direction a * net_effect i (balanceEffects t))"
    unfolding ds' using a d nf ks dir v(2)
    by (auto simp: eff account_simps ledger_simps split: option.splits)
  show "map_of accts i = None \<Longrightarrow> effects_on i (balanceEffects t) = []"
    using a d nf v(2) by (auto simp: eff account_simps)
qed

definition guarded_payment :: "transaction \<Rightarrow> create_mutation" where
  "guarded_payment t accts =
     (if payment_accounts accts t then py_applyPaymentEffects t accts
      else left_tx CannotPayInvoiceWithCreditCardError)"

interpretation payment_mutation: balance_mutation
  "\<lambda>t. valid_transaction t \<and> tx_type t = TRANSFER \<and> tx_status t = COMPLETED" guarded_payment
proof
  fix t :: transaction
  assume "valid_transaction t \<and> tx_type t = TRANSFER \<and> tx_status t = COMPLETED"
  then show "net_mutation (balanceEffects t) (guarded_payment t)"
    unfolding net_mutation_def guarded_payment_def using py_deltas by (auto split: if_splits)
qed

lemma createWithBalanceUpdate_cong:
  assumes "\<And>accts. lockAccountsForWrite d t = Inr accts \<Longrightarrow> f accts = g accts"
  shows "createWithBalanceUpdate uuid t f ctx d = createWithBalanceUpdate uuid t g ctx d"
  using assms
  by (cases "lockAccountsForWrite d t") (simp_all add: createWithBalanceUpdate_def persistWithBalanceUpdate_def)

section \<open>Ownership\<close>

text \<open>Account \<open>i\<close> exists and belongs to workspace \<open>ws\<close>.\<close>

definition owned :: "db \<Rightarrow> string \<Rightarrow> string \<Rightarrow> bool" where
  "owned d i ws = (case account_row_of d i of None \<Rightarrow> False | Some r \<Rightarrow> row_workspaceId r = ws)"

lemma owned_find:
  "account_findById d i = Inr acc \<Longrightarrow> \<not> foreign acc ws \<Longrightarrow> owned d i ws"
  by (auto simp: owned_def dest: findById_own)

text \<open>The accounts a transaction or a rule can move money on.\<close>

definition moves :: "TransactionType \<Rightarrow> string \<Rightarrow> string option \<Rightarrow> string set" where
  "moves ty source dest = {source} \<union> (if ty = TRANSFER then set_option dest else {})"

lemma effects_on_moves:
  assumes "i \<notin> moves (tx_type t) (tx_accountId t) (tx_destinationAccountId t)"
  shows "effects_on i (balanceEffects t) = []" "effects_on i (revertedBalanceEffects t) = []"
  using assms
  by (cases "tx_destinationAccountId t";
      auto simp: moves_def balanceEffects_def revertedBalanceEffects_def resolveBalanceEffects_def buildEffect_def
        Let_def account_simps falsy_def split: if_splits)+

definition owns_moves :: "db \<Rightarrow> string \<Rightarrow> TransactionType \<Rightarrow> string \<Rightarrow> string option \<Rightarrow> bool" where
  "owns_moves d ws ty source dest = (\<forall>i\<in>moves ty source dest. owned d i ws)"

abbreviation tx_owned :: "db \<Rightarrow> transaction \<Rightarrow> bool" where
  "tx_owned d t \<equiv> owns_moves d (tx_workspaceId t) (tx_type t) (tx_accountId t) (tx_destinationAccountId t)"

abbreviation rule_owned :: "db \<Rightarrow> recurring \<Rightarrow> bool" where
  "rule_owned d r \<equiv> owns_moves d (rc_workspaceId r) (rc_type r) (rc_accountId r) (rc_destinationAccountId r)"

section \<open>What a success of a service did\<close>

lemma createTransaction_Inr:
  assumes "createTransaction dp now uuid req w = Inr (w', u)"
  obtains t where "createWithBalanceUpdate uuid t (ct_applyBalanceEffects t)
        \<lparr>ctx_cause = None, ctx_actorId = ct_sub req\<rparr> (w_db w) = Inr (w_db w')"
    "valid_transaction t" "tx_workspaceId t = ct_workspaceId req" "tx_owned (w_db w) t"
    "w_increments w' = w_increments w @ [reportGenerationKey (ct_workspaceId req)]"
proof -
  from assms obtain acc cat date st t where
      acc: "ct_validateAndFetchAccounts (w_db w) req = Inr acc"
    and t: "Transaction_create now
        \<lparr>tx_workspaceId = ct_workspaceId req, tx_accountId = ct_accountId req, tx_categoryId = cat,
         tx_destinationAccountId = ct_destinationAccountId req, tx_title = ct_title req,
         tx_description = ct_description req, tx_amount = ct_amount req, tx_date = date,
         tx_type = ct_type req, tx_installmentGroupId = None, tx_installmentNumber = None,
         tx_installmentCount = None, tx_recurringId = None, tx_invoicePeriodMonth = None,
         tx_invoicePeriodYear = None\<rparr> (Some st) None None [] = Inr t"
    and c: "createWithBalanceUpdate uuid t (ct_applyBalanceEffects t)
        \<lparr>ctx_cause = None, ctx_actorId = ct_sub req\<rparr> (w_db w) = Inr (w_db w')"
    and inc: "w_increments w' = w_increments w @ [reportGenerationKey (ct_workspaceId req)]"
    by (auto simp: createTransaction_def and_then_Inr_iff bumpReportGeneration_def with_db_def case_prod_beta)
  have f: "tx_workspaceId t = ct_workspaceId req" "tx_type t = ct_type req" "tx_accountId t = ct_accountId req"
    "tx_destinationAccountId t = ct_destinationAccountId req"
    using t by (auto simp: Transaction_create_Inr_iff)
  have "tx_owned (w_db w) t"
    using acc unfolding f owns_moves_def moves_def
    by (auto simp: ct_validateAndFetchAccounts_def and_then_Inr_iff owned_find split: if_splits)
  with c f(1) inc Transaction_create_valid[OF t] show thesis by (rule_tac that)
qed

lemma traverse_each: "traverse f xs = Inr ys \<Longrightarrow> x \<in> set xs \<Longrightarrow> \<exists>y. f x = Inr y"
  by (induction xs arbitrary: ys) (auto simp: and_then_Inr_iff)

lemma ut_accounts_owned:
  assumes "ut_fetchInvolvedAccounts d oldTx req = Inr m" "i \<in> set (ut_accountIds oldTx req)"
  shows "owned d i (ut_workspaceId req)"
proof -
  obtain acc where "account_findById d i = Inr acc" "\<not> foreign acc (ut_workspaceId req)"
    using assms by (auto simp: ut_fetchInvolvedAccounts_def and_then_Inr_iff dest!: traverse_each split: if_splits)
  then show ?thesis by (rule owned_find)
qed

lemma ut_build_facts:
  assumes "ut_buildUpdatedTransaction now req c date st cur = Inr u"
  shows "tx_id u = tx_id cur" "tx_workspaceId u = ut_workspaceId req" "tx_type u = ut_type req"
    "tx_accountId u = ut_accountId req" "tx_destinationAccountId u = ut_destinationAccountId req"
    "tx_recurringId u = tx_recurringId cur" "tx_status u = st" "tx_amount u = ut_amount req"
    "valid_transaction u"
  using assms Transaction_create_valid[OF assms[unfolded ut_buildUpdatedTransaction_def]]
  by (auto simp: ut_buildUpdatedTransaction_def Transaction_create_Inr_iff)

lemma updateTransaction_Inr:
  assumes "updateTransaction dp now req w = Inr (w', u)"
  obtains cur mutate where "transaction_of (w_db w) (ut_transactionId req) = Some cur"
    "tx_workspaceId cur = ut_workspaceId req"
    "updateWithBalanceEffect (ut_transactionId req) mutate
       \<lparr>ctx_cause = None, ctx_actorId = ut_sub req\<rparr> (w_db w) = Inr (w_db w', u)"
    "\<And>t v. mutate t = Inr v \<Longrightarrow> tx_id v = tx_id t \<and> tx_workspaceId v = ut_workspaceId req
       \<and> tx_owned (w_db w) v \<and> 0 < tx_amount v"
    "w_increments w' = w_increments w @ [reportGenerationKey (ut_workspaceId req)]"
proof -
  from assms obtain cur m c date st where cur: "transaction_of (w_db w) (ut_transactionId req) = Some cur"
    "tx_workspaceId cur = ut_workspaceId req"
    and m: "ut_fetchInvolvedAccounts (w_db w) cur req = Inr m"
    and up: "updateWithBalanceEffect (ut_transactionId req) (ut_buildUpdatedTransaction now req c date st)
       \<lparr>ctx_cause = None, ctx_actorId = ut_sub req\<rparr> (w_db w) = Inr (w_db w', u)"
    and inc: "w_increments w' = w_increments w @ [reportGenerationKey (ut_workspaceId req)]"
    by (auto simp: updateTransaction_def and_then_Inr_iff bumpReportGeneration_def with_db_def Let_def
        split: option.splits if_splits)
  note own = ut_accounts_owned[OF m]
  have mut: "tx_id v = tx_id t \<and> tx_workspaceId v = ut_workspaceId req \<and> tx_owned (w_db w) v \<and> 0 < tx_amount v"
    if "ut_buildUpdatedTransaction now req c date st t = Inr v" for t v
  proof -
    note f = ut_build_facts[OF that]
    have "tx_type v = TRANSFER \<Longrightarrow> \<not> falsy (ut_destinationAccountId req)"
      using f(9) by (simp add: valid_transaction_def f)
    then have "tx_owned (w_db w) v"
      unfolding f owns_moves_def moves_def using f(3)
      by (auto intro!: own simp: ut_accountIds_def)
    moreover have "0 < tx_amount v" using f(9) by (simp add: valid_transaction_def)
    ultimately show ?thesis using f by simp
  qed
  with cur up mut inc show thesis by (rule_tac that[of cur]) auto
qed

lemma deleteTransaction_Inr:
  assumes "deleteTransaction tid ws sub w = Inr (w', u)"
  obtains t where "transaction_of (w_db w) tid = Some t" "tx_workspaceId t = ws" "tx_id t = tid"
    "deleteWithBalanceEffect tid \<lparr>ctx_cause = None, ctx_actorId = sub\<rparr> (w_db w) = Inr (w_db w', True)"
    "w_increments w' = w_increments w @ [reportGenerationKey ws]"
  using assms transaction_ofD[of "w_db w" tid]
  by (auto simp: deleteTransaction_def and_then_Inr_iff bumpReportGeneration_def with_db_def
      split: option.splits if_splits)

lemma setTransactionStatus_Inr:
  assumes "setTransactionStatus now tid ws sub s w = Inr (w', u)"
  obtains "updateStatusWithBalanceEffect now
      \<lparr>sp_transactionId = tid, sp_workspaceId = ws, sp_status = s, sp_scheduledSettlement = False\<rparr>
      \<lparr>ctx_cause = None, ctx_actorId = sub\<rparr> (w_db w) = Inr (w_db w', u)"
    "w_increments w' = w_increments w @ [reportGenerationKey ws]"
  using assms
  by (auto simp: setTransactionStatus_def and_then_Inr_iff bumpReportGeneration_def with_db_def)

lemma not_card_row:
  assumes "account_findById d i = Inr (Some a)" "\<not> is_CreditCard a"
    and "lockAccounts d ids = Inr accts" "map_of accts i = Some b" "distinct_by row_id (accounts d)"
  shows "\<not> is_CreditCard b"
proof -
  from lockAccounts_Some[OF assms(3,4,5)] obtain r where "account_row_of d i = Some r" "account_toDomain r = Inr b" .
  with assms(1,2) show ?thesis by (auto simp: account_findById_def and_then_Inr_iff)
qed

lemma payCreditCardInvoice_Inr:
  assumes "payCreditCardInvoice dp now uuid req w = Inr (w', u)" "distinct_by row_id (accounts (w_db w))"
  obtains t where "createWithBalanceUpdate uuid t (guarded_payment t)
        \<lparr>ctx_cause = Some INVOICE_PAID, ctx_actorId = py_sub req\<rparr> (w_db w) = Inr (w_db w')"
    "valid_transaction t" "tx_type t = TRANSFER" "tx_status t = COMPLETED"
    "tx_workspaceId t = py_workspaceId req" "tx_owned (w_db w) t"
    "w_increments w' = w_increments w @ [reportGenerationKey (py_workspaceId req)]"
proof -
  from assms(1) obtain card source dr t where
      card: "py_validateDestinationAccount (w_db w) req = Inr card"
    and source: "py_validateSourceAccount (w_db w) req = Inr source"
    and t: "Transaction_create now dr (Some COMPLETED) None None [] = Inr t"
    and dr: "tx_workspaceId dr = py_workspaceId req" "tx_type dr = TRANSFER"
      "tx_accountId dr = py_sourceAccountId req" "tx_destinationAccountId dr = Some (py_creditCardAccountId req)"
    and c: "createWithBalanceUpdate uuid t (py_applyPaymentEffects t)
        \<lparr>ctx_cause = Some INVOICE_PAID, ctx_actorId = py_sub req\<rparr> (w_db w) = Inr (w_db w')"
    and inc: "w_increments w' = w_increments w @ [reportGenerationKey (py_workspaceId req)]"
    unfolding payCreditCardInvoice_def Let_def and_then_Inr_iff
    by (auto simp: bumpReportGeneration_def with_db_def)
  have f: "tx_workspaceId t = py_workspaceId req" "tx_type t = TRANSFER"
      "tx_accountId t = py_sourceAccountId req" "tx_destinationAccountId t = Some (py_creditCardAccountId req)"
      "tx_status t = COMPLETED" "valid_transaction t"
    using t dr Transaction_create_valid[OF t] by (auto simp: Transaction_create_Inr_iff)
  have own: "tx_owned (w_db w) t"
    using card source unfolding f owns_moves_def moves_def
    by (auto simp: py_validateDestinationAccount_def py_validateSourceAccount_def and_then_Inr_iff owned_find
        split: if_splits)
  from source obtain a where a: "account_findById (w_db w) (py_sourceAccountId req) = Inr (Some a)" "\<not> is_CreditCard a"
    by (auto simp: py_validateSourceAccount_def and_then_Inr_iff foreign_def split: if_splits option.splits)
  have "createWithBalanceUpdate uuid t (py_applyPaymentEffects t)
        \<lparr>ctx_cause = Some INVOICE_PAID, ctx_actorId = py_sub req\<rparr> (w_db w)
      = createWithBalanceUpdate uuid t (guarded_payment t)
        \<lparr>ctx_cause = Some INVOICE_PAID, ctx_actorId = py_sub req\<rparr> (w_db w)"
  proof (rule createWithBalanceUpdate_cong)
    fix accts assume l: "lockAccountsForWrite (w_db w) t = Inr accts"
    have "payment_accounts accts t"
      using not_card_row[OF a l[unfolded lockAccountsForWrite_def] _ assms(2)]
      by (auto simp: payment_accounts_def f split: option.splits)
    then show "py_applyPaymentEffects t accts = guarded_payment t accts" by (simp add: guarded_payment_def)
  qed
  with c f own inc show thesis by (intro that[of t]) simp_all
qed

section \<open>The services on recurring rules\<close>

lemma createInstallmentPurchase_Inr:
  assumes "createInstallmentPurchase dp now ruuid tuuid req w = Inr (w', r, t)"
  obtains "createInstallmentPlan tuuid r t \<lparr>ctx_cause = None, ctx_actorId = ip_sub req\<rparr> (w_db w) = Inr (w_db w')"
    "tx_workspaceId t = ip_workspaceId req" "tx_owned (w_db w) t" "valid_transaction t"
    "rc_workspaceId r = ip_workspaceId req" "rule_owned (w_db w) r"
    "w_increments w' = w_increments w @ [reportGenerationKey (ip_workspaceId req)]"
proof -
  from assms obtain acc first last amount rid st where
      acc: "account_findById (w_db w) (ip_accountId req) = Inr acc" "\<not> foreign acc (ip_workspaceId req)"
    and r: "RecurringTransaction_create (ip_recurring dp req ruuid first last amount) = Inr r"
    and t: "Transaction_create now (ip_first req (rc_id r) first rid) (Some st) None None tuuid = Inr t"
    and c: "createInstallmentPlan tuuid r t \<lparr>ctx_cause = None, ctx_actorId = ip_sub req\<rparr> (w_db w) = Inr (w_db w')"
    and inc: "w_increments w' = w_increments w @ [reportGenerationKey (ip_workspaceId req)]"
    unfolding createInstallmentPurchase_def Let_def and_then_Inr_iff
    by (auto simp: bumpReportGeneration_def with_db_def and_then_Inr_iff split: if_splits)
  have own: "owned (w_db w) (ip_accountId req) (ip_workspaceId req)" by (rule owned_find[OF acc])
  show thesis
  proof (rule that[OF c _ _ Transaction_create_valid[OF t] _ _ inc])
    show "tx_workspaceId t = ip_workspaceId req"
      using t by (auto simp: Transaction_create_Inr_iff ip_first_def)
    show "tx_owned (w_db w) t"
      using t own by (auto simp: Transaction_create_Inr_iff ip_first_def owns_moves_def moves_def)
    show "rc_workspaceId r = ip_workspaceId req"
      using r by (auto simp: RecurringTransaction_create_Inr_iff ip_recurring_def)
    show "rule_owned (w_db w) r"
      using r own by (auto simp: RecurringTransaction_create_Inr_iff ip_recurring_def owns_moves_def moves_def)
  qed
qed

lemma createRecurringTransaction_Inr:
  assumes "createRecurringTransaction dp now uuid req w = Inr (w', u)"
  obtains r where "recurring_create uuid r (w_db w) = Inr (w_db w', u)"
    "rc_workspaceId r = cr_workspaceId req" "rule_owned (w_db w) r" "valid_recurring r"
    "w_increments w' = w_increments w @ [reportGenerationKey (cr_workspaceId req)]"
proof -
  from assms obtain acc dr r where
      acc: "account_findById (w_db w) (cr_accountId req) = Inr acc" "\<not> foreign acc (cr_workspaceId req)"
    and dest: "cr_validateDestinationAccount (w_db w) (cr_destinationAccountId req) (cr_workspaceId req) = Inr ()"
    and dr: "RecurringTransaction_create dr = Inr r" "rc_workspaceId dr = cr_workspaceId req"
      "rc_accountId dr = cr_accountId req" "rc_destinationAccountId dr = cr_destinationAccountId req"
    and c: "recurring_create uuid r (w_db w) = Inr (w_db w', u)"
    and inc: "w_increments w' = w_increments w @ [reportGenerationKey (cr_workspaceId req)]"
    unfolding createRecurringTransaction_def Let_def
    by (clarsimp simp: and_then_Inr_iff case_prod_beta bumpReportGeneration_def with_db_def split: if_splits)
  from dr(1) have v: "valid_recurring r" "dr = r" by (simp_all add: RecurringTransaction_create_Inr_iff)
  note r = dr[unfolded v(2)]
  have dst: "owned (w_db w) i (cr_workspaceId req)"
    if "rc_type r = TRANSFER" "rc_destinationAccountId r = Some i" for i
  proof -
    from that v(1) have "\<not> falsy (cr_destinationAccountId req)" "cr_destinationAccountId req = Some i"
      using r(4) by (simp_all add: valid_recurring_def)
    with dest obtain found where "account_findById (w_db w) i = Inr found" "\<not> foreign found (cr_workspaceId req)"
      by (clarsimp simp: cr_validateDestinationAccount_def and_then_Inr_iff split: if_splits)
    then show ?thesis by (rule owned_find)
  qed
  have "rule_owned (w_db w) r"
    unfolding owns_moves_def moves_def r(2,3) using owned_find[OF acc] dst by auto
  with c r v(1) inc show thesis by (intro that[of r]) simp_all
qed

text \<open>The fields that say which accounts of which workspace a rule moves money on.\<close>

definition same_moves :: "recurring \<Rightarrow> recurring \<Rightarrow> bool" where
  "same_moves r' r \<longleftrightarrow> rc_id r' = rc_id r \<and> rc_workspaceId r' = rc_workspaceId r
     \<and> rc_accountId r' = rc_accountId r \<and> rc_type r' = rc_type r
     \<and> rc_destinationAccountId r' = rc_destinationAccountId r"

lemma same_moves_trans [trans]: "same_moves a b \<Longrightarrow> same_moves b c \<Longrightarrow> same_moves a c"
  by (simp add: same_moves_def)

lemma edits_keep_moves:
  "rc_updateSchedule s e f i r = Inr u \<Longrightarrow> same_moves u r"
  "same_moves (ur_reconcileInstallmentCount dp tz r) r"
  "same_moves (rc_clearLastGenerated r) r"
  "same_moves (rc_setActive b r) r"
  "rc_updateAmount x r = Inr u \<Longrightarrow> same_moves u r"
  "rc_updateDetails t d c r = Inr u \<Longrightarrow> same_moves u r"
  "same_moves r r"
  by (auto simp: same_moves_def recurring_edit_defs ur_reconcileInstallmentCount_def split: if_splits option.splits)

lemma if_Inr_iff: "(if c then x else y) = Inr z \<longleftrightarrow> c \<and> x = Inr z \<or> \<not> c \<and> y = Inr z"
  by simp

lemma ur_schedule_keeps:
  assumes "ur_updateSchedule dp now tz req r = Inr r'"
  shows "same_moves r' r"
proof -
  have edited: "same_moves (if c then rc_clearLastGenerated (if c' then ur_reconcileInstallmentCount dp tz r1 else r1)
      else if c' then ur_reconcileInstallmentCount dp tz r1 else r1) r1" for c c' r1
    by (auto intro: edits_keep_moves same_moves_trans)
  have "same_moves r' r" if "rc_updateSchedule s e f i r = Inr r1"
    "(if c then rc_clearLastGenerated (if c' then ur_reconcileInstallmentCount dp tz r1 else r1)
      else if c' then ur_reconcileInstallmentCount dp tz r1 else r1) = r'" for s e f i r1 c c'
    by (rule same_moves_trans[OF edited[of c c' r1, unfolded that(2)] edits_keep_moves(1)[OF that(1)]])
  then show ?thesis
    using assms unfolding ur_updateSchedule_def Let_def if_Inr_iff and_then_Inr_iff sum.inject
    by (elim disjE conjE exE) (assumption | simp add: edits_keep_moves(7))+
qed

lemma ur_mutations_keep:
  assumes "ur_applyMutations dp now tz req r = Inr r'"
  shows "rc_id r' = rc_id r" "rc_workspaceId r' = rc_workspaceId r"
    "rc_accountId r' = or_else (ur_accountId req) (rc_accountId r)"
    "rc_type r' = rc_type r \<and> rc_destinationAccountId r' = rc_destinationAccountId r
       \<or> (\<exists>a. ur_destinationAccountId req = Some (Some a) \<and> a \<noteq> [] \<and> rc_destinationAccountId r' = Some a)"
proof -
  from assms obtain r1 r2 r3 r4 where s: "ur_updateDetails req r = Inr r1"
    "ur_updateAccount (ur_accountId req) r1 = Inr r2"
    "(case ur_amount req of None \<Rightarrow> Inr r2 | Some x \<Rightarrow> rc_updateAmount x r2) = Inr r3"
    "ur_updateSchedule dp now tz req r3 = Inr r4" "ur_updateDestination (ur_destinationAccountId req) r4 = Inr r'"
    by (auto simp: ur_applyMutations_def and_then_Inr_iff)
  have 1: "rc_id r1 = rc_id r \<and> rc_workspaceId r1 = rc_workspaceId r \<and> rc_accountId r1 = rc_accountId r
     \<and> rc_type r1 = rc_type r \<and> rc_destinationAccountId r1 = rc_destinationAccountId r"
    using s(1) by (auto simp: ur_updateDetails_def rc_updateDetails_def split: if_splits)
  have 2: "rc_id r2 = rc_id r1 \<and> rc_workspaceId r2 = rc_workspaceId r1
     \<and> rc_accountId r2 = or_else (ur_accountId req) (rc_accountId r1)
     \<and> rc_type r2 = rc_type r1 \<and> rc_destinationAccountId r2 = rc_destinationAccountId r1"
    using s(2) by (auto simp: ur_updateAccount_def rc_changeAccount_def or_else_def split: if_splits option.splits)
  have 3: "rc_id r3 = rc_id r2 \<and> rc_workspaceId r3 = rc_workspaceId r2 \<and> rc_accountId r3 = rc_accountId r2
     \<and> rc_type r3 = rc_type r2 \<and> rc_destinationAccountId r3 = rc_destinationAccountId r2"
    using s(3) by (auto simp: rc_updateAmount_def split: if_splits option.splits)
  have 5: "rc_id r' = rc_id r4 \<and> rc_workspaceId r' = rc_workspaceId r4 \<and> rc_accountId r' = rc_accountId r4
     \<and> (rc_type r' = rc_type r4 \<and> rc_destinationAccountId r' = rc_destinationAccountId r4
       \<or> (\<exists>a. ur_destinationAccountId req = Some (Some a) \<and> a \<noteq> [] \<and> rc_destinationAccountId r' = Some a))"
    using s(5) by (auto simp: ur_updateDestination_def rc_convertToTransfer_def split: if_splits option.splits sum.splits)
  from 1 2 3 ur_schedule_keeps[OF s(4), unfolded same_moves_def] 5
  show "rc_id r' = rc_id r" "rc_workspaceId r' = rc_workspaceId r"
    "rc_accountId r' = or_else (ur_accountId req) (rc_accountId r)"
    "rc_type r' = rc_type r \<and> rc_destinationAccountId r' = rc_destinationAccountId r
       \<or> (\<exists>a. ur_destinationAccountId req = Some (Some a) \<and> a \<noteq> [] \<and> rc_destinationAccountId r' = Some a)"
    by simp_all
qed

lemma recurring_ofD: "recurring_of d rid = Some r \<Longrightarrow> r \<in> set (recurrings d) \<and> rc_id r = rid"
  unfolding recurring_of_def by (drule find_row_SomeD) simp

lemma updateRecurringTransaction_Inr:
  assumes "updateRecurringTransaction dp now req w = Inr (w', r')"
  obtains r where "recurring_of (w_db w) (ur_id req) = Some r" "rc_workspaceId r = ur_workspaceId req"
    "recurring_update r' (w_db w) = Inr (w_db w')" "rc_id r' = ur_id req" "rc_workspaceId r' = ur_workspaceId req"
    "rule_owned (w_db w) r \<Longrightarrow> rule_owned (w_db w) r'"
    "w_increments w' = w_increments w @ [reportGenerationKey (ur_workspaceId req)]"
proof -
  from assms obtain r acc where base: "ur_validateAndFetchBaseEntities (w_db w) req = Inr (r, acc)"
    and deps: "ur_validateDependencies w req r (account_id acc) = Inr ()"
    and mut: "ur_applyMutations dp now (acc_timezone (base_of acc)) req r = Inr r'"
    and up: "recurring_update r' (w_db w) = Inr (w_db w')"
    and inc: "w_increments w' = w_increments w @ [reportGenerationKey (ur_workspaceId req)]"
    by (auto simp: updateRecurringTransaction_def and_then_Inr_iff bumpReportGeneration_def with_db_def)
  from base have r: "recurring_of (w_db w) (ur_id req) = Some r" "rc_workspaceId r = ur_workspaceId req"
    and acc: "account_findById (w_db w) (or_else (ur_accountId req) (rc_accountId r)) = Inr (Some acc)"
      "\<not> foreign (Some acc) (ur_workspaceId req)"
    by (auto simp: ur_validateAndFetchBaseEntities_def and_then_Inr_iff foreign_def split: option.splits if_splits)
  note k = ur_mutations_keep[OF mut]
  have src: "owned (w_db w) (rc_accountId r') (ur_workspaceId req)" unfolding k(3) by (rule owned_find[OF acc])
  have new: "owned (w_db w) a (ur_workspaceId req)" if "ur_destinationAccountId req = Some (Some a)" "a \<noteq> []" for a
    using deps that
    by (auto simp: ur_validateDependencies_def and_then_Inr_iff given_def or_else_def falsy_def Let_def
        intro!: owned_find split: if_splits)
  have own: "rule_owned (w_db w) r'" if "rule_owned (w_db w) r"
    using that src new k(4) unfolding k(2) r(2) owns_moves_def moves_def by auto
  show thesis
    by (rule that[OF r up _ _ own inc]) (use k r recurring_ofD[OF r(1)] in simp_all)
qed

lemma toggleActive_Inr:
  assumes "toggleActiveRecurringTransaction rid ws w = Inr (w', r')"
  obtains r where "recurring_of (w_db w) rid = Some r" "rc_workspaceId r = ws"
    "r' = rc_setActive (\<not> rc_active r) r" "recurring_update r' (w_db w) = Inr (w_db w')"
    "w_increments w' = w_increments w @ [reportGenerationKey ws]"
  using assms
  by (auto simp: toggleActiveRecurringTransaction_def and_then_Inr_iff bumpReportGeneration_def with_db_def Let_def
      split: option.splits if_splits)

lemma deleteRecurring_Inr:
  assumes "deleteRecurringTransaction rid ws w = Inr (w', u)"
  obtains r where "recurring_of (w_db w) rid = Some r" "rc_workspaceId r = ws"
    "recurring_delete rid (w_db w) = Inr (w_db w')"
    "w_increments w' = w_increments w @ [reportGenerationKey ws]"
  using assms
  by (auto simp: deleteRecurringTransaction_def and_then_Inr_iff bumpReportGeneration_def with_db_def Let_def
      split: option.splits if_splits)

lemma deleteAccount_Inr:
  assumes "deleteAccount aid ws w = Inr (w', u)"
  obtains "owned (w_db w) aid ws" "account_delete aid (w_db w) = Inr (w_db w')"
    "w_increments w' = w_increments w @ [reportGenerationKey ws]"
  using assms owned_find[of "w_db w" aid _ ws]
  by (auto simp: deleteAccount_def and_then_Inr_iff bumpReportGeneration_def with_db_def split: if_splits)

end
