(* ===== verification/System.thy ===== *)
theory System
  imports ServiceContracts Reconcile
begin

text \<open>
  The whole program as a transition system: the thirteen requests that write, the two
  scheduled jobs, and the states they reach. Every transition is a step of the
  repositories, so the properties of the ledger hold of the running program, and no
  request reaches the data of a workspace other than its own.
\<close>

section \<open>Requests\<close>

datatype service_call =
    CreateAccount string create_account_request
  | UpdateAccount update_account_request
  | DeleteAccount string string
  | CreateTransaction string create_tx_request
  | UpdateTransaction update_tx_request
  | DeleteTransaction string string string
  | SetTransactionStatus string string string TransactionStatus
  | PayCreditCardInvoice string pay_request
  | CreateInstallmentPurchase string string purchase_request
  | CreateRecurring string create_recurring_request
  | UpdateRecurring update_recurring_request
  | ToggleRecurring string string
  | DeleteRecurring string string

fun call_workspace :: "service_call \<Rightarrow> string" where
  "call_workspace (CreateAccount uuid req) = ca_workspaceId req"
| "call_workspace (UpdateAccount req) = ua_workspaceId req"
| "call_workspace (DeleteAccount aid ws) = ws"
| "call_workspace (CreateTransaction uuid req) = ct_workspaceId req"
| "call_workspace (UpdateTransaction req) = ut_workspaceId req"
| "call_workspace (DeleteTransaction tid ws sub) = ws"
| "call_workspace (SetTransactionStatus tid ws sub s) = ws"
| "call_workspace (PayCreditCardInvoice uuid req) = py_workspaceId req"
| "call_workspace (CreateInstallmentPurchase ruuid tuuid req) = ip_workspaceId req"
| "call_workspace (CreateRecurring uuid req) = cr_workspaceId req"
| "call_workspace (UpdateRecurring req) = ur_workspaceId req"
| "call_workspace (ToggleRecurring rid ws) = ws"
| "call_workspace (DeleteRecurring rid ws) = ws"

text \<open>The world a request leaves behind, or the error it answers.\<close>

abbreviation world_of :: "(world \<times> 'a) either \<Rightarrow> world either" where
  "world_of r \<equiv> and_then r (\<lambda>p. Inr (fst p))"

fun perform :: "date_provider \<Rightarrow> int \<Rightarrow> service_call \<Rightarrow> world \<Rightarrow> world either" where
  "perform dp now (CreateAccount uuid req) w = world_of (createAccount uuid req w)"
| "perform dp now (UpdateAccount req) w = world_of (updateAccount req w)"
| "perform dp now (DeleteAccount aid ws) w = world_of (deleteAccount aid ws w)"
| "perform dp now (CreateTransaction uuid req) w = world_of (createTransaction dp now uuid req w)"
| "perform dp now (UpdateTransaction req) w = world_of (updateTransaction dp now req w)"
| "perform dp now (DeleteTransaction tid ws sub) w = world_of (deleteTransaction tid ws sub w)"
| "perform dp now (SetTransactionStatus tid ws sub s) w = world_of (setTransactionStatus now tid ws sub s w)"
| "perform dp now (PayCreditCardInvoice uuid req) w = world_of (payCreditCardInvoice dp now uuid req w)"
| "perform dp now (CreateInstallmentPurchase ruuid tuuid req) w =
     world_of (createInstallmentPurchase dp now ruuid tuuid req w)"
| "perform dp now (CreateRecurring uuid req) w = world_of (createRecurringTransaction dp now uuid req w)"
| "perform dp now (UpdateRecurring req) w = world_of (updateRecurringTransaction dp now req w)"
| "perform dp now (ToggleRecurring rid ws) w = world_of (toggleActiveRecurringTransaction rid ws w)"
| "perform dp now (DeleteRecurring rid ws) w = world_of (deleteRecurringTransaction rid ws w)"

section \<open>What a transition of the tables may touch\<close>

text \<open>Only the balances of the accounts in \<open>A\<close> have changed.\<close>

definition touches :: "string set \<Rightarrow> db \<Rightarrow> db \<Rightarrow> bool" where
  "touches A d d' = (\<exists>x. posts x d d' \<and> (\<forall>i. i \<notin> A \<longrightarrow> x i = 0))"

lemma touches_row: "touches A d d' \<Longrightarrow> i \<notin> A \<Longrightarrow> account_row_of d' i = account_row_of d i"
  by (auto simp: touches_def posts_def option.map_ident)

lemma touches_owned: "touches A d d' \<Longrightarrow> owned d' i ws = owned d i ws"
  by (auto simp: touches_def posts_def owned_def split: option.splits)

lemma touches_mono: "touches A d d' \<Longrightarrow> A \<subseteq> B \<Longrightarrow> touches B d d'"
  unfolding touches_def by blast

lemma touches_write:
  assumes w: "writeBalanceDeltas ds en d1 = Inr d'" and same: "accounts d1 = accounts d" "movements d1 = movements d"
    and k: "keyed accts" and f: "net_mutation es f" "f accts = Inr ds" and es: "\<And>i. i \<notin> A \<Longrightarrow> effects_on i es = []"
  shows "touches A d d'"
  unfolding touches_def
proof (intro exI conjI allI impI)
  show "posts (\<lambda>i. sum_list (posted i ds)) d d'"
    using writeBalanceDeltas_posts(1)[OF w] posts_cong(1)[OF same] by simp
  show "sum_list (posted i ds) = 0" if "i \<notin> A" for i
    using net_mutationD(1)[OF f(1) k f(2), of i] es[OF that]
    by (simp add: net_effect_def account_simps split: option.splits)
qed

abbreviation tx_moves :: "transaction \<Rightarrow> string set" where
  "tx_moves t \<equiv> moves (tx_type t) (tx_accountId t) (tx_destinationAccountId t)"

lemma effects_on_append: "effects_on i (xs @ ys) = effects_on i xs @ effects_on i ys"
  by (simp add: effects_on_def)

lemma persist_touches:
  assumes "persistWithBalanceUpdate uuid accts t f ctx d1 = Inr d'" "lockAccounts d0 ids = Inr accts"
    and "net_mutation (balanceEffects t) f" "accounts d1 = accounts d" "movements d1 = movements d"
  shows "touches (tx_moves t) d d' \<and> recurrings d' = recurrings d1
    \<and> transactions d' = transactions d1 @ [t\<lparr>tx_id := ensureEntityId uuid (tx_id t)\<rparr>]"
proof -
  from assms(1) obtain ds t' d2 en where "f accts = Inr ds" "t' = t\<lparr>tx_id := ensureEntityId uuid (tx_id t)\<rparr>"
    and d2: "d2 = d1\<lparr>transactions := transactions d1 @ [t']\<rparr>" and w: "writeBalanceDeltas ds en d2 = Inr d'"
    by (auto simp: persistWithBalanceUpdate_def and_then_Inr_iff insert_transaction_Inr Let_def)
  then show ?thesis
    using touches_write[OF w _ _ lockAccounts_keyed[OF assms(2)] assms(3), of d "tx_moves t"] effects_on_moves(1) assms(4,5)
      writeBalanceDeltas_posts(2,3)[OF w] by simp
qed

lemma create_touches:
  assumes "createWithBalanceUpdate uuid t f ctx d = Inr d'" "net_mutation (balanceEffects t) f"
  shows "touches (tx_moves t) d d' \<and> recurrings d' = recurrings d
    \<and> transactions d' = transactions d @ [t\<lparr>tx_id := ensureEntityId uuid (tx_id t)\<rparr>]"
  using assms persist_touches[where d = d]
  unfolding createWithBalanceUpdate_def lockAccountsForWrite_def and_then_Inr_iff by blast

lemma plan_touches:
  assumes "createInstallmentPlan uuid r t ctx d = Inr d'"
  shows "touches (tx_moves t) d d' \<and> recurrings d' = recurrings d @ [r]
    \<and> transactions d' = transactions d @ [t\<lparr>tx_id := ensureEntityId uuid (tx_id t)\<rparr>]"
proof -
  from assms obtain accts ids d1 where "lockAccounts d ids = Inr accts" "d1 = d\<lparr>recurrings := recurrings d @ [r]\<rparr>"
    "persistWithBalanceUpdate uuid accts t (\<lambda>locked. applyBalanceEffects False locked (balanceEffects t)) ctx d1 = Inr d'"
    by (auto simp: createInstallmentPlan_def and_then_Inr_iff lockAccountsForWrite_def insert_recurring_def enforce_Inr)
  from persist_touches[OF this(3,1) net_mutation_applyBalanceEffects, of d] this(2) show ?thesis by simp
qed

lemma update_touches:
  assumes "updateWithBalanceEffect tid mutate ctx d = Inr (d', u)"
  obtains cur where "transaction_of d tid = Some cur" "mutate cur = Inr u"
    "touches (tx_moves cur \<union> tx_moves u) d d'" "recurrings d' = recurrings d"
    "transactions d' = update_rows (\<lambda>r. tx_id r = tx_id u) (\<lambda>_. u) (transactions d)"
proof -
  from assms obtain cur ids accts ds d1 en where cur: "transaction_of d tid = Some cur"
    and u: "mutate cur = Inr u" and lock: "lockAccounts d ids = Inr accts"
    and ds: "applyBalanceEffects False accts (revertedBalanceEffects cur @ balanceEffects u) = Inr ds"
    and w: "writeBalanceDeltas ds en d = Inr d1"
    and d': "d' = d1\<lparr>transactions := update_rows (\<lambda>r. tx_id r = tx_id u) (\<lambda>_. u) (transactions d1)\<rparr>"
    by (auto simp: updateWithBalanceEffect_def update_transaction_row_def enforce_Inr and_then_Inr_iff
        split: option.splits)
  have "touches (tx_moves cur \<union> tx_moves u) d d1"
    by (rule touches_write[OF w refl refl lockAccounts_keyed[OF lock] net_mutation_applyBalanceEffects ds])
       (simp add: effects_on_append effects_on_moves)
  then have "touches (tx_moves cur \<union> tx_moves u) d d'"
    unfolding touches_def using posts_cong(2)[of d' d1] d' by simp
  with cur u show thesis using writeBalanceDeltas_posts(2,3)[OF w] d' by (intro that[of cur]) simp_all
qed

lemma delete_touches:
  assumes "deleteWithBalanceEffect tid ctx d = Inr (d', b)" "transaction_of d tid = Some cur"
  shows "d' = d \<or> touches (tx_moves cur) d d' \<and> recurrings d' = recurrings d
    \<and> transactions d' = delete_rows (\<lambda>t. tx_id t = tx_id cur) (transactions d)"
proof -
  have "touches (tx_moves cur) d d' \<and> recurrings d' = recurrings d
    \<and> transactions d' = delete_rows (\<lambda>t. tx_id t = tx_id cur) (transactions d)"
    if lock: "lockAccounts d ids = Inr accts" and ds: "applyBalanceEffects False accts (revertedBalanceEffects cur) = Inr ds"
      and w: "writeBalanceDeltas ds en (d\<lparr>transactions := delete_rows (\<lambda>t. tx_id t = tx_id cur) (transactions d)\<rparr>) = Inr d'"
    for ids accts ds en
    using touches_write[OF w _ _ lockAccounts_keyed[OF lock] net_mutation_applyBalanceEffects ds, of d "tx_moves cur"]
      effects_on_moves(2) writeBalanceDeltas_posts(2,3)[OF w] by simp
  with deleteWithBalanceEffect_cases[OF assms(1)] assms(2) show ?thesis by auto
qed

lemma status_touches:
  assumes "updateStatusWithBalanceEffect now params ctx d = Inr (d', u)"
  obtains row where "row \<in> set (transactions d)" "status_candidate params row" "touches (tx_moves row) d d'"
    "recurrings d' = recurrings d"
    "transactions d' = update_rows (status_candidate params)
       (\<lambda>t. t\<lparr>tx_status := sp_status params, tx_updatedAt := Some now\<rparr>) (transactions d)"
  using assms
proof (rule updateStatus_Inr)
  fix row ids accts ds d1
  assume row: "row \<in> set (transactions d)" "status_candidate params row"
    and u: "u = row\<lparr>tx_status := sp_status params, tx_updatedAt := Some now\<rparr>"
    and d1: "d1 = d\<lparr>transactions := update_rows (status_candidate params)
           (\<lambda>t. t\<lparr>tx_status := sp_status params, tx_updatedAt := Some now\<rparr>) (transactions d)\<rparr>"
    and lock: "lockAccounts d1 ids = Inr accts"
    and ds: "applyBalanceEffects (sp_scheduledSettlement params) accts
           (balanceEffectsFrom (statusBefore (sp_status params)) u) = Inr ds"
    and w: "writeBalanceDeltas ds (entry (tx_id u) STATUS_CHANGED ctx) d1 = Inr d'"
  have "touches (tx_moves row) d d'"
  proof (rule touches_write[OF w _ _ lockAccounts_keyed[OF lock] net_mutation_applyBalanceEffects ds])
    show "effects_on i (balanceEffectsFrom (statusBefore (sp_status params)) u) = []" if "i \<notin> tx_moves row" for i
      using effects_on_moves[of i "u\<lparr>tx_status := statusBefore (sp_status params)\<rparr>"] effects_on_moves[of i u] that
      by (simp add: balanceEffectsFrom_def effects_on_append u)
  qed (simp_all add: d1)
  with row show thesis using writeBalanceDeltas_posts(2,3)[OF w] by (intro that[of row]) (simp_all add: d1)
qed

section \<open>Tenants\<close>

text \<open>What a workspace has in the tables.\<close>

definition tenant_rows :: "string \<Rightarrow> db \<Rightarrow> string \<Rightarrow> account_row option" where
  "tenant_rows v d i = (case account_row_of d i of
      None \<Rightarrow> None | Some r \<Rightarrow> if row_workspaceId r = v then Some r else None)"

definition tenant_txs :: "string \<Rightarrow> db \<Rightarrow> transaction list" where
  "tenant_txs v d = filter (\<lambda>t. tx_workspaceId t = v) (transactions d)"

definition tenant_rules :: "string \<Rightarrow> db \<Rightarrow> recurring list" where
  "tenant_rules v d = filter (\<lambda>r. rc_workspaceId r = v) (recurrings d)"

text \<open>
  Every transaction and rule moves money on accounts of its own workspace only; the
  amounts are positive, and the mapper reads every account row.
\<close>

abbreviation tx_fine :: "db \<Rightarrow> transaction \<Rightarrow> bool" where
  "tx_fine d t \<equiv> tx_owned d t \<and> 0 < tx_amount t"

definition row_parses :: "account_row \<Rightarrow> bool" where
  "row_parses r = (\<exists>a. account_toDomain r = Inr a)"

definition rows_parse :: "db \<Rightarrow> bool" where
  "rows_parse d = (\<forall>i r. account_row_of d i = Some r \<longrightarrow> row_parses r)"

definition tenant_ok :: "db \<Rightarrow> bool" where
  "tenant_ok d = ((\<forall>t\<in>set (transactions d). tx_fine d t) \<and> (\<forall>r\<in>set (recurrings d). rule_owned d r)
     \<and> rows_parse d)"

lemma row_parses_simps [account_simps]:
  "row_parses (r\<lparr>row_balance := x\<rparr>) = row_parses r"
  "row_parses (account_toDatabase a)"
  "row_parses r \<Longrightarrow> row_parses (account_toUpdatePayload a r)"
proof -
  show "row_parses (r\<lparr>row_balance := x\<rparr>) = row_parses r"
    by (auto simp: row_parses_def account_toDomain_def split: option.splits)
  show "row_parses (account_toDatabase a)" using toDomain_toDatabase by (auto simp: row_parses_def)
  show "row_parses r \<Longrightarrow> row_parses (account_toUpdatePayload a r)"
    by (cases a) (auto simp: row_parses_def account_toDomain_def split: if_splits option.splits)
qed

lemma touches_parse: "touches A d d' \<Longrightarrow> rows_parse d \<Longrightarrow> rows_parse d'"
  by (auto simp: touches_def posts_def rows_parse_def account_simps)

lemma owns_moves_mono:
  "owns_moves d ws ty s x \<Longrightarrow> (\<And>i. i \<in> moves ty s x \<Longrightarrow> owned d i ws \<Longrightarrow> owned d' i ws) \<Longrightarrow> owns_moves d' ws ty s x"
  by (simp add: owns_moves_def)

lemma tenant_ok_step:
  assumes own: "\<And>i ws. owned d i ws \<Longrightarrow> owned d' i ws"
    and "\<And>t. t \<in> set (transactions d') \<Longrightarrow> tx_fine d t"
    and "\<And>r. r \<in> set (recurrings d') \<Longrightarrow> rule_owned d r" and "rows_parse d'"
  shows "tenant_ok d'"
  unfolding tenant_ok_def using owns_moves_mono[OF _ own] assms(2,3,4) by blast

text \<open>A transition on behalf of workspace \<open>ws\<close> leaves the other workspaces as they are.\<close>

definition confined :: "string \<Rightarrow> db \<Rightarrow> db \<Rightarrow> bool" where
  "confined ws d d' = (tenant_ok d' \<and> (\<forall>v. v \<noteq> ws \<longrightarrow> tenant_rows v d' = tenant_rows v d
     \<and> tenant_txs v d' = tenant_txs v d \<and> tenant_rules v d' = tenant_rules v d))"

lemma owned_workspace: "owned d i ws \<Longrightarrow> v \<noteq> ws \<Longrightarrow> tenant_rows v d i = None"
  by (auto simp: owned_def tenant_rows_def split: option.splits)

lemma touches_rows:
  assumes "touches A d d'" "\<And>i. i \<in> A \<Longrightarrow> owned d i ws" "v \<noteq> ws"
  shows "tenant_rows v d' = tenant_rows v d"
proof
  fix i
  show "tenant_rows v d' i = tenant_rows v d i"
  proof (cases "i \<in> A")
    case True
    with assms(2) have "owned d i ws" by blast
    then show ?thesis using owned_workspace assms(3) touches_owned[OF assms(1), of i ws] by metis
  next
    case False
    then show ?thesis by (simp add: tenant_rows_def touches_row[OF assms(1)])
  qed
qed

lemma filter_update_rows:
  "(\<And>x. x \<in> set xs \<Longrightarrow> p x \<Longrightarrow> \<not> q x \<and> \<not> q (f x)) \<Longrightarrow> filter q (update_rows p f xs) = filter q xs"
  by (induction xs) (auto simp: update_rows_def)

lemma filter_delete_rows:
  "(\<And>x. x \<in> set xs \<Longrightarrow> p x \<Longrightarrow> \<not> q x) \<Longrightarrow> filter q (delete_rows p xs) = filter q xs"
  by (induction xs) (auto simp: delete_rows_def)

lemma confinedI:
  assumes "tenant_ok d" "touches A d d'" "\<And>i. i \<in> A \<Longrightarrow> owned d i ws"
    and "\<And>t. t \<in> set (transactions d') \<Longrightarrow> t \<in> set (transactions d) \<or> tx_fine d t"
    and "\<And>r. r \<in> set (recurrings d') \<Longrightarrow> r \<in> set (recurrings d) \<or> rule_owned d r"
    and "\<And>v. v \<noteq> ws \<Longrightarrow> tenant_txs v d' = tenant_txs v d \<and> tenant_rules v d' = tenant_rules v d"
  shows "confined ws d d'"
proof -
  have "tenant_ok d'"
    by (rule tenant_ok_step[of d]) (use assms(1,2,4,5) touches_owned touches_parse tenant_ok_def in blast)+
  with assms(6) touches_rows[OF assms(2,3)] show ?thesis by (simp add: confined_def)
qed

lemma touches_nothing: "accounts d' = accounts d \<Longrightarrow> movements d' = movements d \<Longrightarrow> touches {} d d'"
  unfolding touches_def by (intro exI[of _ "\<lambda>_. 0"]) (simp add: posts_def account_row_of_def movements_of_def option.map_ident)

lemma distinct_update_rows_key:
  assumes "\<And>x. p x \<Longrightarrow> key (f x) = key x"
  shows "distinct_by key (update_rows p f xs) = distinct_by key xs"
proof -
  have "map key (update_rows p f xs) = map key xs" using assms by (simp add: update_rows_def)
  then show ?thesis by (simp add: distinct_by_def)
qed

lemma recurring_update_confined:
  assumes "recurring_update r' d = Inr d'" "recurring_of d (rc_id r') = Some r"
    and "rc_workspaceId r = ws" "rc_workspaceId r' = ws" "tenant_ok d" "rule_owned d r'"
  shows "confined ws d d'"
proof (rule confinedI[OF assms(5), of "{}"])
  from assms(1) have d': "d' = d\<lparr>recurrings := update_rows (\<lambda>x. rc_id x = rc_id r') (\<lambda>_. r') (recurrings d)\<rparr>"
    and "distinct_by rc_id (recurrings d')" by (simp_all add: recurring_update_def enforce_Inr unique_ok_def)
  then have dist: "distinct_by rc_id (recurrings d)" 
    using distinct_update_rows_key[of "\<lambda>x. rc_id x = rc_id r'" rc_id "\<lambda>_. r'" "recurrings d"] by simp
  show "touches {} d d'" by (rule touches_nothing) (simp_all add: d')
  show "t \<in> set (transactions d) \<or> tx_fine d t" if "t \<in> set (transactions d')" for t using that by (simp add: d')
  show "x \<in> set (recurrings d) \<or> rule_owned d x" if "x \<in> set (recurrings d')" for x
    using that assms(6) by (auto simp: d' update_rows_def split: if_splits)
  have "rc_workspaceId x = ws" if "x \<in> set (recurrings d)" "rc_id x = rc_id r'" for x
    using dist that recurring_ofD[OF assms(2)] assms(3) by (auto simp: distinct_by_def distinct_map inj_on_def)
  then have "filter (\<lambda>x. rc_workspaceId x = v) (recurrings d') = filter (\<lambda>x. rc_workspaceId x = v) (recurrings d)"
    if "v \<noteq> ws" for v
    using that assms(4) unfolding d' by (simp, intro filter_update_rows) auto
  then show "tenant_txs v d' = tenant_txs v d \<and> tenant_rules v d' = tenant_rules v d" if "v \<noteq> ws" for v
    using that by (simp add: tenant_txs_def tenant_rules_def d')
qed simp_all

section \<open>Each request\<close>

lemma valid_amount: "valid_transaction t \<Longrightarrow> 0 < tx_amount t"
  by (simp add: valid_transaction_def)

lemma create_confined:
  assumes "createWithBalanceUpdate uuid t f ctx d = Inr d'" "net_mutation (balanceEffects t) f"
    and "tx_owned d t" "valid_transaction t" "tx_workspaceId t = ws" "tenant_ok d"
  shows "confined ws d d'"
  using create_touches[OF assms(1,2)] assms(3,5,6) valid_amount[OF assms(4)]
  by (intro confinedI[of d "tx_moves t"]) (auto simp: tenant_txs_def tenant_rules_def owns_moves_def)

lemma plan_confined:
  assumes "createInstallmentPlan uuid r t ctx d = Inr d'"
    and "tx_owned d t" "valid_transaction t" "tx_workspaceId t = ws" "rule_owned d r" "rc_workspaceId r = ws"
    and "tenant_ok d"
  shows "confined ws d d'"
  using plan_touches[OF assms(1)] assms(2,4-7) valid_amount[OF assms(3)]
  by (intro confinedI[of d "tx_moves t"]) (auto simp: tenant_txs_def tenant_rules_def owns_moves_def)

lemma update_confined:
  assumes "updateWithBalanceEffect tid mutate ctx d = Inr (d', u)" "transaction_of d tid = Some cur0"
    and "tx_workspaceId cur0 = ws" "tenant_ok d" "distinct_by tx_id (transactions d)"
    and m: "\<And>t v. mutate t = Inr v \<Longrightarrow> tx_id v = tx_id t \<and> tx_workspaceId v = ws \<and> tx_fine d v"
  shows "confined ws d d'"
  using assms(1)
proof (rule update_touches)
  fix cur assume cur: "transaction_of d tid = Some cur" "mutate cur = Inr u"
    and t: "touches (tx_moves cur \<union> tx_moves u) d d'" "recurrings d' = recurrings d"
      "transactions d' = update_rows (\<lambda>r. tx_id r = tx_id u) (\<lambda>_. u) (transactions d)"
  note cur' = transaction_ofD[OF cur(1)]
  note u = m[OF cur(2)]
  have ws: "tx_workspaceId cur = ws" using cur(1) assms(2,3) by simp
  have same: "x = cur" if "x \<in> set (transactions d)" "tx_id x = tx_id u" for x
    using that assms(5) cur' u by (auto simp: distinct_by_def distinct_map inj_on_def)
  show ?thesis
  proof (rule confinedI[OF assms(4) t(1)])
    show "owned d i ws" if "i \<in> tx_moves cur \<union> tx_moves u" for i
      using that assms(4) cur' u ws unfolding tenant_ok_def owns_moves_def by auto
    show "x \<in> set (transactions d) \<or> tx_fine d x" if "x \<in> set (transactions d')" for x
      using that u by (auto simp: t(3) update_rows_def split: if_splits)
    show "tenant_txs v d' = tenant_txs v d \<and> tenant_rules v d' = tenant_rules v d" if "v \<noteq> ws" for v
      using that u same ws
      by (auto simp: tenant_txs_def tenant_rules_def t intro!: filter_update_rows)
  qed (simp add: t(2))
qed

lemma delete_confined:
  assumes "deleteWithBalanceEffect tid ctx d = Inr (d', b)" "transaction_of d tid = Some cur"
    and "tx_workspaceId cur = ws" "tenant_ok d" "distinct_by tx_id (transactions d)"
  shows "confined ws d d'"
  using delete_touches[OF assms(1,2)]
proof
  assume "d' = d" with assms(4) show ?thesis by (simp add: confined_def)
next
  note cur' = transaction_ofD[OF assms(2)]
  assume t: "touches (tx_moves cur) d d' \<and> recurrings d' = recurrings d
    \<and> transactions d' = delete_rows (\<lambda>t. tx_id t = tx_id cur) (transactions d)"
  have same: "x = cur" if "x \<in> set (transactions d)" "tx_id x = tx_id cur" for x
    using that assms(5) cur' by (auto simp: distinct_by_def distinct_map inj_on_def)
  show ?thesis
  proof (rule confinedI[OF assms(4)])
    show "owned d i ws" if "i \<in> tx_moves cur" for i
      using that assms(3,4) cur' unfolding tenant_ok_def owns_moves_def by auto
    show "tenant_txs v d' = tenant_txs v d \<and> tenant_rules v d' = tenant_rules v d" if "v \<noteq> ws" for v
      using that same assms(3) t
      by (auto simp: tenant_txs_def tenant_rules_def intro!: filter_delete_rows)
  qed (use t in \<open>auto simp: delete_rows_def\<close>)
qed

lemma status_confined:
  assumes "updateStatusWithBalanceEffect now params ctx d = Inr (d', u)" "sp_workspaceId params = ws" "tenant_ok d"
  shows "confined ws d d'"
  using assms(1)
proof (rule status_touches)
  fix row assume row: "row \<in> set (transactions d)" "status_candidate params row"
    and t: "touches (tx_moves row) d d'" "recurrings d' = recurrings d"
      "transactions d' = update_rows (status_candidate params)
       (\<lambda>t. t\<lparr>tx_status := sp_status params, tx_updatedAt := Some now\<rparr>) (transactions d)"
  show ?thesis
  proof (rule confinedI[OF assms(3) t(1)])
    show "owned d i ws" if "i \<in> tx_moves row" for i
      using that assms(2,3) row unfolding tenant_ok_def owns_moves_def status_candidate_def by auto
    show "x \<in> set (transactions d) \<or> tx_fine d x" if "x \<in> set (transactions d')" for x
      using that assms(3) by (auto simp: t(3) update_rows_def tenant_ok_def split: if_splits)
    show "tenant_txs v d' = tenant_txs v d \<and> tenant_rules v d' = tenant_rules v d" if "v \<noteq> ws" for v
      using that assms(2)
      by (auto simp: tenant_txs_def tenant_rules_def t status_candidate_def intro!: filter_update_rows)
  qed (simp add: t(2))
qed

lemma rules_confined:
  assumes "accounts d' = accounts d" "movements d' = movements d" "transactions d' = transactions d" "tenant_ok d"
    and "\<And>r. r \<in> set (recurrings d') \<Longrightarrow> r \<in> set (recurrings d) \<or> rule_owned d r"
    and "\<And>v. v \<noteq> ws \<Longrightarrow> tenant_rules v d' = tenant_rules v d"
  shows "confined ws d d'"
  by (rule confinedI[OF assms(4) touches_nothing[OF assms(1,2)]]) (use assms in \<open>auto simp: tenant_txs_def\<close>)

lemma recurring_create_confined:
  assumes "recurring_create uuid r d = Inr (d', r')" "rc_workspaceId r = ws" "rule_owned d r" "tenant_ok d"
  shows "confined ws d d'"
proof -
  from assms(1) have d': "d' = d\<lparr>recurrings := recurrings d @ [r\<lparr>rc_id := ensureEntityId uuid (rc_id r)\<rparr>]\<rparr>"
    by (auto simp: recurring_create_def insert_recurring_def Let_def and_then_Inr_iff enforce_Inr)
  show ?thesis by (rule rules_confined[OF _ _ _ assms(4)]) (use assms(2,3) in \<open>auto simp: d' tenant_rules_def\<close>)
qed

lemma recurring_delete_confined:
  assumes "recurring_delete rid d = Inr d'" "recurring_of d rid = Some r" "rc_workspaceId r = ws"
    and "distinct_by rc_id (recurrings d)" "tenant_ok d"
  shows "confined ws d d'"
proof -
  from assms(1) have d': "d' = d\<lparr>recurrings := delete_rows (\<lambda>r. rc_id r = rid) (recurrings d)\<rparr>"
    by (simp add: recurring_delete_def enforce_Inr)
  have same: "x = r" if "x \<in> set (recurrings d)" "rc_id x = rid" for x
    using that assms(4) recurring_ofD[OF assms(2)] by (auto simp: distinct_by_def distinct_map inj_on_def)
  show ?thesis
  proof (rule rules_confined[OF _ _ _ assms(5)])
    show "tenant_rules v d' = tenant_rules v d" if "v \<noteq> ws" for v
      using that same assms(3) by (auto simp: d' tenant_rules_def intro!: filter_delete_rows)
  qed (auto simp: d' delete_rows_def)
qed

lemma open_confined:
  assumes "createWithOpeningMovement uuid acc actor d = Inr d'" "workspace_of acc = ws" "tenant_ok d"
  shows "confined ws d d'"
proof -
  from assms(1,2) obtain b m where d': "d' = d\<lparr>accounts := accounts d @ [account_toDatabase b], movements := movements d @ [m]\<rparr>"
    and b: "workspace_of b = ws"
    by (auto simp: createWithOpeningMovement_def insertOpeningMovement_def Let_def duplicate_key_def account_simps
        split: if_splits dest!: insert_movement_Inr)
  let ?a = "account_toDatabase b"
  have a: "row_workspaceId ?a = ws" "row_parses ?a" using b by (simp_all add: account_simps) (simp add: account_toDatabase_def)
  have row: "account_row_of d' i = (case account_row_of d i of None \<Rightarrow> if row_id ?a = i then Some ?a else None | r \<Rightarrow> r)" for i
    by (simp add: d' account_row_of_def table_simps split: option.splits)
  have "tenant_ok d'"
    by (rule tenant_ok_step[of d])
       (use assms(3) a(2) row in \<open>auto simp: d' tenant_ok_def owned_def rows_parse_def split: option.splits if_splits\<close>)
  moreover have "tenant_rows v d' = tenant_rows v d" if "v \<noteq> ws" for v
    using that a by (auto simp: tenant_rows_def row split: option.splits)
  ultimately show ?thesis by (simp add: confined_def tenant_txs_def tenant_rules_def d')
qed

lemma edit_account_confined:
  assumes "account_row_of d (account_id acc) = Some r" "row_workspaceId r = ws" "tenant_ok d"
  shows "confined ws d (account_update acc d)"
proof -
  let ?d = "account_update acc d"
  have row: "account_row_of ?d i = map_option
      (\<lambda>r. if i = account_id acc then account_toUpdatePayload acc r else r) (account_row_of d i)" for i
    by (cases "i = account_id acc")
       (simp_all add: account_row_of_def account_update_def table_simps account_simps option.map_ident)
  have same: "transactions ?d = transactions d" "recurrings ?d = recurrings d" by (simp_all add: account_update_def)
  have "tenant_ok ?d"
    by (rule tenant_ok_step[of d])
       (use assms(3) same in \<open>auto simp: tenant_ok_def rows_parse_def owned_def row account_simps split: option.splits\<close>)
  moreover have "tenant_rows v ?d = tenant_rows v d" if "v \<noteq> ws" for v
    using that assms(1,2) by (auto simp: tenant_rows_def row account_simps split: option.splits)
  ultimately show ?thesis by (simp add: confined_def tenant_txs_def tenant_rules_def account_update_def)
qed

text \<open>
  The deletion of an account removes or clears what refers to it. Another workspace
  cannot have moved money on it; at most it has named it as the destination of a
  transaction that is no transfer, which has no effect there.
\<close>

definition tenant_money :: "string \<Rightarrow> db \<Rightarrow> (string \<times> balance_effect list) list" where
  "tenant_money v d = map (\<lambda>t. (tx_id t, balanceEffects t)) (tenant_txs v d)"

lemma clear_effects:
  "aid \<notin> tx_moves t \<Longrightarrow> balanceEffects (clear_tx_destination aid t) = balanceEffects t"
  by (auto simp: clear_tx_destination_def moves_def balanceEffects_def resolveBalanceEffects_def buildEffect_def
      split: if_splits)

lemma map_filter_cong:
  "(\<And>x. x \<in> set xs \<Longrightarrow> q x \<Longrightarrow> \<not> p x \<and> g (f x) = g x) \<Longrightarrow> (\<And>x. q (f x) = q x)
     \<Longrightarrow> map g (filter q (map f (delete_rows p xs))) = map g (filter q xs)"
  by (induction xs) (auto simp: delete_rows_def)

lemma delete_account_confined:
  assumes "account_delete aid d = Inr d'" "owned d aid ws" "tenant_ok d"
  shows "tenant_ok d' \<and> (\<forall>v. v \<noteq> ws \<longrightarrow> tenant_rows v d' = tenant_rows v d \<and> tenant_money v d' = tenant_money v d)"
proof -
  from assms(1) have d': "accounts d' = delete_rows (\<lambda>r. row_id r = aid) (accounts d)"
    "transactions d' = map (clear_tx_destination aid) (delete_rows (\<lambda>t. tx_accountId t = aid) (transactions d))"
    "recurrings d' = map (clear_rc_destination aid) (delete_rows (\<lambda>r. rc_accountId r = aid) (recurrings d))"
    by (auto simp: account_delete_def Let_def enforce_Inr)
  have row: "account_row_of d' i = (if i = aid then None else account_row_of d i)" for i
    by (cases "i = aid") (simp_all add: account_row_of_def d' table_simps)
  have own: "owned d' i v" if "owned d i v" "i \<noteq> aid" for i v using that by (simp add: owned_def row)
  have "tx_fine d' t" if "t \<in> set (transactions d')" for t
    using that assms(3) own
    by (auto simp: d' delete_rows_def tenant_ok_def owns_moves_def moves_def clear_tx_destination_def split: if_splits)
  moreover have "rule_owned d' r" if "r \<in> set (recurrings d')" for r
    using that assms(3) own
    by (auto simp: d' delete_rows_def tenant_ok_def owns_moves_def moves_def clear_rc_destination_def split: if_splits)
  moreover have "tenant_rows v d' = tenant_rows v d" if "v \<noteq> ws" for v
    using that assms(2) by (auto simp: fun_eq_iff tenant_rows_def row owned_def split: option.splits)
  moreover have "tenant_money v d' = tenant_money v d" if "v \<noteq> ws" for v
  proof -
    have "aid \<notin> tx_moves t" if "t \<in> set (transactions d)" "tx_workspaceId t = v" for t
    proof
      assume "aid \<in> tx_moves t"
      with that assms(3) have "owned d aid v" unfolding tenant_ok_def owns_moves_def by blast
      with assms(2) \<open>v \<noteq> ws\<close> show False by (simp add: owned_def split: option.splits)
    qed
    then show ?thesis unfolding tenant_money_def tenant_txs_def d'
      by (intro map_filter_cong) (auto simp: moves_def clear_effects, auto simp: clear_tx_destination_def)
  qed
  moreover have "rows_parse d'" using assms(3) by (simp add: tenant_ok_def rows_parse_def row)
  ultimately show ?thesis by (simp add: tenant_ok_def)
qed

section \<open>The program\<close>

text \<open>
  The invariant of the tables: the ledger is in order, ids are unique, references
  resolve and every workspace keeps to its own accounts.
\<close>

definition tables_ok :: "db \<Rightarrow> bool" where
  "tables_ok d = (ledger_ok d \<and> unique_ok d \<and> references_ok d)"

definition system_ok :: "db \<Rightarrow> bool" where
  "system_ok d = (tables_ok d \<and> tenant_ok d)"

text \<open>
  What a request that succeeded on behalf of \<open>ws\<close> has done: it kept to its workspace, and
  bumped the report generation of that workspace (\<open>b\<close>) or not.
\<close>

definition served_as :: "string \<Rightarrow> bool \<Rightarrow> world \<Rightarrow> world \<Rightarrow> bool" where
  "served_as ws b w w' = (confined ws (w_db w) (w_db w')
     \<and> w_increments w' = w_increments w @ (if b then [reportGenerationKey ws] else []))"

lemma system_okD:
  "system_ok d \<Longrightarrow> tenant_ok d" "system_ok d \<Longrightarrow> distinct_by row_id (accounts d)"
  "system_ok d \<Longrightarrow> distinct_by tx_id (transactions d)" "system_ok d \<Longrightarrow> distinct_by rc_id (recurrings d)"
  by (simp_all add: system_ok_def tables_ok_def unique_ok_def ledger_ok_def)

lemma account_requests_confined:
  assumes "system_ok (w_db w)"
  shows "createAccount uuid ca w = Inr (w', a) \<Longrightarrow> served_as (ca_workspaceId ca) True w w'"
    and "updateAccount ua w = Inr (w', a) \<Longrightarrow> served_as (ua_workspaceId ua) False w w'"
  using system_okD[OF assms] open_confined edit_account_confined ca_build_facts(2)
  by (auto simp: served_as_def elim!: createAccount_Inr updateAccount_Inr)

lemma createTransaction_confined:
  assumes "system_ok (w_db w)" "createTransaction dp now uuid req w = Inr (w', a)"
  shows "served_as (ct_workspaceId req) True w w'"
  using assms(2) system_okD[OF assms(1)] create_confined create_mutation.net
  by (auto simp: served_as_def elim!: createTransaction_Inr)

lemma updateTransaction_confined:
  assumes "system_ok (w_db w)" "updateTransaction dp now req w = Inr (w', a)"
  shows "served_as (ut_workspaceId req) True w w'"
  using assms(2) system_okD[OF assms(1)]
  by (auto simp: served_as_def intro: update_confined elim!: updateTransaction_Inr)

lemma deleteTransaction_confined:
  assumes "system_ok (w_db w)" "deleteTransaction tid ws sub w = Inr (w', a)"
  shows "served_as ws True w w'"
  using assms(2) system_okD[OF assms(1)] delete_confined
  by (auto simp: served_as_def elim!: deleteTransaction_Inr)

lemma setTransactionStatus_confined:
  assumes "system_ok (w_db w)" "setTransactionStatus now tid ws sub s w = Inr (w', a)"
  shows "served_as ws True w w'"
  using assms(2) system_okD[OF assms(1)]
  by (auto simp: served_as_def intro: status_confined elim!: setTransactionStatus_Inr)

lemma payCreditCardInvoice_confined:
  assumes "system_ok (w_db w)" "payCreditCardInvoice dp now uuid req w = Inr (w', a)"
  shows "served_as (py_workspaceId req) True w w'"
  by (rule payCreditCardInvoice_Inr[OF assms(2) system_okD(2)[OF assms(1)]])
     (use system_okD[OF assms(1)] create_confined payment_mutation.net in \<open>auto simp: served_as_def\<close>)

lemma createInstallmentPurchase_confined:
  assumes "system_ok (w_db w)" "createInstallmentPurchase dp now ruuid tuuid req w = Inr (w', r, t)"
  shows "served_as (ip_workspaceId req) True w w'"
  using assms(2) system_okD[OF assms(1)] plan_confined
  by (auto simp: served_as_def elim!: createInstallmentPurchase_Inr)

lemma createRecurring_confined:
  assumes "system_ok (w_db w)" "createRecurringTransaction dp now uuid req w = Inr (w', r)"
  shows "served_as (cr_workspaceId req) True w w'"
  using assms(2) system_okD[OF assms(1)] recurring_create_confined
  by (auto simp: served_as_def elim!: createRecurringTransaction_Inr)

lemma updateRecurring_confined:
  assumes "system_ok (w_db w)" "updateRecurringTransaction dp now req w = Inr (w', r')"
  shows "served_as (ur_workspaceId req) True w w'"
  using assms(2)
proof (rule updateRecurringTransaction_Inr)
  fix r assume r: "recurring_of (w_db w) (ur_id req) = Some r" "rc_workspaceId r = ur_workspaceId req"
    "recurring_update r' (w_db w) = Inr (w_db w')" "rc_id r' = ur_id req" "rc_workspaceId r' = ur_workspaceId req"
    and own: "rule_owned (w_db w) r \<Longrightarrow> rule_owned (w_db w) r'"
    and inc: "w_increments w' = w_increments w @ [reportGenerationKey (ur_workspaceId req)]"
  note ok = system_okD(1)[OF assms(1)]
  have "rule_owned (w_db w) r" using ok recurring_ofD[OF r(1)] unfolding tenant_ok_def by blast
  from recurring_update_confined[OF r(3) _ r(2,5) ok own[OF this]] r(1,4) inc show ?thesis
    by (simp add: served_as_def)
qed

lemma toggleActive_confined:
  assumes "system_ok (w_db w)" "toggleActiveRecurringTransaction rid ws w = Inr (w', r')"
  shows "served_as ws True w w'"
  using assms(2)
proof (rule toggleActive_Inr)
  fix r assume r: "recurring_of (w_db w) rid = Some r" "rc_workspaceId r = ws" "r' = rc_setActive (\<not> rc_active r) r"
    "recurring_update r' (w_db w) = Inr (w_db w')" and inc: "w_increments w' = w_increments w @ [reportGenerationKey ws]"
  note ok = system_okD(1)[OF assms(1)] and same = edits_keep_moves(4)[of "\<not> rc_active r" r, folded r(3)]
  have "rule_owned (w_db w) r'"
    using ok recurring_ofD[OF r(1)] same unfolding tenant_ok_def same_moves_def by auto
  from recurring_update_confined[OF r(4) _ r(2) _ ok this] r same recurring_ofD[OF r(1)] inc show ?thesis
    by (simp add: served_as_def same_moves_def)
qed

lemma deleteRecurring_confined:
  assumes "system_ok (w_db w)" "deleteRecurringTransaction rid ws w = Inr (w', u)"
  shows "served_as ws True w w'"
  using assms(2) system_okD[OF assms(1)] recurring_delete_confined
  by (auto simp: served_as_def elim!: deleteRecurring_Inr)

lemmas request_confined = account_requests_confined createTransaction_confined updateTransaction_confined
  deleteTransaction_confined setTransactionStatus_confined payCreditCardInvoice_confined
  createInstallmentPurchase_confined createRecurring_confined updateRecurring_confined
  toggleActive_confined deleteRecurring_confined

fun bumps :: "service_call \<Rightarrow> bool" where
  "bumps (UpdateAccount req) = False"
| "bumps _ = True"

lemma perform_confined:
  assumes "perform dp now c w = Inr w'" "system_ok (w_db w)" "\<nexists>aid ws. c = DeleteAccount aid ws"
  shows "served_as (call_workspace c) (bumps c) w w'"
  using assms by (cases c) (auto simp: and_then_Inr_iff intro: request_confined)

section \<open>Every transition is a step of the repositories\<close>

lemma unique_ok_cong: "transactions d' = transactions d \<Longrightarrow> recurrings d' = recurrings d \<Longrightarrow> unique_ok d' = unique_ok d"
  by (simp add: unique_ok_def)

lemma slots_update:
  "(\<And>t. tx_recurringId (f t) = tx_recurringId t \<and> tx_date (f t) = tx_date t) \<Longrightarrow>
     recurring_slots (update_rows p f ts) = recurring_slots ts"
  by (induction ts) (auto simp: recurring_slots_def update_rows_def split: option.splits)

lemma slots_delete:
  "set (recurring_slots (delete_rows p ts)) \<subseteq> set (recurring_slots ts)"
  "distinct (recurring_slots ts) \<Longrightarrow> distinct (recurring_slots (delete_rows p ts))"
proof -
  show sub: "set (recurring_slots (delete_rows p ts)) \<subseteq> set (recurring_slots ts)"
    by (auto simp: recurring_slots_def delete_rows_def)
  show "distinct (recurring_slots ts) \<Longrightarrow> distinct (recurring_slots (delete_rows p ts))"
    by (induction ts) (auto simp: recurring_slots_def delete_rows_def)
qed

lemma persist_unique:
  assumes "persistWithBalanceUpdate uuid accts t f ctx d = Inr d'"
  shows "unique_ok d'"
proof -
  from assms obtain ds en d1 where "unique_ok d1" and w: "writeBalanceDeltas ds en d1 = Inr d'"
    by (auto simp: persistWithBalanceUpdate_def and_then_Inr_iff insert_transaction_Inr Let_def)
  with unique_ok_cong[OF writeBalanceDeltas_posts(2,3)[OF w]] show ?thesis by simp
qed

lemma repo_step_unique: "repo_step d d' \<Longrightarrow> unique_ok d \<Longrightarrow> unique_ok d'"
proof (induction rule: repo_step.induct)
  case (open_account uuid acc actor d d')
  then show ?case using unique_ok_cong[of d' d]
    by (auto simp: createWithOpeningMovement_def insertOpeningMovement_def Let_def duplicate_key_def
        split: if_splits dest!: insert_movement_Inr)
next
  case (edit_account d acc)
  then show ?case using unique_ok_cong[of "account_update acc d" d] by (simp add: account_update_def)
next
  case (create_tx uuid t f ctx d d')
  then show ?case by (auto simp: createWithBalanceUpdate_def and_then_Inr_iff dest: persist_unique)
next
  case (create_plan uuid r first ctx d d')
  then show ?case by (auto simp: createInstallmentPlan_def and_then_Inr_iff dest: persist_unique)
next
  case (update_tx tid mutate ctx d d' u)
  then show ?case
    by (auto simp: updateWithBalanceEffect_def update_transaction_row_def enforce_Inr and_then_Inr_iff
        split: option.splits)
next
  case (delete_tx tid ctx d d' b)
  then obtain cur where "transaction_of d tid = Some cur"
    by (auto simp: deleteWithBalanceEffect_def split: option.splits)
  from delete_touches[OF delete_tx(1) this] delete_tx(2) show ?case
    by (auto simp: unique_ok_def distinct_by_delete_rows slots_delete)
next
  case (set_status now params ctx d d' u)
  from set_status(1) show ?case
    by (rule status_touches) (use set_status(2) in \<open>simp add: unique_ok_def slots_update table_simps\<close>)
qed (auto simp: createGeneratedTransactions_def recurring_create_def insert_recurring_def recurring_update_def
    recurring_delete_def Let_def and_then_Inr_iff enforce_Inr)

lemma edit_account_references: "references_ok d \<Longrightarrow> references_ok (account_update acc d)"
proof (erule references_ok_mono)
  show "account_row_of (account_update acc d) i \<noteq> None" if "account_row_of d i \<noteq> None" for i
    using that by (cases "i = account_id acc")
      (simp_all add: account_row_of_def account_update_def table_simps account_simps)
qed (auto simp: account_update_def)

lemma repo_step_references: "repo_step d d' \<Longrightarrow> references_ok d \<Longrightarrow> references_ok d'"
  by (induction rule: repo_step.induct)
     (auto simp: createWithBalanceUpdate_def createInstallmentPlan_def createGeneratedTransactions_def
        recurring_create_def insert_recurring_def recurring_update_def recurring_delete_def Let_def
        and_then_Inr_iff enforce_Inr opening_references edit_account_references updateWithBalanceEffect_references
        dest: persist_references deleteWithBalanceEffect_references updateStatus_references)

lemma repo_step_tables_ok: "repo_step d d' \<Longrightarrow> tables_ok d \<Longrightarrow> tables_ok d'"
  using repo_step_ledger_ok repo_step_unique repo_step_references by (simp add: tables_ok_def)

lemma account_delete_tables_ok: "account_delete aid d = Inr d' \<Longrightarrow> tables_ok d \<Longrightarrow> tables_ok d'"
  using account_delete_ledger_ok[of aid d d'] by (simp add: tables_ok_def account_delete_def Let_def enforce_Inr)

lemma perform_step:
  assumes "perform dp now c w = Inr w'" "tables_ok (w_db w)"
  shows "case c of DeleteAccount aid ws \<Rightarrow> account_delete aid (w_db w) = Inr (w_db w')
     | _ \<Rightarrow> repo_step (w_db w) (w_db w')"
proof -
  have dist: "distinct_by row_id (accounts (w_db w))" using assms(2) by (simp add: tables_ok_def ledger_ok_def)
  from assms(1) show ?thesis
  proof (cases c)
    case (PayCreditCardInvoice uuid req)
    with assms(1) obtain a where "payCreditCardInvoice dp now uuid req w = Inr (w', a)" by (auto simp: and_then_Inr_iff)
    then show ?thesis
      by (rule payCreditCardInvoice_Inr[OF _ dist])
         (use PayCreditCardInvoice create_tx[OF _ payment_mutation.net] in simp)
  next
    case (CreateTransaction uuid req)
    with assms(1) obtain a where "createTransaction dp now uuid req w = Inr (w', a)" by (auto simp: and_then_Inr_iff)
    then show ?thesis
      by (rule createTransaction_Inr) (use CreateTransaction create_tx[OF _ create_mutation.net] in simp)
  next
    case (UpdateTransaction req)
    with assms(1) obtain a where "updateTransaction dp now req w = Inr (w', a)" by (auto simp: and_then_Inr_iff)
    then show ?thesis
    proof (rule updateTransaction_Inr)
      fix mutate
      assume up: "updateWithBalanceEffect (ut_transactionId req) mutate \<lparr>ctx_cause = None, ctx_actorId = ut_sub req\<rparr>
          (w_db w) = Inr (w_db w', a)"
        and keeps: "\<And>t v. mutate t = Inr v \<Longrightarrow> tx_id v = tx_id t \<and> tx_workspaceId v = ut_workspaceId req
          \<and> tx_fine (w_db w) v"
      from update_tx[OF up] keeps show ?thesis by (simp add: UpdateTransaction)
    qed
  next
    case (CreateInstallmentPurchase ruuid tuuid req)
    with assms(1) show ?thesis by (auto simp: and_then_Inr_iff elim!: createInstallmentPurchase_Inr intro: create_plan)
  next
    case (UpdateAccount req)
    with assms(1) show ?thesis by (auto simp: and_then_Inr_iff elim!: updateAccount_Inr intro: edit_account)
  qed (auto simp: and_then_Inr_iff intro: repo_step.intros
      elim!: createAccount_Inr deleteAccount_Inr deleteTransaction_Inr setTransactionStatus_Inr
        createRecurringTransaction_Inr updateRecurringTransaction_Inr toggleActive_Inr deleteRecurring_Inr)
qed

section \<open>The jobs\<close>

lemma generation_loop_built:
  assumes "generation_loop left dp now th target r ts = (r', ts', fl)"
    and "\<And>t. t \<in> set ts \<Longrightarrow> Q t"
    and "\<And>r1 x t. same_moves r1 r \<Longrightarrow> Transaction_create now (generated_draft r1 x) (Some PENDING) None None [] = Inr t \<Longrightarrow> Q t"
  shows "same_moves r' r \<and> (\<forall>t\<in>set ts'. Q t)"
  using assms
proof (induction left arbitrary: target r ts)
  case 0
  then show ?case
    by (auto simp: generation_loop.simps[of 0] same_moves_def split: if_splits)
next
  case (Suc n)
  have set: "same_moves (rc_setActive False r) r" "same_moves r r" by (rule edits_keep_moves)+
  have mark: "same_moves r1 (rc_markAsGenerated target r) \<longleftrightarrow> same_moves r1 r" for r1
    by (simp add: same_moves_def rc_markAsGenerated_def)
  note eq = Suc.prems(1)[unfolded generation_loop.simps[of "Suc n"]]
  show ?case
  proof (cases "target > th \<or> (case rc_endDate r of None \<Rightarrow> False | Some e \<Rightarrow> target > e)")
    case True
    with eq Suc.prems(2) set show ?thesis by (auto split: if_splits)
  next
    case False
    show ?thesis
    proof (cases "Transaction_create now (generated_draft r target) (Some PENDING) None None []")
      case (Inl e)
      with eq Suc.prems(2) False set show ?thesis by simp
    next
      case (Inr t)
      from eq False Inr have rec: "generation_loop n dp now th (next_target dp r target)
          (rc_markAsGenerated target r) (ts @ [t]) = (r', ts', fl)" by simp
      have "same_moves r' (rc_markAsGenerated target r) \<and> (\<forall>t\<in>set ts'. Q t)"
        by (rule Suc.IH[OF rec]) (use Suc.prems(2,3) Suc.prems(3)[OF set(2) Inr] mark in auto)
      then show ?thesis by (simp add: mark)
    qed
  qed
qed

lemma generateForRecurring_step:
  assumes "generateForRecurring dp now fresh th r d = (d', out)"
  obtains "d' = d" | r' ts n where "createGeneratedTransactions fresh ts r' d = Inr (d', n)"
    "\<And>t. t \<in> set ts \<Longrightarrow> tx_status t = PENDING \<and> tx_workspaceId t = rc_workspaceId r \<and> tx_type t = rc_type r
       \<and> tx_accountId t = rc_accountId r \<and> tx_destinationAccountId t = rc_destinationAccountId r
       \<and> 0 < tx_amount t"
    "rc_id r' = rc_id r"
proof -
  define Q where "Q t \<longleftrightarrow> tx_status t = PENDING \<and> tx_workspaceId t = rc_workspaceId r \<and> tx_type t = rc_type r
       \<and> tx_accountId t = rc_accountId r \<and> tx_destinationAccountId t = rc_destinationAccountId r
       \<and> 0 < tx_amount t" for t :: transaction
  have built: "Q t" if "same_moves r1 r" "Transaction_create now (generated_draft r1 x) (Some PENDING) None None [] = Inr t"
    for r1 x t
    using that valid_amount[OF Transaction_create_valid[OF that(2)]]
    by (auto simp: Q_def same_moves_def Transaction_create_Inr_iff generated_draft_def)
  have loop: "rc_id r' = rc_id r \<and> (\<forall>t\<in>set ts. Q t)" if "generation_loop k dp now th x r [] = (r', ts, fl)" for k x r' ts fl
    using generation_loop_built[OF that, of Q] built by (simp add: same_moves_def)
  from assms have "d' = d \<or> (\<exists>r' ts n. createGeneratedTransactions fresh ts r' d = Inr (d', n)
      \<and> (\<forall>t\<in>set ts. Q t) \<and> rc_id r' = rc_id r)"
    by (auto simp: generateForRecurring_def generateTransactionsForRecurring_def Let_def and_then_Inr_iff
        split: sum.splits prod.splits if_splits dest!: loop)
  then show thesis using that unfolding Q_def by blast
qed

lemma with_default_ids_owned:
  "t \<in> set (with_default_ids fresh n ts) \<Longrightarrow> \<exists>t0 i. t0 \<in> set ts \<and> t = t0\<lparr>tx_id := i\<rparr>"
proof (induction ts arbitrary: n)
  case (Cons a ts)
  then consider "t = a\<lparr>tx_id := ensureEntityId (fresh n) (tx_id a)\<rparr>" | "t \<in> set (with_default_ids fresh (Suc n) ts)"
    by auto
  then show ?case using Cons.IH by cases (metis list.set_intros)+
qed simp

lemma createGenerated_tenant:
  assumes "createGeneratedTransactions fresh ts r' d = Inr (d', n)" "tenant_ok d" "\<And>t. t \<in> set ts \<Longrightarrow> tx_fine d t"
  shows "tenant_ok d' \<and> accounts d' = accounts d"
proof -
  from insert_generated_extends[of "with_default_ids fresh 0 ts" "transactions d"] obtain ks where
    ks: "insert_generated (with_default_ids fresh 0 ts) (transactions d) = transactions d @ ks"
    "set ks \<subseteq> set (with_default_ids fresh 0 ts)" by blast
  from assms(1) ks(1) have d': "accounts d' = accounts d" "transactions d' = transactions d @ ks"
    "recurrings d' = update_rows (\<lambda>x. rc_id x = rc_id r')
       (\<lambda>x. x\<lparr>rc_lastGenerated := rc_lastGenerated r', rc_active := rc_active r'\<rparr>) (recurrings d)"
    by (auto simp: createGeneratedTransactions_def Let_def and_then_Inr_iff enforce_Inr)
  have "tenant_ok d'"
  proof (rule tenant_ok_step[of d])
    show "tx_fine d t" if t: "t \<in> set (transactions d')" for t
    proof (cases "t \<in> set (transactions d)")
      case True with assms(2) show ?thesis by (simp add: tenant_ok_def)
    next
      case False
      with t ks(2) have "t \<in> set (with_default_ids fresh 0 ts)" by (auto simp: d')
      from with_default_ids_owned[OF this] assms(3) show ?thesis by auto
    qed
    show "rule_owned d r" if "r \<in> set (recurrings d')" for r
      using that assms(2) by (auto simp: d' update_rows_def tenant_ok_def)
    show "rows_parse d'" using assms(2) by (simp add: tenant_ok_def rows_parse_def account_row_of_def d')
  qed (simp add: owned_def account_row_of_def d')
  with d' show ?thesis by simp
qed

text \<open>What a job has done so far: steps of the repositories that kept the invariant.\<close>

definition job_ran :: "db \<Rightarrow> db \<Rightarrow> bool" where
  "job_ran d0 d = (system_ok d \<and> repo_step\<^sup>*\<^sup>* d0 d)"

lemma job_ran_step: "job_ran d0 d \<Longrightarrow> repo_step d d' \<Longrightarrow> tenant_ok d' \<Longrightarrow> job_ran d0 d'"
  using repo_step_tables_ok by (auto simp: job_ran_def system_ok_def intro: rtranclp.rtrancl_into_rtrancl)

lemma generate_one_ran:
  assumes "job_ran d0 (fst st)" "accounts (fst st) = accts" "rule_owned (fst st) r"
  shows "job_ran d0 (fst (generate_one dp now fresh th r st)) \<and> accounts (fst (generate_one dp now fresh th r st)) = accts"
proof -
  obtain d c ws where st: "st = (d, c, ws)" by (cases st)
  obtain d' out where g: "generateForRecurring dp now (fresh (rc_id r)) th r d = (d', out)" by fastforce
  from g have "job_ran d0 d' \<and> accounts d' = accts"
  proof (cases rule: generateForRecurring_step)
    case 1 with assms st show ?thesis by simp
  next
    case (2 r' ts n)
    have "repo_step d d'" using 2 by (intro generate[OF 2(1)]) blast
    moreover have "tenant_ok d' \<and> accounts d' = accounts d"
      by (rule createGenerated_tenant[OF 2(1)]) (use 2(2) assms in \<open>auto simp: st job_ran_def system_ok_def\<close>)
    ultimately show ?thesis using assms job_ran_step[of d0 d d'] by (simp add: st)
  qed
  then show ?thesis by (simp add: generate_one_def st g)
qed

lemma fold_generate_ran:
  assumes "job_ran d0 (fst st)" "accounts (fst st) = accts"
    and "\<And>r d. r \<in> set rs \<Longrightarrow> accounts d = accts \<Longrightarrow> rule_owned d r"
  shows "job_ran d0 (fst (fold (generate_one dp now fresh th) rs st))
     \<and> accounts (fst (fold (generate_one dp now fresh th) rs st)) = accts"
  using assms
proof (induction rs arbitrary: st)
  case (Cons r rs)
  from generate_one_ran[OF Cons.prems(1,2), of r] Cons.prems(3)[of r "fst st"] Cons.prems(2)
  have 1: "job_ran d0 (fst (generate_one dp now fresh th r st)) \<and> accounts (fst (generate_one dp now fresh th r st)) = accts"
    by simp
  then show ?case using Cons.IH[of "generate_one dp now fresh th r st"] Cons.prems(3) by simp
qed simp

lemma generate_batches_ran:
  "generate_batches fuel dp now fresh th afterId st = Some st' \<Longrightarrow> job_ran d0 (fst st)
     \<Longrightarrow> job_ran d0 (fst st') \<and> accounts (fst st') = accounts (fst st)"
proof (induction fuel arbitrary: afterId st)
  case (Suc fuel)
  let ?batch = "listNeedingGeneration (fst st) th BATCH_SIZE afterId"
  let ?st = "fold (generate_one dp now fresh th) ?batch st"
  have mem: "set ?batch \<subseteq> set (recurrings (fst st))"
    unfolding listNeedingGeneration_def by (auto dest: in_set_takeD)
  have own: "rule_owned d r" if "r \<in> set ?batch" "accounts d = accounts (fst st)" for r d
    using that mem Suc.prems(2) owns_moves_mono[of "fst st" _ _ _ _ d]
    by (auto simp: job_ran_def system_ok_def tenant_ok_def owned_def account_row_of_def)
  note f = fold_generate_ran[OF Suc.prems(2) refl own, of ?batch dp now fresh th]
  from Suc.prems(1) f Suc.IH[of _ ?st] show ?case by (auto simp: Let_def split: if_splits)
qed simp

lemma settle_ran:
  assumes "settle now t d = (d', res)" "job_ran d0 d"
  shows "job_ran d0 d'"
proof (cases "d' = d")
  case False
  with assms(1) obtain params ctx u where up: "updateStatusWithBalanceEffect now params ctx d = Inr (d', u)"
    by (auto simp: settle_def split: sum.splits prod.splits)
  have "tenant_ok d'"
    using status_confined[OF up refl] assms(2) by (simp add: job_ran_def system_ok_def confined_def)
  with job_ran_step[OF assms(2) set_status[OF up]] show ?thesis by simp
qed (use assms in simp)

lemma settle_loop_ran:
  "settle_loop clock startedAt ts (d, c, ws) = (d', c', ws') \<Longrightarrow> job_ran d0 d \<Longrightarrow> job_ran d0 d'"
proof (induction ts arbitrary: d c ws)
  case (Cons t ts)
  obtain d1 res where st: "settle (clock (st_processed c)) t d = (d1, res)" by fastforce
  from Cons.prems Cons.IH[OF _ settle_ran[OF st Cons.prems(2)]] show ?case
    by (auto simp: st split: if_splits)
qed simp

lemma fold_bump:
  "w_db (fold bumpReportGeneration ws w) = w_db w"
  "w_increments (fold bumpReportGeneration ws w) = w_increments w @ map reportGenerationKey ws"
  by (induction ws arbitrary: w) (simp_all add: bumpReportGeneration_def)

lemma jobs_ran:
  assumes "system_ok (w_db w)"
  shows "generateAll dp now fresh look w = Some (w', c) \<Longrightarrow> job_ran (w_db w) (w_db w')"
    and "settleCardInstallments localDay clock startedAt w = (w', s) \<Longrightarrow> job_ran (w_db w) (w_db w')"
proof -
  have start: "job_ran (w_db w) (w_db w)" using assms by (simp add: job_ran_def)
  show "generateAll dp now fresh look w = Some (w', c) \<Longrightarrow> job_ran (w_db w) (w_db w')"
    using start by (auto simp: generateAll_def fold_bump with_db_def simp del: generate_batches.simps
        dest: generate_batches_ran[where ?d0.0 = "w_db w"])
  show "settleCardInstallments localDay clock startedAt w = (w', s) \<Longrightarrow> job_ran (w_db w) (w_db w')"
    using start by (auto simp: settleCardInstallments_def fold_bump with_db_def split: prod.splits
        dest: settle_loop_ran[where ?d0.0 = "w_db w"])
qed

section \<open>Runs of the program\<close>

text \<open>
  A run starts with empty tables; categories and users are kept by other parts of the
  program and may change at any time. Requests and jobs follow in any order.
\<close>

inductive served :: "world \<Rightarrow> bool" where
  served_start: "w_db w = empty_db \<Longrightarrow> served w"
| served_elsewhere: "served w \<Longrightarrow> served (w\<lparr>w_categories := cs, w_users := us\<rparr>)"
| served_request: "served w \<Longrightarrow> perform dp now c w = Inr w' \<Longrightarrow> served w'"
| served_generation: "served w \<Longrightarrow> generateAll dp now fresh look w = Some (w', g) \<Longrightarrow> served w'"
| served_settlement: "served w \<Longrightarrow> settleCardInstallments localDay clock startedAt w = (w', s) \<Longrightarrow> served w'"

lemma perform_tenant:
  assumes "perform dp now c w = Inr w'" "system_ok (w_db w)"
  shows "tenant_ok (w_db w') \<and> w_increments w' = w_increments w @
      (if bumps c then [reportGenerationKey (call_workspace c)] else [])
    \<and> (\<forall>v. v \<noteq> call_workspace c \<longrightarrow> tenant_rows v (w_db w') = tenant_rows v (w_db w)
        \<and> tenant_money v (w_db w') = tenant_money v (w_db w))"
proof (cases "\<exists>aid ws. c = DeleteAccount aid ws")
  case True
  then obtain aid ws where c: "c = DeleteAccount aid ws" by blast
  with assms(1) obtain u where "deleteAccount aid ws w = Inr (w', u)" by (auto simp: and_then_Inr_iff)
  then show ?thesis
    using delete_account_confined system_okD(1)[OF assms(2)] by (auto simp: c elim!: deleteAccount_Inr)
next
  case False
  from perform_confined[OF assms False] show ?thesis
    by (simp add: served_as_def confined_def tenant_money_def)
qed

lemma perform_system_ok:
  assumes "perform dp now c w = Inr w'" "system_ok (w_db w)"
  shows "system_ok (w_db w')"
proof -
  from assms(2) have tab: "tables_ok (w_db w)" by (simp add: system_ok_def)
  from perform_step[OF assms(1) tab] have "tables_ok (w_db w')"
    using repo_step_tables_ok[OF _ tab] account_delete_tables_ok[OF _ tab]
    by (auto split: service_call.splits)
  with perform_tenant[OF assms] show ?thesis by (simp add: system_ok_def)
qed

lemma served_system_ok: "served w \<Longrightarrow> system_ok (w_db w)"
proof (induction rule: served.induct)
  case (served_start w)
  then show ?case using empty_db_ok
    by (simp add: system_ok_def tables_ok_def tenant_ok_def db_ok_def unique_ok_def recurring_slots_def
        distinct_by_def rows_parse_def account_row_of_def find_row_def empty_db_def)
next
  case (served_request w dp now c w') then show ?case using perform_system_ok by blast
next
  case (served_generation w dp now fresh look w' g)
  from jobs_ran(1)[OF this(3,2)] show ?case by (simp add: job_ran_def)
next
  case (served_settlement w localDay clock startedAt w' s)
  from jobs_ran(2)[OF this(3,2)] show ?case by (simp add: job_ran_def)
qed simp

lemma served_reachable: "served w \<Longrightarrow> reachable_removing (w_db w)"
proof (induction rule: served.induct)
  case (served_start w) then show ?case by (simp add: rr_init)
next
  case (served_elsewhere w cs us) then show ?case by simp
next
  case (served_request w dp now c w')
  have "tables_ok (w_db w)" using served_system_ok[OF served_request(1)] by (simp add: system_ok_def)
  from perform_step[OF served_request(2) this] served_request(3) show ?case
    by (auto intro: rr_step rr_remove split: service_call.splits)
next
  case (served_generation w dp now fresh look w' g)
  have "repo_step\<^sup>*\<^sup>* (w_db w) (w_db w')"
    using jobs_ran(1)[OF served_system_ok[OF served_generation(1)] served_generation(2)] by (simp add: job_ran_def)
  then show ?case using served_generation(3) by induction (auto intro: rr_step)
next
  case (served_settlement w localDay clock startedAt w' s)
  have "repo_step\<^sup>*\<^sup>* (w_db w) (w_db w')"
    using jobs_ran(2)[OF served_system_ok[OF served_settlement(1)] served_settlement(2)] by (simp add: job_ran_def)
  then show ?case using served_settlement(3) by induction (auto intro: rr_step)
qed

end
