(* ===== verification/SystemProperties.thy ===== *)
theory SystemProperties
  imports System LedgerProperties
begin

text \<open>
  The properties of the running program: what requests and jobs, in any order and for
  any mix of workspaces, keep true of the tables, and what one request may reach.
\<close>

section \<open>A concrete run\<close>

text \<open>
  Two workspaces open an account each; the first then records an expense of 300 cents.
  The zone has no offset.
\<close>

definition demo_provider :: date_provider where
  "demo_provider = fixed_offsets (\<lambda>_. 0)"

definition demo_idle :: world where
  "demo_idle = \<lparr>w_db = empty_db, w_categories = [], w_users = [''u''], w_increments = []\<rparr>"

definition demo_open :: "string \<Rightarrow> string \<Rightarrow> rat \<Rightarrow> service_call" where
  "demo_open aid ws cents = CreateAccount aid
     \<lparr>ca_workspaceId = ws, ca_sub = ''u'', ca_type = CHECKING, ca_name = ''Conta'', ca_timezone = ''UTC'',
      ca_balance = Some cents, ca_creditLimit = None, ca_closingDaysBeforeDue = 0, ca_dueDay = 0\<rparr>"

definition demo_expense :: service_call where
  "demo_expense = CreateTransaction ''t''
     \<lparr>ct_workspaceId = ''w'', ct_sub = ''u'', ct_accountId = ''a'', ct_categoryId = None, ct_title = ''Mercado'',
      ct_description = None, ct_amount = 300, ct_date = ''2024-05-10'', ct_type = EXPENSE, ct_status = None,
      ct_destinationAccountId = None\<rparr>"

definition demo_row :: "string \<Rightarrow> string \<Rightarrow> int \<Rightarrow> account_row" where
  "demo_row aid ws cents = account_toDatabase (CheckingAccount
     \<lparr>acc_id = aid, acc_workspaceId = ws, acc_name = ''Conta'', acc_timezone = ''UTC'', acc_balance = cents\<rparr>)"

definition demo_mv :: "string \<Rightarrow> string \<Rightarrow> string option \<Rightarrow> BalanceMovementCause \<Rightarrow> int \<Rightarrow> int \<Rightarrow> movement" where
  "demo_mv ws aid tid cause x after = \<lparr>mv_workspaceId = ws, mv_accountId = aid, mv_transactionId = tid,
     mv_cause = cause, mv_delta = x, mv_balanceAfter = after, mv_actorId = Some ''u''\<rparr>"

definition demo_open1 :: world where
  "demo_open1 = \<lparr>w_db = \<lparr>accounts = [demo_row ''a'' ''w'' 1000], transactions = [], recurrings = [],
       movements = [demo_mv ''w'' ''a'' None OPENING 1000 1000]\<rparr>,
     w_categories = [], w_users = [''u''], w_increments = [reportGenerationKey ''w'']\<rparr>"

definition demo_open2 :: world where
  "demo_open2 = \<lparr>w_db = \<lparr>accounts = [demo_row ''a'' ''w'' 1000, demo_row ''b'' ''v'' 50],
       transactions = [], recurrings = [],
       movements = [demo_mv ''w'' ''a'' None OPENING 1000 1000, demo_mv ''v'' ''b'' None OPENING 50 50]\<rparr>,
     w_categories = [], w_users = [''u''],
     w_increments = [reportGenerationKey ''w'', reportGenerationKey ''v'']\<rparr>"

definition demo_spent :: world where
  "demo_spent = \<lparr>w_db = \<lparr>accounts = [demo_row ''a'' ''w'' 700, demo_row ''b'' ''v'' 50],
       transactions = [demo_tx\<lparr>tx_categoryId := SYSTEM_CATEGORY_TRANSFER, tx_date := 1715299200000,
          tx_createdAt := 1715299300000\<rparr>],
       recurrings = [],
       movements = [demo_mv ''w'' ''a'' None OPENING 1000 1000, demo_mv ''v'' ''b'' None OPENING 50 50,
          demo_mv ''w'' ''a'' (Some ''t'') TRANSACTION_CREATED (-300) 700]\<rparr>,
     w_categories = [], w_users = [''u''],
     w_increments = [reportGenerationKey ''w'', reportGenerationKey ''v'', reportGenerationKey ''w'']\<rparr>"

lemmas account_eval = createAccount_def findByNameAndWorkspaceId_def ca_build_def js_BigInt_def
  CheckingAccount_create_def bumpReportGeneration_def with_db_def

lemma demo_opened:
  "perform dp now (demo_open ''a'' ''w'' 1000) demo_idle = Inr demo_open1"
  "perform dp now (demo_open ''b'' ''v'' 50) demo_open1 = Inr demo_open2"
  by (simp_all add: demo_open_def demo_idle_def demo_open1_def demo_open2_def demo_row_def demo_mv_def account_eval
      repo_eval demo_defs)

lemma demo_day: "MakeDay 2024 4 10 = 19853"
  by code_simp

lemma demo_parse: "parseDate ''2024-05-10'' = (2024, 5, 10)"
  by code_simp

lemma demo_spends: "perform demo_provider 1715299300000 demo_expense demo_open2 = Inr demo_spent"
  by (simp add: demo_expense_def demo_open2_def demo_spent_def demo_row_def demo_mv_def demo_provider_def
      fixed_offsets_def createTransaction_def ct_validateAndFetchAccounts_def ct_resolveCategoryId_def
      ct_resolveDateAndStatus_def demo_parse demo_day zone_day_def DAY_MS_def ct_applyBalanceEffects_def
      ct_applyEffects_def apply_at_def account_findById_def foreign_def Transaction_create_def draft_error_def
      blank_def js_trim_def js_space_def transaction.defs transaction_draft.defs SYSTEM_CATEGORY_TRANSFER_def
      bumpReportGeneration_def with_db_def repo_eval demo_defs)

lemma demo_served2: "served demo_open2"
  by (rule served_request[OF served_request[OF served_start demo_opened(1)] demo_opened(2)])
     (simp add: demo_idle_def)

lemma demo_served: "served demo_spent"
  by (rule served_request[OF demo_served2 demo_spends])

section \<open>Requests\<close>

text \<open>
  C13: whatever the requests and jobs before it, a request that succeeds is exactly one
  committed transaction of the repositories, with a balance mutation that satisfies
  their contract; only the deletion of an account is a statement of its own.
\<close>

theorem request_is_one_repository_step:
  assumes "served w" "perform dp now c w = Inr w'"
  shows "case c of DeleteAccount aid ws \<Rightarrow> account_delete aid (w_db w) = Inr (w_db w')
     | _ \<Rightarrow> repo_step (w_db w) (w_db w')"
  using served_system_ok[OF assms(1)] by (intro perform_step[OF assms(2)]) (simp add: system_ok_def)

theorem request_is_one_repository_step_witness: "repo_step (w_db demo_open2) (w_db demo_spent)"
  using request_is_one_repository_step[OF demo_served2 demo_spends] by (simp add: demo_expense_def)

text \<open>
  C12: a request reaches only its own workspace. Accounts, balances included, of every
  other workspace stay as they are, and so do the other workspaces' transactions and
  rules; only the deletion of an account may clear a reference to it in a transaction
  of another workspace, which moves no money.
\<close>

theorem request_confined_to_workspace:
  assumes "served w" "perform dp now c w = Inr w'" "v \<noteq> call_workspace c"
  shows "tenant_rows v (w_db w') = tenant_rows v (w_db w) \<and> tenant_money v (w_db w') = tenant_money v (w_db w)
     \<and> ((\<nexists>aid ws. c = DeleteAccount aid ws) \<longrightarrow>
          tenant_txs v (w_db w') = tenant_txs v (w_db w) \<and> tenant_rules v (w_db w') = tenant_rules v (w_db w))"
  using perform_tenant[OF assms(2) served_system_ok[OF assms(1)]] assms(3)
    perform_confined[OF assms(2) served_system_ok[OF assms(1)]]
  by (auto simp: served_as_def confined_def)

theorem request_confined_to_workspace_witness:
  "tenant_rows ''v'' (w_db demo_spent) = tenant_rows ''v'' (w_db demo_open2)"
  using request_confined_to_workspace[OF demo_served2 demo_spends, of "''v''"] by (simp add: demo_expense_def)

text \<open>
  C16: a request that succeeds bumps the report generation of its workspace exactly once
  and that of no other workspace; only the edit of an account bumps none.
\<close>

theorem request_invalidates_reports:
  assumes "served w" "perform dp now c w = Inr w'"
  shows "w_increments w' = w_increments w
     @ (case c of UpdateAccount req \<Rightarrow> [] | _ \<Rightarrow> [reportGenerationKey (call_workspace c)])"
  using perform_tenant[OF assms(2) served_system_ok[OF assms(1)]]
  by (cases c) simp_all

theorem request_invalidates_reports_witness:
  "w_increments demo_spent = w_increments demo_open2 @ [''cache-gen:report:w'']"
  using request_invalidates_reports[OF demo_served2 demo_spends]
  by (simp add: demo_expense_def reportGenerationKey_def)

section \<open>Runs\<close>

text \<open>
  C15: in every state of a run the constraints of the schema hold (unique ids, at most
  one transaction per rule and date, references that resolve), and every transaction
  and rule moves money only on accounts of its own workspace.
\<close>

theorem run_keeps_tables:
  assumes "served w"
  shows "unique_ok (w_db w) \<and> references_ok (w_db w) \<and> tenant_ok (w_db w)"
  using served_system_ok[OF assms] by (simp add: system_ok_def tables_ok_def)

theorem run_keeps_tables_witness: "tenant_ok (w_db demo_spent) \<and> unique_ok (w_db demo_spent)"
  using run_keeps_tables[OF demo_served] by blast

text \<open>
  C14: the daily reconciliation of the running program finds nothing: after any mix of
  requests, generations and settlements, deletions of accounts included, every account
  is covered and no balance diverges from its movements.
\<close>

theorem run_reconciles:
  assumes "served w"
  shows "reconcile (w_db w) =
    (\<lparr>rs_accountsChecked = length (accounts (w_db w)), rs_uncovered = 0, rs_divergences = []\<rparr>, [])"
  by (rule reconcile_clean[OF reachable_removing_ledger_ok[OF served_reachable[OF assms]]])

theorem run_reconciles_witness:
  "reconcile (w_db demo_spent) = (\<lparr>rs_accountsChecked = 2, rs_uncovered = 0, rs_divergences = []\<rparr>, [])"
  using run_reconciles[OF demo_served] by (simp add: demo_spent_def)

end
