(* ===== verification/Generation.thy ===== *)
theory Generation
  imports System
begin

text \<open>
  What the generation job does over time: the dates it gives the transactions of a
  rule, and the order in which its batches visit the rules.
\<close>

section \<open>The dates of a rule\<close>

text \<open>The day reached by \<open>k\<close> steps from a day, each of them rounded to the month's end.\<close>

definition stepped_day :: "int \<Rightarrow> RecurrenceFrequency \<Rightarrow> int \<Rightarrow> nat \<Rightarrow> int" where
  "stepped_day d f intv k = ((\<lambda>x. occurrence_day x f intv 1) ^^ k) d"

lemma occurrence_day_month:
  "f \<noteq> WEEKLY \<Longrightarrow> occurrence_day d f intv k = add_months d ((if f = YEARLY then 12 else 1) * (intv * k))"
  by (cases f) (simp_all add: occurrence_day_def)

lemma stepped_weekly: "stepped_day d WEEKLY intv k = occurrence_day d WEEKLY intv (int k)"
  by (induction k) (simp_all add: stepped_day_def occurrence_day_def algebra_simps)

lemma stepped_month:
  assumes "f \<noteq> WEEKLY"
  shows "month_no (stepped_day d f intv k) = month_no d + (if f = YEARLY then 12 else 1) * (intv * int k)"
    and "dateFromDay (stepped_day d f intv k) \<le> dateFromDay d"
proof (induction k)
  case (Suc k)
  let ?m = "if f = YEARLY then 12 else 1"
  have step: "stepped_day d f intv (Suc k) = add_months (stepped_day d f intv k) (?m * intv)"
    using occurrence_day_month[OF assms, of "stepped_day d f intv k" intv 1] by (simp add: stepped_day_def)
  { case 1 show ?case using Suc.IH(1) by (simp add: step month_no_add_months algebra_simps) }
  { case 2 show ?case using Suc.IH(2) by (simp add: step month_no_add_months) }
qed (simp_all add: stepped_day_def)

lemma month_no_less_day:
  assumes "month_no d < month_no e"
  shows "d < e"
proof -
  have "month_start (month_no d + 1) \<le> month_start (month_no e)"
    using month_start_mono[of "month_no d + 1" "month_no e"] assms by (cases "month_no d + 1 = month_no e") auto
  with day_in_month[of d] day_in_month(1,2)[of e] show ?thesis by (simp add: month_start_Suc)
qed

text \<open>Rounding only moves a date earlier, and never out of its month.\<close>

lemma stepped_before_end:
  assumes "0 < intv" "1 \<le> n"
  shows "stepped_day d f intv k \<le> occurrence_day d f intv (n - 1) \<longleftrightarrow> int k < n"
proof (cases "f = WEEKLY")
  case True
  have "occurrence_day d WEEKLY intv (int k) \<le> occurrence_day d WEEKLY intv (n - 1) \<longleftrightarrow> int k < n"
    using assms(1) by (simp add: occurrence_day_def mult.assoc) presburger
  then show ?thesis by (simp add: True stepped_weekly)
next
  case False
  let ?m = "if f = YEARLY then 12 else 1"
  let ?e = "occurrence_day d f intv (n - 1)"
  note e = occurrence_day_month[OF False, of d intv "n - 1"]
  have me: "month_no ?e = month_no d + ?m * (intv * (n - 1))" by (simp add: e month_no_add_months)
  show ?thesis
  proof (cases "int k < n - 1")
    case True
    then have "month_no (stepped_day d f intv k) < month_no ?e"
      using assms(1) by (simp add: stepped_month(1)[OF False] me)
    with True show ?thesis using month_no_less_day[of "stepped_day d f intv k" ?e] by simp
  next
    case F: False
    show ?thesis
    proof (cases "int k = n - 1")
      case True
      have "stepped_day d f intv k = month_start (month_no ?e) + dateFromDay (stepped_day d f intv k) - 1"
        using day_in_month(1)[of "stepped_day d f intv k"] stepped_month(1)[OF False, of d intv k] True
        by (simp add: me)
      moreover have "dateFromDay (stepped_day d f intv k) \<le> dateFromDay ?e"
      proof -
        have "dateFromDay (stepped_day d f intv k) \<le> month_len (month_no ?e)"
          using day_in_month(3)[of "stepped_day d f intv k"] stepped_month(1)[OF False, of d intv k] True by (simp add: me)
        then show ?thesis using stepped_month(2)[OF False, of d intv k] me
          by (simp add: e month_no_add_months)
      qed
      ultimately show ?thesis using day_in_month(1)[of ?e] True by linarith
    next
      case False2: False
      with F have "n - 1 < int k" by linarith
      then have "month_no ?e < month_no (stepped_day d f intv k)"
        using assms(1) by (simp add: stepped_month(1)[OF False] me)
      with month_no_less_day[of ?e "stepped_day d f intv k"] F False2 show ?thesis by simp
    qed
  qed
qed

lemma stepped_strict:
  assumes "0 < intv"
  shows "stepped_day d f intv k < stepped_day d f intv (Suc k)"
  using occurrence_gap[OF assms, of 0 1 "stepped_day d f intv k" f]
  by (cases f) (simp_all add: stepped_day_def occurrence_day_def add_months_0)

text \<open>The \<open>k\<close>-th date the job gives a rule that starts at \<open>t\<close>.\<close>

definition rule_date :: "date_provider \<Rightarrow> recurring \<Rightarrow> nat \<Rightarrow> int" where
  "rule_date dp r k = (next_target dp r ^^ k) (rc_startDate r)"

lemma rule_date_Suc: "rule_date dp r (Suc k) = next_target dp r (rule_date dp r k)"
  by (simp add: rule_date_def)

context exact_calendar
begin

lemma rule_date_day:
  assumes "tz = RECURRING_GENERATION_TIMEZONE"
  shows "rule_date dp r k = rc_startDate r
      + (stepped_day (dayof (rc_startDate r)) (rc_frequency r) (rc_interval r) k - dayof (rc_startDate r)) * DAY_MS"
proof (induction k)
  case (Suc k)
  let ?s = "stepped_day (dayof (rc_startDate r)) (rc_frequency r) (rc_interval r)"
  have day: "dayof (rule_date dp r k) = ?s k" by (simp add: Suc day_shift)
  have "rule_date dp r (Suc k) = rule_date dp r k + (?s (Suc k) - ?s k) * DAY_MS"
    using next_exact[of "rule_date dp r k" "rc_frequency r" "rc_interval r"]
    by (simp add: rule_date_Suc next_target_def assms[symmetric] day) (simp add: stepped_day_def)
  then show ?case by (simp add: Suc algebra_simps)
qed (simp add: rule_date_def stepped_day_def)

lemma rule_date_mono:
  assumes "tz = RECURRING_GENERATION_TIMEZONE" "0 < rc_interval r"
  shows "rule_date dp r k < rule_date dp r (Suc k)"
  using stepped_strict[OF assms(2)] by (simp add: rule_date_day[OF assms(1)] DAY_MS_def)

lemma rule_date_end:
  assumes "tz = RECURRING_GENERATION_TIMEZONE" "0 < rc_interval r" "1 \<le> n"
    and "sc_startDate s = rc_startDate r" "sc_frequency s = rc_frequency r" "sc_interval s = rc_interval r"
      "sc_timezone s = tz"
  shows "rule_date dp r k \<le> calculateInstallmentEndDate dp s n \<longleftrightarrow> int k < n"
  using stepped_before_end[OF assms(2,3), of "dayof (rc_startDate r)" "rc_frequency r" k] assms(4-7)
  by (simp add: rule_date_day[OF assms(1)] end_exact DAY_MS_def)

end

text \<open>The loop takes the dates that are not after the threshold, up to its limit.\<close>

definition titled :: "recurring \<Rightarrow> bool" where
  "titled r = (rc_title r \<noteq> [] \<and> \<not> blank (rc_title r))"

lemma generated_draft_ok:
  assumes "valid_recurring r" "titled r"
  shows "\<exists>t. Transaction_create now (generated_draft r x) (Some PENDING) None None [] = Inr t
     \<and> tx_date t = x \<and> tx_amount t = rc_amount r"
  using assms
  by (simp add: valid_recurring_def titled_def generated_draft_def draft_error_def Transaction_create_def
      transaction_draft.defs transaction.defs)

lemma generation_loop_dates:
  assumes D: "\<And>k. D k < D (Suc k)" "\<And>k. D k \<le> e \<longleftrightarrow> k < n"
    and r: "\<And>k. next_target dp r (D k) = D (Suc k)" "rc_endDate r = Some e" "valid_recurring r" "titled r"
    and run: "generation_loop left dp now th (D j) r ts = (r', ts', fl)" and j: "j \<le> n" "n \<le> j + left"
  shows "\<not> fl \<and> map (\<lambda>t. (tx_date t, tx_amount t)) ts' = map (\<lambda>t. (tx_date t, tx_amount t)) ts
      @ map (\<lambda>x. (x, rc_amount r)) (filter (\<lambda>x. x \<le> th) (map D [j..<n]))"
  using r run j
proof (induction left arbitrary: j r ts)
  case 0
  then show ?case by (auto simp: generation_loop.simps[of 0] split: if_splits)
next
  case (Suc left)
  note eq = Suc.prems(5)[unfolded generation_loop.simps[of "Suc left"]]
  have mono: "D j \<le> D k" if "j \<le> k" for k using D(1) that by (simp add: lift_Suc_mono_le less_imp_le)
  show ?case
  proof (cases "D j \<le> th")
    case False
    then have "\<not> D k \<le> th" if "j \<le> k" for k using mono[OF that] by linarith
    then have "filter (\<lambda>x. x \<le> th) (map D [j..<n]) = []" by (auto simp: filter_empty_conv)
    with False eq show ?thesis by simp
  next
    case True
    show ?thesis
    proof (cases "j = n")
      case n: True
      with D(2)[of n] have "D j > e" by simp
      with True eq Suc.prems(2) n show ?thesis by (auto split: if_splits)
    next
      case False
      with Suc.prems(6) have jn: "j < n" by simp
      with D(2)[of j] have "\<not> D j > e" by simp
      moreover obtain t where t: "Transaction_create now (generated_draft r (D j)) (Some PENDING) None None [] = Inr t"
        "tx_date t = D j" "tx_amount t = rc_amount r" using generated_draft_ok[OF Suc.prems(3,4)] by blast
      ultimately have "generation_loop left dp now th (D (Suc j)) (rc_markAsGenerated (D j) r) (ts @ [t]) = (r', ts', fl)"
        using eq True Suc.prems(1,2) by simp
      note IH = Suc.IH[OF _ _ _ _ this]
      have "\<not> fl \<and> map (\<lambda>t. (tx_date t, tx_amount t)) ts' = map (\<lambda>t. (tx_date t, tx_amount t)) (ts @ [t])
          @ map (\<lambda>x. (x, rc_amount (rc_markAsGenerated (D j) r))) (filter (\<lambda>x. x \<le> th) (map D [Suc j..<n]))"
        by (rule IH) (use Suc.prems jn recurring_edits_keep_valid(7)[OF Suc.prems(3)] in
            \<open>auto simp: next_target_def rc_markAsGenerated_def titled_def\<close>)
      then show ?thesis using True jn t by (simp add: upt_conv_Cons rc_markAsGenerated_def)
    qed
  qed
qed

section \<open>The batches\<close>

definition needs_generation :: "int \<Rightarrow> recurring \<Rightarrow> bool" where
  "needs_generation ref r = (rc_active r \<and> rc_startDate r \<le> ref
     \<and> (case rc_lastGenerated r of None \<Rightarrow> True | Some g \<Rightarrow> g < ref))"

definition due_rules :: "db \<Rightarrow> int \<Rightarrow> string option \<Rightarrow> recurring list" where
  "due_rules d ref afterId = sort_key rc_id (filter (\<lambda>r. needs_generation ref r
     \<and> (case afterId of None \<Rightarrow> True | Some a \<Rightarrow> a < rc_id r)) (recurrings d))"

lemma listNeedingGeneration_take: "listNeedingGeneration d ref k afterId = take k (due_rules d ref afterId)"
  by (simp add: listNeedingGeneration_def due_rules_def needs_generation_def conj_ac)

lemma generate_one_others:
  assumes "generate_one dp now fresh th r st = st'"
  shows "map rc_id (recurrings (fst st')) = map rc_id (recurrings (fst st))"
    and "filter (\<lambda>x. rc_id x \<noteq> rc_id r) (recurrings (fst st')) = filter (\<lambda>x. rc_id x \<noteq> rc_id r) (recurrings (fst st))"
proof -
  obtain d c ws where st: "st = (d, c, ws)" by (cases st)
  obtain d' out where g: "generateForRecurring dp now (fresh (rc_id r)) th r d = (d', out)" by fastforce
  then have d': "fst st' = d'" using assms by (auto simp: generate_one_def st)
  from g have "map rc_id (recurrings d') = map rc_id (recurrings d)
    \<and> filter (\<lambda>x. rc_id x \<noteq> rc_id r) (recurrings d') = filter (\<lambda>x. rc_id x \<noteq> rc_id r) (recurrings d)"
  proof (cases rule: generateForRecurring_step)
    case (2 r' ts n)
    from 2(1,3) have rec: "recurrings d' = update_rows (\<lambda>x. rc_id x = rc_id r)
        (\<lambda>x. x\<lparr>rc_lastGenerated := rc_lastGenerated r', rc_active := rc_active r'\<rparr>) (recurrings d)"
      by (auto simp: createGeneratedTransactions_def Let_def and_then_Inr_iff enforce_Inr)
    show ?thesis unfolding rec by (intro conjI filter_update_rows) (simp_all add: table_simps)
  qed simp
  then show "map rc_id (recurrings (fst st')) = map rc_id (recurrings (fst st))"
    "filter (\<lambda>x. rc_id x \<noteq> rc_id r) (recurrings (fst st')) = filter (\<lambda>x. rc_id x \<noteq> rc_id r) (recurrings (fst st))"
    by (simp_all add: d' st)
qed

lemma fold_generate_others:
  assumes "\<And>r. r \<in> set rs \<Longrightarrow> rc_id r \<le> a"
  shows "map rc_id (recurrings (fst (fold (generate_one dp now fresh th) rs st))) = map rc_id (recurrings (fst st))
    \<and> filter (\<lambda>x. a < rc_id x) (recurrings (fst (fold (generate_one dp now fresh th) rs st)))
      = filter (\<lambda>x. a < rc_id x) (recurrings (fst st))"
  using assms
proof (induction rs arbitrary: st)
  case (Cons r rs)
  let ?st = "generate_one dp now fresh th r st"
  have "filter (\<lambda>x. a < rc_id x) xs = filter (\<lambda>x. a < rc_id x) (filter (\<lambda>x. rc_id x \<noteq> rc_id r) xs)" for xs
    using Cons.prems[of r] by (auto intro!: filter_cong)
  then have "filter (\<lambda>x. a < rc_id x) (recurrings (fst ?st)) = filter (\<lambda>x. a < rc_id x) (recurrings (fst st))"
    using generate_one_others(2)[of dp now fresh th r st] by metis
  with generate_one_others(1)[of dp now fresh th r st] Cons show ?case by simp
qed simp

lemma due_rules_after:
  assumes d': "filter (\<lambda>x. a < rc_id x) (recurrings d') = filter (\<lambda>x. a < rc_id x) (recurrings d)"
    and after: "case afterId of None \<Rightarrow> True | Some b \<Rightarrow> b < a"
  shows "due_rules d' ref (Some a) = filter (\<lambda>x. a < rc_id x) (due_rules d ref afterId)"
proof -
  have "filter (\<lambda>r. needs_generation ref r \<and> a < rc_id r) (recurrings d')
      = filter (needs_generation ref) (filter (\<lambda>x. a < rc_id x) (recurrings d'))" by (simp add: conj_commute)
  also have "\<dots> = filter (\<lambda>r. a < rc_id r \<and> needs_generation ref r) (recurrings d)" by (simp add: d' conj_commute)
  also have "\<dots> = filter (\<lambda>x. a < rc_id x) (filter (\<lambda>r. needs_generation ref r
     \<and> (case afterId of None \<Rightarrow> True | Some b \<Rightarrow> b < rc_id r)) (recurrings d))"
    using after by (auto intro!: filter_cong split: option.splits)
  finally show ?thesis by (simp add: due_rules_def filter_sort)
qed

lemma strictly_sorted_split:
  fixes key :: "'a \<Rightarrow> 'b :: linorder"
  assumes "sorted (map key xs)" "distinct (map key xs)" "0 < m" "m \<le> length xs"
  shows "filter (\<lambda>x. key (xs ! (m - 1)) < key x) xs = drop m xs"
    and "x \<in> set (take m xs) \<Longrightarrow> key x \<le> key (xs ! (m - 1))"
proof -
  have low: "key x \<le> key (xs ! (m - 1))" if "x \<in> set (take m xs)" for x
  proof -
    from that obtain k where "k < m" "x = xs ! k" using assms(4) by (auto simp: in_set_conv_nth)
    with sorted_nth_mono[OF assms(1), of k "m - 1"] assms(3,4) show ?thesis by simp
  qed
  have high: "key (xs ! (m - 1)) < key x" if "x \<in> set (drop m xs)" for x
  proof -
    from that assms(4) obtain i where "i < length xs - m" "x = xs ! (m + i)" by (auto simp: in_set_conv_nth)
    then obtain k where k: "m \<le> k" "k < length xs" "x = xs ! k" by (metis add.commute le_add2 less_diff_conv)
    with sorted_nth_mono[OF assms(1), of "m - 1" k] assms(3) have "key (xs ! (m - 1)) \<le> key x" by simp
    moreover have "key (xs ! (m - 1)) \<noteq> key x"
      using nth_eq_iff_index_eq[OF assms(2), of "m - 1" k] k assms(3) by simp
    ultimately show ?thesis by simp
  qed
  let ?P = "\<lambda>x. key (xs ! (m - 1)) < key x"
  have "filter ?P (take m xs) = []" using low by (auto simp: filter_empty_conv not_less)
  moreover have "filter ?P (drop m xs) = drop m xs" using high by (simp add: filter_id_conv)
  ultimately have "filter ?P (take m xs @ drop m xs) = drop m xs" by (simp only: filter_append append_Nil)
  then show "filter ?P xs = drop m xs" by simp
  show "x \<in> set (take m xs) \<Longrightarrow> key x \<le> key (xs ! (m - 1))" by (rule low)
qed

lemma due_rules_sorted:
  assumes "distinct_by rc_id (recurrings d)"
  shows "sorted (map rc_id (due_rules d ref afterId)) \<and> distinct (map rc_id (due_rules d ref afterId))"
proof -
  have inj: "inj_on rc_id (set (recurrings d))" and dist: "distinct (recurrings d)"
    using assms by (auto simp: distinct_by_def distinct_map)
  then show ?thesis
    unfolding due_rules_def by (auto simp: distinct_map intro: inj_on_subset)
qed

text \<open>
  Keyset pagination in batches is one pass over the due rules in the order of their
  ids, and the fuel of one batch per rule suffices.
\<close>

lemma generate_batches_pass:
  assumes "distinct_by rc_id (recurrings (fst st))" "length (due_rules (fst st) th afterId) < fuel"
  shows "generate_batches fuel dp now fresh th afterId st
     = Some (fold (generate_one dp now fresh th) (due_rules (fst st) th afterId) st)"
  using assms
proof (induction fuel arbitrary: afterId st)
  case (Suc fuel)
  let ?L = "due_rules (fst st) th afterId"
  let ?batch = "take BATCH_SIZE ?L"
  let ?st = "fold (generate_one dp now fresh th) ?batch st"
  note sorted = due_rules_sorted[OF Suc.prems(1), of th afterId]
  show ?case
  proof (cases "length ?batch = BATCH_SIZE")
    case False
    then have "?batch = ?L" by (simp add: min_def split: if_splits)
    with False show ?thesis by (simp add: Let_def listNeedingGeneration_take)
  next
    case True
    then have m: "0 < BATCH_SIZE" "BATCH_SIZE \<le> length ?L" by (simp_all add: BATCH_SIZE_def)
    define a where "a = rc_id (?L ! (BATCH_SIZE - 1))"
    have ne: "?batch \<noteq> []" using m by auto
    have last: "rc_id (last ?batch) = a" using m by (simp add: a_def last_conv_nth[OF ne] min_def)
    note split = strictly_sorted_split[OF conjunct1[OF sorted] conjunct2[OF sorted] m, folded a_def]
    note others = fold_generate_others[of ?batch a dp now fresh th st, OF split(2)]
    have after: "case afterId of None \<Rightarrow> True | Some b \<Rightarrow> b < a"
      using nth_mem[of "BATCH_SIZE - 1" ?L] m by (auto simp: a_def due_rules_def split: option.splits)
    have rest: "due_rules (fst ?st) th (Some a) = drop BATCH_SIZE ?L"
      using due_rules_after[OF conjunct2[OF others] after] split(1) by simp
    have "generate_batches fuel dp now fresh th (Some a) ?st
        = Some (fold (generate_one dp now fresh th) (drop BATCH_SIZE ?L) ?st)"
      using Suc.IH[of ?st "Some a"] others Suc.prems m by (simp add: rest distinct_by_def)
    moreover have "fold (generate_one dp now fresh th) (drop BATCH_SIZE ?L) ?st
        = fold (generate_one dp now fresh th) ?L st"
      using fun_cong[OF fold_append[of "generate_one dp now fresh th" ?batch "drop BATCH_SIZE ?L"], of st] by simp
    ultimately show ?thesis using True ne last by (simp add: Let_def listNeedingGeneration_take)
  qed
qed simp

lemma generateAll_pass:
  assumes "distinct_by rc_id (recurrings (w_db w))"
  shows "generateAll dp now fresh th w = Some (
     case fold (generate_one dp now fresh th) (due_rules (w_db w) th None)
        (w_db w, \<lparr>gc_generatedCount = 0, gc_failedCount = 0, gc_processedCount = 0\<rparr>, []) of
     (d, c, ws) \<Rightarrow> (fold bumpReportGeneration ws (with_db d w), c))"
proof -
  have "length (due_rules (w_db w) th None) < Suc (length (recurrings (w_db w)))"
    by (simp add: due_rules_def le_imp_less_Suc)
  with generate_batches_pass[of "(w_db w, c, [])" th None "Suc (length (recurrings (w_db w)))" dp now fresh for c] assms
  show ?thesis by (simp add: generateAll_def del: generate_batches.simps split: prod.splits)
qed

lemma fold_generate_counts:
  "gc_processedCount (fst (snd (fold (generate_one dp now fresh th) rs st)))
     = gc_processedCount (fst (snd st)) + length rs"
proof (induction rs arbitrary: st)
  case (Cons r rs)
  have "gc_processedCount (fst (snd (generate_one dp now fresh th r st))) = gc_processedCount (fst (snd st)) + 1"
    by (cases st) (simp add: generate_one_def split: prod.splits)
  with Cons show ?case by simp
qed simp

end
