(* ===== verification/Settlement.thy ===== *)
theory Settlement
  imports System
begin

text \<open>
  The settlement job in a state of the program: a due installment is always settled,
  and every settlement takes exactly one transaction off the due ones.
\<close>

section \<open>A due installment can be settled\<close>

lemma traverse_total: "(\<And>x. x \<in> set xs \<Longrightarrow> \<exists>y. f x = Inr y) \<Longrightarrow> \<exists>ys. traverse f xs = Inr ys"
proof (induction xs)
  case (Cons x xs)
  then obtain y ys where "f x = Inr y" "traverse f xs = Inr ys" by (metis list.set_intros)
  then show ?case by simp
qed simp

lemma lockAccounts_total:
  assumes "rows_parse d" "distinct_by row_id (accounts d)"
  shows "\<exists>accts. lockAccounts d ids = Inr accts"
  unfolding lockAccounts_def
proof (rule traverse_total)
  fix r assume "r \<in> set (sort_key row_id (filter (\<lambda>r. row_id r \<in> set (lock_ids ids)) (accounts d)))"
  then have "account_row_of d (row_id r) = Some r"
    using find_row_key_Some_iff[OF assms(2), of "row_id r" r] by (simp add: account_row_of_def)
  with assms(1) obtain a where "account_toDomain r = Inr a" by (auto simp: rows_parse_def row_parses_def)
  then show "\<exists>y. and_then (account_toDomain r) (\<lambda>a. Inr (row_id r, a)) = Inr y" by simp
qed

lemma post_deltas_total:
  assumes "en_cause en \<noteq> OPENING" "\<And>i x. (i, x) \<in> set ds \<Longrightarrow> account_row_of d i \<noteq> None"
  shows "\<exists>d'. post_deltas en ds d = Inr d'"
  using assms(2)
proof (induction ds arbitrary: d)
  case (Cons e ds)
  obtain i x where e: "e = (i, x)" by (cases e)
  with Cons.prems obtain r where r: "account_row_of d i = Some r" by fastforce
  then obtain d1 where d1: "post_delta en i x d = Inr d1"
    using assms(1) by (simp add: post_delta_def insert_movement_def)
  have "account_row_of d1 j \<noteq> None" if "account_row_of d j \<noteq> None" for j
    using that posts_account_row[OF post_delta_posts[OF d1]] by simp
  then have "\<exists>d'. post_deltas en ds d1 = Inr d'"
    using Cons.IH[of d1] Cons.prems by (meson list.set_intros(2))
  then show ?case by (simp add: e d1)
qed simp

lemma find_candidate:
  assumes "distinct_by tx_id (transactions d)" "t \<in> set (transactions d)" "status_candidate params t"
  shows "find_row (status_candidate params) (transactions d) = Some t"
proof (cases "find_row (status_candidate params) (transactions d)")
  case None
  with assms(2,3) show ?thesis by (simp add: find_row_None_iff)
next
  case (Some u)
  with find_row_SomeD[OF Some] assms show ?thesis
    by (auto simp: status_candidate_def distinct_by_def distinct_map inj_on_def)
qed

lemma settled_effect:
  assumes "tx_type t \<in> {EXPENSE, INCOME}"
  shows "balanceEffectsFrom PENDING (t\<lparr>tx_status := COMPLETED, tx_updatedAt := u\<rparr>)
    = [\<lparr>eff_accountId = tx_accountId t, eff_amount = tx_amount t,
        eff_kind = (if tx_type t = INCOME then income else expense)\<rparr>]"
  using assms
  by (auto simp: balanceEffectsFrom_def revertedBalanceEffects_def balanceEffects_def resolveBalanceEffects_def
      buildEffect_def)

lemma card_effect:
  assumes "is_CreditCard a" "0 < x"
  shows "\<exists>b. apply_effect True a k x = Inr b"
  using assms by (cases a; cases k) (auto simp: account_op_defs)

lemma card_row:
  assumes "account_toDomain r = Inr a" "row_type r = AccountType_value CREDIT_CARD"
  shows "is_CreditCard a"
  using assms by (auto simp: account_toDomain_def split: option.splits)

lemma settle_due:
  assumes ok: "system_ok d" and ids: "account_row_of d [] = None"
    and t: "t \<in> set (transactions d)" "dueCardTransactionsFilter localDay d n0 t"
  obtains d' u where "settle now t d = (d', settled)"
    "updateStatusWithBalanceEffect now \<lparr>sp_transactionId = tx_id t, sp_workspaceId = tx_workspaceId t,
       sp_status = COMPLETED, sp_scheduledSettlement = True\<rparr>
       \<lparr>ctx_cause = Some STATUS_CHANGED, ctx_actorId = SYSTEM_ACTOR_ID\<rparr> d = Inr (d', u)"
proof -
  let ?p = "\<lparr>sp_transactionId = tx_id t, sp_workspaceId = tx_workspaceId t,
       sp_status = COMPLETED, sp_scheduledSettlement = True\<rparr>"
  let ?ctx = "\<lparr>ctx_cause = Some STATUS_CHANGED, ctx_actorId = SYSTEM_ACTOR_ID\<rparr>"
  let ?u = "t\<lparr>tx_status := COMPLETED, tx_updatedAt := Some now\<rparr>"
  define d1 where "d1 = d\<lparr>transactions := update_rows (status_candidate ?p)
      (\<lambda>t. t\<lparr>tx_status := COMPLETED, tx_updatedAt := Some now\<rparr>) (transactions d)\<rparr>"
  note fine = system_okD(1)[OF ok, unfolded tenant_ok_def] and dist = system_okD(2,3)[OF ok]
  from t(2) obtain r where r: "account_row_of d (tx_accountId t) = Some r" "row_type r = AccountType_value CREDIT_CARD"
    and ty: "tx_type t \<in> {EXPENSE, INCOME}" and pend: "tx_status t = PENDING"
    by (auto simp: dueCardTransactionsFilter_def split: option.splits)
  have cand: "find_row (status_candidate ?p) (transactions d) = Some t"
    by (rule find_candidate[OF dist(2) t(1)]) (simp add: status_candidate_def pend)
  have rows: "account_row_of d1 i = account_row_of d i" for i by (simp add: d1_def account_row_of_def)
  have "rows_parse d1" using fine by (simp add: rows_parse_def rows)
  then obtain accts where lock: "lockAccounts d1 [Some (tx_accountId t), tx_destinationAccountId t] = Inr accts"
    using lockAccounts_total dist(1) by (fastforce simp: d1_def)
  have "tx_accountId t \<in> set (lock_ids [Some (tx_accountId t), tx_destinationAccountId t])"
    using r(1) ids by (auto simp: lock_ids_def falsy_def)
  with lockAccounts_None[OF lock] r(1) obtain a where a: "map_of accts (tx_accountId t) = Some a"
    by (fastforce simp: rows)
  have "distinct_by row_id (accounts d1)" using dist(1) by (simp add: d1_def)
  with lockAccounts_Some[OF lock a] r obtain "account_toDomain r = Inr a" by (auto simp: rows)
  then have card: "is_CreditCard a" and id: "account_id a = tx_accountId t"
    using card_row r(2) lockAccounts_keyed[OF lock] a by (auto simp: keyed_def)
  obtain b where b: "apply_effect True a (if tx_type t = INCOME then income else expense) (tx_amount t) = Inr b"
    using card_effect[OF card] fine t(1) by blast
  define ds where "ds = [(tx_accountId t, balance b - balance a)]"
  have ds: "applyBalanceEffects True accts (balanceEffectsFrom PENDING ?u) = Inr ds"
    by (simp add: settled_effect[OF ty] applyBalanceEffects_def a b id balance_deltas_def ds_def update_conv' Let_def)
  have "\<exists>d2. post_deltas (entry (tx_id t) STATUS_CHANGED ?ctx) (ordered_deltas ds) d1 = Inr d2"
    by (rule post_deltas_total) (use r(1) in \<open>auto simp: entry_def ds_def ordered_deltas_def rows split: if_splits\<close>)
  then obtain d2 where "post_deltas (entry (tx_id t) STATUS_CHANGED ?ctx) (ordered_deltas ds) d1 = Inr d2" ..
  then have up: "updateStatusWithBalanceEffect now ?p ?ctx d = Inr (d2, ?u)"
    using cand lock ds by (simp add: updateStatusWithBalanceEffect_def d1_def writeBalanceDeltas_def)
  then have "settle now t d = (d2, settled)" by (simp add: settle_def)
  with up show thesis by (rule that[rotated])
qed

text \<open>The transactions that are due.\<close>

definition due_now :: "(string \<Rightarrow> int \<Rightarrow> int) \<Rightarrow> int \<Rightarrow> db \<Rightarrow> transaction list" where
  "due_now localDay n0 d = filter (dueCardTransactionsFilter localDay d n0) (transactions d)"

lemma touches_due:
  assumes "touches A d d'"
  shows "dueCardTransactionsFilter localDay d' n0 t = dueCardTransactionsFilter localDay d n0 t"
  using assms by (auto simp: touches_def posts_def dueCardTransactionsFilter_def split: option.splits)

lemma length_filter_update_one:
  assumes "distinct xs" "x \<in> set xs" "\<And>y. y \<in> set xs \<Longrightarrow> p y \<longleftrightarrow> y = x" "q x" "\<not> q (f x)"
  shows "length (filter q xs) = Suc (length (filter q (update_rows p f xs)))"
  using assms
proof (induction xs)
  case (Cons y ys)
  show ?case
  proof (cases "y = x")
    case True
    with Cons.prems(1,3) have "z \<in> set ys \<Longrightarrow> \<not> p z" for z by auto
    then have "update_rows p f ys = ys" by (simp add: update_rows_def map_idI)
    moreover have "p y" using Cons.prems(3)[of y] True by simp
    ultimately show ?thesis using True Cons.prems(4,5) by (simp add: update_rows_def)
  next
    case False
    then have "\<not> p y" using Cons.prems(3)[of y] by simp
    with False Cons show ?thesis by (simp add: update_rows_def)
  qed
qed simp

lemma settle_due_effect:
  assumes ok: "system_ok d" and ids: "account_row_of d [] = None"
    and t: "t \<in> set (transactions d)" "dueCardTransactionsFilter localDay d n0 t"
  obtains d' where "settle now t d = (d', settled)" "system_ok d'" "account_row_of d' [] = None"
    "length (due_now localDay n0 d) = Suc (length (due_now localDay n0 d'))"
    "\<And>x. x \<in> set (transactions d) \<Longrightarrow> tx_id x \<noteq> tx_id t \<Longrightarrow> x \<in> set (transactions d')"
    "\<And>x. dueCardTransactionsFilter localDay d' n0 x = dueCardTransactionsFilter localDay d n0 x"
  using ok ids t
proof (rule settle_due)
  let ?p = "\<lparr>sp_transactionId = tx_id t, sp_workspaceId = tx_workspaceId t,
       sp_status = COMPLETED, sp_scheduledSettlement = True\<rparr>"
  fix d' u assume s: "settle now t d = (d', settled)" and up: "updateStatusWithBalanceEffect now ?p
       \<lparr>ctx_cause = Some STATUS_CHANGED, ctx_actorId = SYSTEM_ACTOR_ID\<rparr> d = Inr (d', u)"
  from up obtain row where touch: "touches (tx_moves row) d d'"
    and tx: "transactions d' = update_rows (status_candidate ?p)
      (\<lambda>t. t\<lparr>tx_status := COMPLETED, tx_updatedAt := Some now\<rparr>) (transactions d)"
    by (rule status_touches) simp
  have pend: "tx_status t = PENDING" using t(2) by (simp add: dueCardTransactionsFilter_def)
  have dist: "distinct_by tx_id (transactions d)" by (rule system_okD(3)[OF ok])
  have one: "status_candidate ?p y \<longleftrightarrow> y = t" if "y \<in> set (transactions d)" for y
    using that t(1) dist pend by (auto simp: status_candidate_def distinct_by_def distinct_map inj_on_def)
  have "system_ok d'" using settle_ran[OF s, of d] ok by (simp add: job_ran_def)
  moreover have "account_row_of d' [] = None" using touch ids by (auto simp: touches_def posts_def)
  moreover have "length (due_now localDay n0 d) = Suc (length (due_now localDay n0 d'))"
    unfolding due_now_def touches_due[OF touch] tx
  proof (rule length_filter_update_one[where x = t])
    show "distinct (transactions d)" using dist by (simp add: distinct_by_def distinct_map)
    show "\<not> dueCardTransactionsFilter localDay d n0 (t\<lparr>tx_status := COMPLETED, tx_updatedAt := Some now\<rparr>)"
      by (simp add: dueCardTransactionsFilter_def)
  qed (use t one in blast)+
  moreover have "x \<in> set (transactions d')" if "x \<in> set (transactions d)" "tx_id x \<noteq> tx_id t" for x
    using that unfolding tx update_rows_def by (force simp: status_candidate_def)
  ultimately show thesis using s touches_due[OF touch] by (intro that)
qed

section \<open>The loop\<close>

lemma settle_loop_drains:
  assumes "settle_loop clock s0 ts (d, c, ws) = (d', c', ws')" "system_ok d" "account_row_of d [] = None"
    and "\<And>t. t \<in> set ts \<Longrightarrow> t \<in> set (transactions d) \<and> dueCardTransactionsFilter localDay d n0 t"
    and "distinct (map tx_id ts)"
  shows "\<exists>k \<le> length ts. st_settled c' = st_settled c + k \<and> st_processed c' = st_processed c + k
    \<and> st_skipped c' = st_skipped c \<and> st_failed c' = st_failed c
    \<and> length (due_now localDay n0 d) = length (due_now localDay n0 d') + k
    \<and> (st_processed c = 0 \<longrightarrow> ts \<noteq> [] \<longrightarrow> 0 < k)
    \<and> ((\<forall>n. \<not> isOverBudget s0 (clock n)) \<longrightarrow> k = length ts)"
  using assms
proof (induction ts arbitrary: d c ws)
  case (Cons t ts)
  show ?case
  proof (cases "st_processed c > 0 \<and> isOverBudget s0 (clock (st_processed c))")
    case True
    with Cons.prems(1) show ?thesis by (intro exI[of _ 0]) auto
  next
    case False
    have t: "t \<in> set (transactions d)" "dueCardTransactionsFilter localDay d n0 t" using Cons.prems(4)[of t] by auto
    obtain d1 where s: "settle (clock (st_processed c)) t d = (d1, settled)" and ok1: "system_ok d1" "account_row_of d1 [] = None"
      and len: "length (due_now localDay n0 d) = Suc (length (due_now localDay n0 d1))"
      and keep: "\<And>x. x \<in> set (transactions d) \<Longrightarrow> tx_id x \<noteq> tx_id t \<Longrightarrow> x \<in> set (transactions d1)"
      and same: "\<And>x. dueCardTransactionsFilter localDay d1 n0 x = dueCardTransactionsFilter localDay d n0 x"
      using settle_due_effect[OF Cons.prems(2,3) t, of "clock (st_processed c)"] by blast
    have rec: "settle_loop clock s0 ts (d1, count_result settled c, add_once (tx_workspaceId t) ws) = (d', c', ws')"
      using Cons.prems(1) False by (simp add: s)
    have mem: "x \<in> set (transactions d1) \<and> dueCardTransactionsFilter localDay d1 n0 x" if "x \<in> set ts" for x
      using that Cons.prems(4)[of x] Cons.prems(5) keep same by (metis imageI list.set_intros(2) list.set_map list.simps(9) distinct.simps(2))
    from Cons.IH[OF rec ok1 mem] Cons.prems(5) obtain k where "k \<le> length ts"
      "st_settled c' = st_settled c + 1 + k \<and> st_processed c' = st_processed c + 1 + k
        \<and> st_skipped c' = st_skipped c \<and> st_failed c' = st_failed c
        \<and> length (due_now localDay n0 d1) = length (due_now localDay n0 d') + k
        \<and> ((\<forall>n. \<not> isOverBudget s0 (clock n)) \<longrightarrow> k = length ts)" by auto
    then show ?thesis using len by (intro exI[of _ "Suc k"]) auto
  qed
qed simp

end
