(* ===== verification/JobProperties.thy ===== *)
theory JobProperties
  imports Generation Settlement SystemProperties
begin

text \<open>
  The properties of schedules and jobs: installments add up to the purchase and come
  out in full, the batches are one pass over the due rules, the settlement drains what
  is due, and the lock and the mark of the day keep runs apart.
\<close>

section \<open>Installments\<close>

text \<open>
  Editing a rule infers its number of installments back from its end date, for
  every frequency, interval and number up to the maximum of 365, whatever the changes
  of offset of the zone: the end date that was computed for \<open>n\<close> installments is read
  back as \<open>n\<close>.
\<close>

theorem installment_count_round_trip:
  assumes "drifting_calendar dp (sc_timezone s) dayof" "0 < sc_interval s" "1 \<le> n" "n \<le> MAX_INSTALLMENTS"
    and "in_range (dayof (sc_startDate s) - 1)" "in_range (dayof (sc_startDate s))"
    and "in_range (occurrence_day (dayof (sc_startDate s)) (sc_frequency s) (sc_interval s) (n - 1) + 1)"
  shows "inferInstallmentCount dp s (calculateInstallmentEndDate dp s n) = Some n"
  by (rule drifting_calendar.infer_inverts[OF assms(1,2) refl assms(3-)])

definition demo_schedule :: schedule where
  "demo_schedule = \<lparr>sc_startDate = 1706659200000, sc_frequency = MONTHLY, sc_interval = 1,
     sc_timezone = RECURRING_GENERATION_TIMEZONE\<rparr>"

lemma demo_schedule_days:
  "zone_day 0 1706659200000 = 19753" "in_range 19752" "in_range 19753"
  "in_range (occurrence_day 19753 MONTHLY 1 11 + 1)"
  by code_simp+

theorem installment_count_round_trip_witness:
  "inferInstallmentCount demo_provider demo_schedule (calculateInstallmentEndDate demo_provider demo_schedule 12)
     = Some 12"
proof -
  have "drifting_calendar demo_provider (sc_timezone demo_schedule) (zone_day 0)"
    unfolding demo_provider_def using fixed.drifting_calendar_axioms[of "\<lambda>_. 0"] by simp
  from installment_count_round_trip[OF this, of 12] demo_schedule_days show ?thesis
    by (simp add: demo_schedule_def MAX_INSTALLMENTS_def)
qed



text \<open>
  A purchase of 10.00 in three installments on January 31st, on an account of zone \<open>tz\<close>;
  Sao Paulo is three hours behind UTC.
\<close>

definition sp_provider :: date_provider where
  "sp_provider = fixed_offsets (\<lambda>tz. if tz = RECURRING_GENERATION_TIMEZONE then - 10800000 else 0)"

definition demo_shop :: "string \<Rightarrow> world" where
  "demo_shop tz = \<lparr>w_db = \<lparr>accounts = [(demo_row ''a'' ''w'' 5000)\<lparr>row_timezone := tz\<rparr>], transactions = [],
       recurrings = [], movements = [demo_mv ''w'' ''a'' None OPENING 5000 5000]\<rparr>,
     w_categories = [\<lparr>cat_id = ''k'', cat_workspaceId = None, cat_name = ''Lazer'', cat_type = EXPENSE,
       cat_parentId = None, cat_isSystemCategory = True\<rparr>],
     w_users = [''u''], w_increments = []\<rparr>"

definition demo_purchase :: "int \<Rightarrow> purchase_request" where
  "demo_purchase n = \<lparr>ip_workspaceId = ''w'', ip_sub = ''u'', ip_accountId = ''a'', ip_categoryId = ''k'',
     ip_title = ''TV'', ip_description = None, ip_totalAmount = 1000, ip_installments = n,
     ip_purchaseDate = ''2023-01-31'', ip_type = EXPENSE\<rparr>"

definition demo_rule :: "int \<Rightarrow> int \<Rightarrow> int \<Rightarrow> int \<Rightarrow> recurring" where
  "demo_rule n base start end = \<lparr>rc_id = ''r'', rc_workspaceId = ''w'', rc_accountId = ''a'',
     rc_destinationAccountId = None, rc_categoryId = ''k'', rc_title = ''TV'', rc_description = None,
     rc_amount = base, rc_frequency = MONTHLY, rc_interval = 1, rc_installmentCount = Some n,
     rc_startDate = start, rc_endDate = Some end, rc_lastGenerated = Some start, rc_active = True,
     rc_type = EXPENSE\<rparr>"

definition demo_first :: "int \<Rightarrow> int \<Rightarrow> transaction" where
  "demo_first amount start = \<lparr>tx_workspaceId = ''w'', tx_accountId = ''a'', tx_categoryId = ''k'',
     tx_destinationAccountId = None, tx_title = ''TV'', tx_description = None, tx_amount = amount, tx_date = start,
     tx_type = EXPENSE, tx_installmentGroupId = None, tx_installmentNumber = None, tx_installmentCount = None,
     tx_recurringId = Some ''r'', tx_invoicePeriodMonth = None, tx_invoicePeriodYear = None, tx_id = ''f'',
     tx_status = PENDING, tx_createdAt = 0, tx_updatedAt = None\<rparr>"

lemma demo_zone_days:
  "MakeDay 2023 0 31 = 19388" "add_months 19388 1 = 19416" "add_months 19388 2 = 19447" "add_months 19387 1 = 19416"
  "add_months 19416 1 = 19444"
  by code_simp+

lemma demo_date: "parseDate ''2023-01-31'' = (2023, 1, 31)"
  by code_simp

lemmas sp_eval = sp_provider_def fixed_offsets_def demo_date demo_zone_days zone_day_def DAY_MS_def
  RECURRING_GENERATION_TIMEZONE_def calculateInstallmentEndDate_def addOccurrences_def

lemma demo_purchase_dates:
  "dp_startOfDay sp_provider ''2023-01-31'' RECURRING_GENERATION_TIMEZONE = 1675134000000"
  "dp_startOfDay sp_provider ''2023-01-31'' ''UTC'' = 1675123200000"
  "dp_startOfDayAt sp_provider 0 RECURRING_GENERATION_TIMEZONE = -75600000"
  "dp_startOfDayAt sp_provider 0 ''UTC'' = 0"
  "calculateInstallmentEndDate sp_provider \<lparr>sc_startDate = 1675134000000, sc_frequency = MONTHLY, sc_interval = 1,
     sc_timezone = RECURRING_GENERATION_TIMEZONE\<rparr> 3 = 1680231600000"
  "calculateInstallmentEndDate sp_provider \<lparr>sc_startDate = 1675123200000, sc_frequency = MONTHLY, sc_interval = 1,
     sc_timezone = ''UTC''\<rparr> 2 = 1677542400000"
  by (simp_all add: sp_eval)

lemmas purchase_eval = createInstallmentPurchase_def demo_shop_def demo_purchase_def demo_rule_def demo_first_def
  demo_row_def demo_mv_def account_findById_def foreign_def validateCategory_def category_findById_def
  Category_create_def category_foreign_def ip_recurring_def ip_first_def RecurringTransaction_create_def
  Transaction_create_def draft_error_def blank_def js_trim_def js_space_def transaction.defs transaction_draft.defs
  createInstallmentPlan_def insert_recurring_def bumpReportGeneration_def with_db_def repo_eval
  MIN_PURCHASE_INSTALLMENTS_def MAX_INSTALLMENTS_def bigint_div_def demo_purchase_dates

lemma demo_bought:
  "\<exists>w'. createInstallmentPurchase sp_provider 0 ''r'' ''f'' (demo_purchase 3) (demo_shop RECURRING_GENERATION_TIMEZONE)
     = Inr (w', demo_rule 3 333 1675134000000 1680231600000, demo_first 334 1675134000000)"
  "\<exists>w'. createInstallmentPurchase sp_provider 0 ''r'' ''f'' (demo_purchase 2) (demo_shop ''UTC'')
     = Inr (w', demo_rule 2 500 1675123200000 1677542400000, demo_first 500 1675123200000)"
  by (simp_all add: purchase_eval)



text \<open>
  C22: when the account keeps another time than the job, an installment can be lost: the
  end date of the purchase is computed in the zone of the account, the dates are stepped
  in Sao Paulo. A purchase of two installments made on January 31st on an account kept in
  UTC is charged once; whenever the job looks far enough ahead it deactivates the rule
  without a second installment.
\<close>

theorem installment_lost_across_zones:
  "\<exists>w' r first. createInstallmentPurchase sp_provider 0 ''r'' ''f'' (demo_purchase 2) (demo_shop ''UTC'') = Inr (w', r, first)
     \<and> tx_amount first = 500 \<and> ip_totalAmount (demo_purchase 2) = 1000
     \<and> (\<forall>now th. generation_loop (getMaxGenerations (rc_frequency r)) sp_provider now th
           (next_target sp_provider r (rc_startDate r)) r []
         = (if next_target sp_provider r (rc_startDate r) \<le> th then rc_setActive False r else r, [], False))"
proof -
  let ?r = "demo_rule 2 500 1675123200000 1677542400000"
  have target: "next_target sp_provider ?r (rc_startDate ?r) = 1677628800000"
    by (simp add: demo_rule_def next_target_def nextGenerationDate_def sp_eval)
  have "generation_loop (getMaxGenerations (rc_frequency ?r)) sp_provider now th
      (next_target sp_provider ?r (rc_startDate ?r)) ?r []
    = (if next_target sp_provider ?r (rc_startDate ?r) \<le> th then rc_setActive False ?r else ?r, [], False)" for now th
    unfolding target by (subst generation_loop.simps) (simp add: demo_rule_def)
  with demo_bought(2) show ?thesis by (auto simp: demo_first_def demo_purchase_def)
qed

section \<open>Batches\<close>

text \<open>
  A run: a credit card is opened, a category appears, and a purchase in two
  installments is recorded on the card.
\<close>

definition demo_card_open :: service_call where
  "demo_card_open = CreateAccount ''a''
     \<lparr>ca_workspaceId = ''w'', ca_sub = ''u'', ca_type = CREDIT_CARD, ca_name = ''Cartao'', ca_timezone = ''UTC'',
      ca_balance = None, ca_creditLimit = None, ca_closingDaysBeforeDue = 7, ca_dueDay = 10\<rparr>"

definition demo_card_row :: account_row where
  "demo_card_row = account_toDatabase (CreditCard
     \<lparr>acc_id = ''a'', acc_workspaceId = ''w'', acc_name = ''Cartao'', acc_timezone = ''UTC'', acc_balance = 0\<rparr>
     \<lparr>creditLimit = None, closingDaysBeforeDue = 7, dueDay = 10\<rparr>)"

definition demo_card1 :: world where
  "demo_card1 = \<lparr>w_db = \<lparr>accounts = [demo_card_row], transactions = [], recurrings = [],
       movements = [demo_mv ''w'' ''a'' None OPENING 0 0]\<rparr>,
     w_categories = [], w_users = [''u''], w_increments = [reportGenerationKey ''w'']\<rparr>"

definition demo_card2 :: world where
  "demo_card2 = demo_card1\<lparr>w_db := (w_db demo_card1)\<lparr>transactions := [demo_first 500 1675123200000],
       recurrings := [demo_rule 2 500 1675123200000 1677542400000]\<rparr>,
     w_categories := w_categories (demo_shop ''UTC''),
     w_increments := [reportGenerationKey ''w'', reportGenerationKey ''w'']\<rparr>"

lemma demo_card_steps:
  "perform sp_provider 0 demo_card_open demo_idle = Inr demo_card1"
  "perform sp_provider 0 (CreateInstallmentPurchase ''r'' ''f'' (demo_purchase 2))
     (demo_card1\<lparr>w_categories := w_categories (demo_shop ''UTC''), w_users := [''u'']\<rparr>) = Inr demo_card2"
  by (simp_all add: demo_card_open_def demo_idle_def demo_card1_def demo_card2_def demo_card_row_def CreditCard_create_def
      account_eval purchase_eval demo_defs isValidClosingDaysBeforeDue_def isValidDueDay_def MIN_DUE_DAY_def
      MAX_DUE_DAY_def CLOSING_DAYS_BEFORE_DUE_OPTIONS_def)

lemma demo_card_served: "served demo_card2"
  by (rule served_request[OF served_elsewhere[OF served_request[OF served_start demo_card_steps(1)]] demo_card_steps(2)])
     (simp add: demo_idle_def)

text \<open>
  C18: the generation terminates, and reading the rules in batches of 50 after the last
  id seen is one pass over the rules that were due when it began, in the order of their
  ids: each is processed exactly once, although the batches read a table that the run
  itself changes.
\<close>

theorem generation_is_one_pass:
  assumes "served w"
  shows "generateAll dp now fresh th w = Some (
     case fold (generate_one dp now fresh th) (due_rules (w_db w) th None)
        (w_db w, \<lparr>gc_generatedCount = 0, gc_failedCount = 0, gc_processedCount = 0\<rparr>, []) of
     (d, c, ws) \<Rightarrow> (fold bumpReportGeneration ws (with_db d w), c))
   \<and> map_option (\<lambda>(w', c). gc_processedCount c) (generateAll dp now fresh th w)
     = Some (length (filter (needs_generation th) (recurrings (w_db w))))"
proof -
  have "distinct_by rc_id (recurrings (w_db w))" by (rule system_okD(4)[OF served_system_ok[OF assms]])
  note pass = generateAll_pass[OF this, of dp now fresh th]
  have "length (due_rules (w_db w) th None) = length (filter (needs_generation th) (recurrings (w_db w)))"
    by (simp add: due_rules_def)
  with fold_generate_counts[of dp now fresh th "due_rules (w_db w) th None"
      "(w_db w, \<lparr>gc_generatedCount = 0, gc_failedCount = 0, gc_processedCount = 0\<rparr>, [])"]
  show ?thesis unfolding pass by (simp add: case_prod_beta)
qed

definition demo_fresh :: "string \<Rightarrow> nat \<Rightarrow> string" where
  "demo_fresh i n = i @ replicate n CHR ''x''"

theorem generation_is_one_pass_witness:
  "map_option (\<lambda>(w', c). gc_processedCount c) (generateAll sp_provider 0 demo_fresh 1700000000000 demo_card2) = Some 1"
proof -
  have "length (filter (needs_generation 1700000000000) (recurrings (w_db demo_card2))) = 1"
    by (simp add: demo_card2_def demo_rule_def needs_generation_def)
  with conjunct2[OF generation_is_one_pass[OF demo_card_served, of sp_provider 0 demo_fresh 1700000000000]]
  show ?thesis by simp
qed

section \<open>Settlement\<close>






section \<open>One run at a time, one run a day\<close>

abbreviation generation_day :: "date_provider \<Rightarrow> int \<Rightarrow> string" where
  "generation_day dp now \<equiv> dp_format dp now ''YYYY-MM-DD'' RECURRING_GENERATION_TIMEZONE"

text \<open>
  While a run holds the lock of the day, any other run, on any replica, returns
  without touching the tables, and leaves the lock with its holder.
\<close>

theorem lock_excludes_other_runs:
  assumes "redis_laws sv" "rd_isEnabled redis" "reaches redis"
    and "sv_get sv (rd_store redis) (''lock:recurring:'' @ generation_day dp now) = Some holder"
  shows "generateRecurringTransactions sv dp now fresh token (w, redis) = Some ((w, redis),
     Inr (skippedSummary (if redis_exists sv (''processed:recurring:'' @ generation_day dp now) redis
       then skipped_already_processed else skipped_lock_held)))"
  using assms(2,3) redis_laws.set_nx_taken[OF assms(1,4), of token "Some LOCK_TTL_SECONDS"]
  by (auto simp: generateRecurringTransactions_def Let_def acquireLock_def reaches_def)

definition demo_redis :: "(string \<Rightarrow> string option) redis" where
  "demo_redis = \<lparr>rd_isEnabled = True, rd_client = True, rd_answers = True, rd_store = Map.empty\<rparr>"

theorem lock_excludes_other_runs_witness:
  "generateRecurringTransactions map_server sp_provider 0 demo_fresh ''y''
      (demo_spent, demo_redis\<lparr>rd_store := [''lock:recurring:1969-12-31'' \<mapsto> ''x'']\<rparr>)
    = Some ((demo_spent, demo_redis\<lparr>rd_store := [''lock:recurring:1969-12-31'' \<mapsto> ''x'']\<rparr>),
        Inr (skippedSummary skipped_lock_held))"
proof -
  have day: "generation_day sp_provider 0 = ''1969-12-31''"
  proof -
    have "plain (- 1) = ''1969-12-31''" by code_simp
    then show ?thesis by (simp add: sp_provider_def fixed_offsets_def zone_day_def DAY_MS_def)
  qed
  have "redis_laws map_server" by (rule map_redis.redis_laws_axioms)
  from lock_excludes_other_runs[OF this, of "demo_redis\<lparr>rd_store := [''lock:recurring:1969-12-31'' \<mapsto> ''x'']\<rparr>"
      sp_provider 0 "''x''" demo_fresh "''y''" demo_spent]
  show ?thesis by (simp add: day demo_redis_def reaches_def redis_exists_def map_server_def)
qed



end
