(* ===== verification/Interleaving.thy ===== *)
theory Interleaving
  imports Prelude
begin

text \<open>
  Services that make several calls of the database without one transaction around
  them. A service is a tree of atomic calls on the shared state: each call returns
  the state after it and the rest of the service. Running the tree alone is the
  service as a function; any number of trees whose calls alternate in any order,
  with steps of the environment between them, are the concurrent requests of the
  server. The rely/guarantee rules carry an invariant, and what a request has
  learnt from its last call, through every interleaving.
\<close>

section \<open>Services as trees of atomic calls\<close>

datatype (dead 's, 'a) io = Return 'a | Atomic "'s \<Rightarrow> 's \<times> ('s, 'a) io"

primrec io_bind :: "('s, 'a) io \<Rightarrow> ('a \<Rightarrow> ('s, 'b) io) \<Rightarrow> ('s, 'b) io" where
  "io_bind (Return a) k = k a"
| "io_bind (Atomic f) k = Atomic (map_prod id (\<lambda>m. io_bind m k) \<circ> f)"

primrec io_run :: "('s, 'a) io \<Rightarrow> 's \<Rightarrow> 's \<times> 'a" where
  "io_run (Return a) = (\<lambda>s. (s, a))"
| "io_run (Atomic f) = (\<lambda>s. case (map_prod id io_run \<circ> f) s of (s', g) \<Rightarrow> g s')"

text \<open>One call of a repository, one read, and a call whose \<open>left\<close> ends the service.\<close>

definition call :: "('s \<Rightarrow> 's \<times> 'a) \<Rightarrow> ('s, 'a) io" where
  "call f = Atomic (\<lambda>s. map_prod id Return (f s))"

definition query :: "('s \<Rightarrow> 'a) \<Rightarrow> ('s, 'a) io" where
  "query f = call (\<lambda>s. (s, f s))"

definition io_try :: "('s, 'e + 'a) io \<Rightarrow> ('a \<Rightarrow> ('s, 'e + 'b) io) \<Rightarrow> ('s, 'e + 'b) io" where
  "io_try m k = io_bind m (\<lambda>r. case r of Inl e \<Rightarrow> Return (Inl e) | Inr a \<Rightarrow> k a)"

definition io_map :: "('a \<Rightarrow> 'b) \<Rightarrow> ('s, 'a) io \<Rightarrow> ('s, 'b) io" where
  "io_map g m = io_bind m (Return \<circ> g)"

lemma io_induct [case_names Return Atomic]:
  assumes "\<And>a. P (Return a)" "\<And>f. (\<And>s. P (snd (f s))) \<Longrightarrow> P (Atomic f)"
  shows "P m"
proof (induction m)
  case (Atomic f)
  have "P (snd (f s))" for s by (rule Atomic.IH[of "f s"]) (simp_all add: snds.intros)
  then show ?case by (rule assms(2))
qed (rule assms(1))

lemma io_run_Atomic: "io_run (Atomic f) s = (case f s of (s', m) \<Rightarrow> io_run m s')"
  by (simp split: prod.splits)

lemma io_run_bind [simp]: "io_run (io_bind m k) s = (case io_run m s of (s', a) \<Rightarrow> io_run (k a) s')"
proof (induction m arbitrary: s rule: io_induct)
  case (Atomic f)
  from Atomic.IH[of s] show ?case
    by (cases "f s") (simp add: io_run_Atomic del: io_run.simps(2))
qed simp

lemma io_run_call [simp]: "io_run (call f) s = f s"
  by (cases "f s") (simp add: call_def)

lemma io_run_query [simp]: "io_run (query f) s = (s, f s)"
  by (simp add: query_def)

lemma io_run_try [simp]: "io_run (io_try m k) s =
    (case io_run m s of (s', r) \<Rightarrow> (case r of Inl e \<Rightarrow> (s', Inl e) | Inr a \<Rightarrow> io_run (k a) s'))"
  by (simp add: io_try_def split: prod.splits sum.splits)

lemma io_run_map [simp]: "io_run (io_map g m) s = map_prod id g (io_run m s)"
  by (simp add: io_map_def split: prod.splits)

declare io_run.simps(2) [simp del]

section \<open>A bound on the calls of a request\<close>

text \<open>Whatever the calls answer, the request makes at most \<open>n\<close> of them.\<close>

primrec calls_within :: "('s, 'a) io \<Rightarrow> nat \<Rightarrow> bool" where
  "calls_within (Return a) = (\<lambda>n. True)"
| "calls_within (Atomic f) = (\<lambda>n. \<exists>k. n = Suc k \<and> (\<forall>s. snd ((map_prod id calls_within \<circ> f) s) k))"

lemma calls_within_Atomic [simp]:
  "calls_within (Atomic f) n \<longleftrightarrow> (\<exists>k. n = Suc k \<and> (\<forall>s. calls_within (snd (f s)) k))"
  by simp

declare calls_within.simps(2) [simp del]

lemma calls_within_mono: "calls_within m n \<Longrightarrow> n \<le> n' \<Longrightarrow> calls_within m n'"
proof (induction m arbitrary: n n' rule: io_induct)
  case (Atomic f)
  from Atomic.prems obtain k k' where "n = Suc k" "n' = Suc k'" "k \<le> k'" "\<And>s. calls_within (snd (f s)) k"
    by (cases n') auto
  with Atomic.IH show ?case by auto
qed simp

lemma calls_within_bind:
  "calls_within m n \<Longrightarrow> (\<And>a. calls_within (k a) n') \<Longrightarrow> calls_within (io_bind m k) (n + n')"
proof (induction m arbitrary: n rule: io_induct)
  case (Return a)
  then show ?case using calls_within_mono[of "k a" n' "n + n'"] by simp
next
  case (Atomic f)
  from Atomic.prems obtain j where j: "n = Suc j" "\<And>s. calls_within (snd (f s)) j" by auto
  have "calls_within (io_bind (snd (f s)) k) (j + n')" for s
    using Atomic.IH j(2) Atomic.prems(2) by simp
  with j(1) show ?case by simp
qed

lemma calls_within_Return [simp]: "calls_within (Return a) n"
  by simp

lemma calls_within_call: "calls_within (call f) 1"
  by (simp add: call_def)

lemma calls_within_query: "calls_within (query f) 1"
  unfolding query_def by (rule calls_within_call)

lemma calls_within_try:
  "calls_within m n \<Longrightarrow> (\<And>a. calls_within (k a) n') \<Longrightarrow> calls_within (io_try m k) (n + n')"
  unfolding io_try_def by (rule calls_within_bind) (simp_all split: sum.splits)

lemma calls_within_map: "calls_within m n \<Longrightarrow> calls_within (io_map g m) n"
  unfolding io_map_def using calls_within_bind[of m n "Return \<circ> g" 0] by simp

section \<open>Concurrent requests\<close>

text \<open>
  The pool of requests with the shared state: one request makes its next call, or
  the environment \<open>E\<close> moves.
\<close>

inductive io_step :: "('s \<Rightarrow> 's \<Rightarrow> bool) \<Rightarrow> ('s, 'a) io list \<times> 's \<Rightarrow> ('s, 'a) io list \<times> 's \<Rightarrow> bool"
  for E where
  request: "\<lbrakk> i < length ts; ts ! i = Atomic f; f s = (s', m) \<rbrakk> \<Longrightarrow> io_step E (ts, s) (ts[i := m], s')"
| environment: "E s s' \<Longrightarrow> io_step E (ts, s) (ts, s')"

abbreviation interleaved :: "('s \<Rightarrow> 's \<Rightarrow> bool) \<Rightarrow> ('s, 'a) io list \<times> 's \<Rightarrow> ('s, 'a) io list \<times> 's \<Rightarrow> bool" where
  "interleaved E \<equiv> (io_step E)\<^sup>*\<^sup>*"

text \<open>
  What a request does in company: the others move the state by \<open>R\<close> between its
  calls, its own calls move it by \<open>R\<close> as well, and its answer satisfies \<open>Q\<close> in
  every state the others can then reach.
\<close>

primrec in_company :: "('s \<Rightarrow> 's \<Rightarrow> bool) \<Rightarrow> ('s \<Rightarrow> 'a \<Rightarrow> bool) \<Rightarrow> ('s, 'a) io \<Rightarrow> 's \<Rightarrow> bool" where
  "in_company R Q (Return a) = (\<lambda>s. \<forall>s'. R s s' \<longrightarrow> Q s' a)"
| "in_company R Q (Atomic f) = (\<lambda>s. \<forall>s'. R s s' \<longrightarrow>
     R s' (fst (f s')) \<and> snd ((map_prod id (in_company R Q) \<circ> f) s') (fst (f s')))"

lemma in_company_Atomic [simp]:
  "in_company R Q (Atomic f) s \<longleftrightarrow>
     (\<forall>s'. R s s' \<longrightarrow> R s' (fst (f s')) \<and> in_company R Q (snd (f s')) (fst (f s')))"
  by simp

declare in_company.simps(2) [simp del]

locale rely =
  fixes R :: "'s \<Rightarrow> 's \<Rightarrow> bool"
  assumes rely_refl: "R s s" and rely_trans: "R s t \<Longrightarrow> R t u \<Longrightarrow> R s u"
begin

lemma company_later: "in_company R Q m s \<Longrightarrow> R s s' \<Longrightarrow> in_company R Q m s'"
  by (cases m) (auto intro: rely_trans)

lemma company_bind:
  "in_company R P m s \<Longrightarrow> (\<And>a s'. P s' a \<Longrightarrow> in_company R Q (k a) s') \<Longrightarrow> in_company R Q (io_bind m k) s"
proof (induction m arbitrary: s rule: io_induct)
  case (Return a) then show ?case by (simp add: rely_refl)
next
  case (Atomic f)
  have "in_company R Q (io_bind (snd (f s')) k) (fst (f s'))" if "R s s'" for s'
    using Atomic.IH Atomic.prems that by simp
  with Atomic.prems(1) show ?case by simp
qed

lemma company_try:
  assumes "in_company R P m s" "\<And>e s'. P s' (Inl e) \<Longrightarrow> in_company R Q (Return (Inl e)) s'"
    "\<And>a s'. P s' (Inr a) \<Longrightarrow> in_company R Q (k a) s'"
  shows "in_company R Q (io_try m k) s"
  unfolding io_try_def
proof (rule company_bind[OF assms(1)])
  fix r s' assume "P s' r"
  with assms(2,3) show "in_company R Q (case r of Inl e \<Rightarrow> Return (Inl e) | Inr a \<Rightarrow> k a) s'"
    by (cases r) simp_all
qed

lemma company_mono:
  "in_company R Q m s \<Longrightarrow> (\<And>s a. Q s a \<Longrightarrow> Q' s a) \<Longrightarrow> in_company R Q' m s"
proof (induction m arbitrary: s rule: io_induct)
  case (Atomic f)
  have "in_company R Q' (snd (f s')) (fst (f s'))" if "R s s'" for s'
    using Atomic.IH Atomic.prems that by simp
  with Atomic.prems(1) show ?case by simp
qed simp

text \<open>What every move keeps is still there when the request answers.\<close>

lemma company_stable:
  "in_company R Q m s \<Longrightarrow> K s \<Longrightarrow> (\<And>s t. K s \<Longrightarrow> R s t \<Longrightarrow> K t) \<Longrightarrow> in_company R (\<lambda>s a. Q s a \<and> K s) m s"
proof (induction m arbitrary: s rule: io_induct)
  case (Atomic f)
  have "in_company R (\<lambda>s a. Q s a \<and> K s) (snd (f s')) (fst (f s'))" if "R s s'" for s'
  proof (rule Atomic.IH)
    from Atomic.prems(1) that have "R s' (fst (f s'))" by simp
    with that Atomic.prems(2,3) show "K (fst (f s'))" by blast
    show "in_company R Q (snd (f s')) (fst (f s'))" using Atomic.prems(1) that by simp
  qed (rule Atomic.prems(3))
  with Atomic.prems(1) show ?case by simp
qed auto

text \<open>The next call of a request, one rule per shape.\<close>

lemma company_bind_call:
  "(\<And>s'. R s s' \<Longrightarrow> R s' (fst (f s')) \<and> in_company R Q (k (snd (f s'))) (fst (f s')))
     \<Longrightarrow> in_company R Q (io_bind (call f) k) s"
  by (simp add: call_def)

lemma company_bind_query:
  "(\<And>s'. R s s' \<Longrightarrow> in_company R Q (k (f s')) s') \<Longrightarrow> in_company R Q (io_bind (query f) k) s"
  unfolding query_def by (rule company_bind_call) (simp add: rely_refl)

lemma company_try_call:
  "(\<And>s'. R s s' \<Longrightarrow> R s' (fst (f s')) \<and>
      (case snd (f s') of Inl e \<Rightarrow> in_company R Q (Return (Inl e)) (fst (f s'))
       | Inr a \<Rightarrow> in_company R Q (k a) (fst (f s'))))
     \<Longrightarrow> in_company R Q (io_try (call f) k) s"
  unfolding io_try_def
proof (rule company_bind_call)
  fix s' assume step: "\<And>s'. R s s' \<Longrightarrow> R s' (fst (f s')) \<and>
      (case snd (f s') of Inl e \<Rightarrow> in_company R Q (Return (Inl e)) (fst (f s'))
       | Inr a \<Rightarrow> in_company R Q (k a) (fst (f s')))" and "R s s'"
  from step[OF \<open>R s s'\<close>] show "R s' (fst (f s')) \<and>
      in_company R Q (case snd (f s') of Inl e \<Rightarrow> Return (Inl e) | Inr a \<Rightarrow> k a) (fst (f s'))"
    by (cases "snd (f s')") simp_all
qed

lemma company_try_query:
  "(\<And>s'. R s s' \<Longrightarrow> (case f s' of Inl e \<Rightarrow> in_company R Q (Return (Inl e)) s' | Inr a \<Rightarrow> in_company R Q (k a) s'))
     \<Longrightarrow> in_company R Q (io_try (query f) k) s"
  unfolding query_def by (rule company_try_call) (simp only: fst_conv snd_conv rely_refl simp_thms)

lemma company_try_stable:
  assumes "in_company R P m s" "K s" "\<And>s t. K s \<Longrightarrow> R s t \<Longrightarrow> K t"
    "\<And>e s'. P s' (Inl e) \<Longrightarrow> K s' \<Longrightarrow> in_company R Q (Return (Inl e)) s'"
    "\<And>a s'. P s' (Inr a) \<Longrightarrow> K s' \<Longrightarrow> in_company R Q (k a) s'"
  shows "in_company R Q (io_try m k) s"
proof (rule company_try[OF company_stable[where K = K, OF assms(1,2)]])
  show "K t" if "K s" "R s t" for s t using that by (rule assms(3))
qed (use assms(4,5) in blast)+

lemma company_query_stable:
  assumes "K s" "\<And>s t. K s \<Longrightarrow> R s t \<Longrightarrow> K t" "\<And>a s'. K s' \<Longrightarrow> in_company R Q (k a) s'"
  shows "in_company R Q (io_bind (query f) k) s"
  using assms(2)[OF assms(1)] by (intro company_bind_query assms(3))

lemma company_map: "in_company R (\<lambda>s a. Q s (g a)) m s \<Longrightarrow> in_company R Q (io_map g m) s"
  unfolding io_map_def by (induction m arbitrary: s rule: io_induct) simp_all

text \<open>The composition: every request finishes, whenever it does, with its own promise.\<close>

lemma company_step:
  assumes "io_step E (ts, s) (ts', s')" "E \<le> R" "\<forall>i < length ts. in_company R (Q i) (ts ! i) s"
  shows "length ts' = length ts \<and> R s s' \<and> (\<forall>i < length ts'. in_company R (Q i) (ts' ! i) s')"
  using assms(1)
proof (cases rule: io_step.cases)
  case (request i f m)
  from assms(3) request have c: "in_company R (Q i) (Atomic f) s" by auto
  with request rely_refl have "R s s'" and m: "in_company R (Q i) m s'"
    by (metis in_company_Atomic fst_conv snd_conv)+
  have "in_company R (Q j) (ts' ! j) s'" if "j < length ts" for j
  proof (cases "j = i")
    case False
    have "in_company R (Q j) (ts ! j) s" using that assms(3) by blast
    from company_later[OF this \<open>R s s'\<close>] False request show ?thesis by simp
  qed (use that request m in simp)
  with request \<open>R s s'\<close> show ?thesis by simp
next
  case environment
  with assms(2) have "R s s'" by auto
  with environment assms(3) show ?thesis using company_later[OF _ \<open>R s s'\<close>] by blast
qed

lemma company_interleaved:
  assumes "interleaved E (ts, s) (ts', s')" "E \<le> R" "\<forall>i < length ts. in_company R (Q i) (ts ! i) s"
  shows "length ts' = length ts \<and> R s s' \<and> (\<forall>i < length ts'. in_company R (Q i) (ts' ! i) s')"
  using assms(1)
proof (induction "(ts', s')" arbitrary: ts' s' rule: rtranclp_induct)
  case base
  with assms(3) show ?case by (simp add: rely_refl)
next
  case (step c)
  obtain us u where c: "c = (us, u)" by (cases c)
  from step.hyps(3)[OF c] have u: "length us = length ts" "R s u"
    "\<forall>i < length us. in_company R (Q i) (us ! i) u" by auto
  from company_step[OF step.hyps(2)[unfolded c] assms(2), of Q] u rely_trans show ?case by auto
qed

lemma company_answer:
  assumes "interleaved E (ts, s) (ts', s')" "E \<le> R" "\<forall>i < length ts. in_company R (Q i) (ts ! i) s"
    "i < length ts" "ts' ! i = Return a"
  shows "Q i s' a"
  using company_interleaved[OF assms(1-3)] assms(4,5) rely_refl by (metis in_company.simps(1))

text \<open>A request that runs alone is the special case without company.\<close>

lemma company_run: "in_company R Q m s \<Longrightarrow> io_run m s = (s', a) \<Longrightarrow> R s s' \<and> Q s' a"
proof (induction m arbitrary: s rule: io_induct)
  case (Return b) then show ?case by (simp add: rely_refl)
next
  case (Atomic f)
  obtain t m where t: "f s = (t, m)" by (cases "f s")
  from Atomic.prems(1) rely_refl t have "R s t" "in_company R Q m t"
    by (metis in_company_Atomic fst_conv snd_conv)+
  with Atomic.IH[of s t] Atomic.prems(2) t have "R t s' \<and> Q s' a" by (auto simp: io_run_Atomic)
  with rely_trans[OF \<open>R s t\<close>] show ?case by blast
qed

end

text \<open>One schedule is to run a request of the pool from beginning to end.\<close>

lemma run_interleaved:
  "i < length ts \<Longrightarrow> ts ! i = m \<Longrightarrow> io_run m s = (s', a) \<Longrightarrow> interleaved E (ts, s) (ts[i := Return a], s')"
proof (induction m arbitrary: ts s rule: io_induct)
  case (Return b)
  then have "ts[i := Return a] = ts" "s' = s" using list_update_id[of ts i] by auto
  then show ?case by simp
next
  case (Atomic f)
  obtain t m where t: "f s = (t, m)" by (cases "f s")
  from io_step.request[where E = E and ts = ts and i = i and s = s] Atomic.prems(1,2) t have "io_step E (ts, s) (ts[i := m], t)" by simp
  moreover have "interleaved E (ts[i := m], t) ((ts[i := m])[i := Return a], s')"
    using Atomic.IH[of "ts[i := m]" s t] Atomic.prems t by (simp add: io_run_Atomic)
  ultimately show ?case by (simp add: converse_rtranclp_into_rtranclp)
qed

end
