(* ===== verification/Directory.thy ===== *)
theory Directory
  imports World Interleaving
begin

text \<open>
  Users, workspaces, their members and invites, subscriptions: the entities of
  src/src/modules/user, workspace and subscription, their tables
  (src/src/infra/databases/drizzle/schema.ts) and their repositories. A repository
  operation takes the state of the platform and returns the state after it with its
  answer; an operation that opens a database transaction is one atomic step, and
  leaves the state as it was when it throws.
\<close>

section \<open>Entities\<close>

datatype UserRole = OWNER | ADMIN | USER | VIEWER

fun UserRole_value :: "UserRole \<Rightarrow> string" where
  "UserRole_value OWNER = ''OWNER''"
| "UserRole_value ADMIN = ''ADMIN''"
| "UserRole_value USER = ''USER''"
| "UserRole_value VIEWER = ''VIEWER''"

record user =
  us_id :: string
  us_name :: string
  us_email :: string
  us_passwordHash :: string
  us_phone :: "string option"
  us_avatarUrl :: "string option"
  us_createdAt :: int
  us_updatedAt :: "int option"

text \<open>\<open>/^[^\s@]+@[^\s@]+\.[^\s@]+$/\<close>: one \<open>@\<close>, no white space, and a dot inside what follows it.\<close>

definition isValidEmail :: "string \<Rightarrow> bool" where
  "isValidEmail email =
     (let local = takeWhile (\<lambda>c. c \<noteq> CHR ''@'') email; rest = dropWhile (\<lambda>c. c \<noteq> CHR ''@'') email
      in rest \<noteq> [] \<and> local \<noteq> [] \<and> CHR ''@'' \<notin> set (tl rest) \<and> list_all (\<lambda>c. \<not> js_space c) email
         \<and> CHR ''.'' \<in> set (butlast (tl (tl rest))))"

definition User_create :: "user \<Rightarrow> user either" where
  "User_create props =
     (if us_name props = [] \<or> length (js_trim (us_name props)) < 4
        then throw_js ''O nome e obrigatorio e deve ter pelo menos 4 caracteres.''
      else if \<not> isValidEmail (us_email props) then throw_js ''Endereco de e-mail invalido.''
      else Inr props)"

definition updateProfile :: "int \<Rightarrow> string \<Rightarrow> string option option \<Rightarrow> string option option \<Rightarrow> user \<Rightarrow> user either" where
  "updateProfile now name phone avatarUrl u =
     (if name = [] \<or> length (js_trim name) < 4
        then throw_js ''O nome e obrigatorio e deve ter pelo menos 4 caracteres.''
      else Inr (u\<lparr>us_name := name,
             us_phone := (case phone of None \<Rightarrow> us_phone u | Some v \<Rightarrow> v),
             us_avatarUrl := (case avatarUrl of None \<Rightarrow> us_avatarUrl u | Some v \<Rightarrow> v),
             us_updatedAt := Some now\<rparr>))"

definition changeEmail :: "int \<Rightarrow> string \<Rightarrow> user \<Rightarrow> user either" where
  "changeEmail now newEmail u =
     (if \<not> isValidEmail newEmail then throw_js ''Endereco de e-mail invalido.''
      else Inr (u\<lparr>us_email := newEmail, us_updatedAt := Some now\<rparr>))"

definition changePassword :: "int \<Rightarrow> string \<Rightarrow> user \<Rightarrow> user" where
  "changePassword now newPasswordHash u =
     (if newPasswordHash = [] then u
      else u\<lparr>us_passwordHash := newPasswordHash, us_updatedAt := Some now\<rparr>)"

record workspace =
  ws_id :: string
  ws_name :: string
  ws_currency :: string
  ws_timezone :: string
  ws_createdAt :: int

definition DEFAULT_TIMEZONE :: string where
  "DEFAULT_TIMEZONE = ''America/Sao_Paulo''"

definition Workspace_create ::
  "int \<Rightarrow> string \<Rightarrow> string option \<Rightarrow> string option \<Rightarrow> string \<Rightarrow> workspace either" where
  "Workspace_create now name currency timezone i =
     (if name = [] \<or> length (js_trim name) < 2
        then throw_js ''O nome do workspace deve ter no minimo 2 caracteres.''
      else Inr \<lparr>ws_id = i, ws_name = name, ws_currency = (case currency of None \<Rightarrow> ''BRL'' | Some c \<Rightarrow> c),
             ws_timezone = (case timezone of None \<Rightarrow> ''America/Sao_Paulo'' | Some z \<Rightarrow> z), ws_createdAt = now\<rparr>)"

definition updateDetails :: "string \<Rightarrow> string \<Rightarrow> string \<Rightarrow> workspace \<Rightarrow> workspace either" where
  "updateDetails name currency timezone w =
     (if name = [] \<or> length (js_trim name) < 2
        then throw_js ''O nome do workspace deve ter no minimo 2 caracteres.''
      else Inr (w\<lparr>ws_name := name, ws_currency := currency, ws_timezone := timezone\<rparr>))"

record workspace_user =
  wu_id :: string
  wu_workspaceId :: string
  wu_userId :: string
  wu_role :: UserRole
  wu_isDefault :: bool
  wu_joinedAt :: int

definition WorkspaceUser_create :: "workspace_user \<Rightarrow> workspace_user either" where
  "WorkspaceUser_create props =
     (if wu_workspaceId props = [] then throw_js ''ID do workspace e obrigatorio.''
      else if wu_userId props = [] then throw_js ''ID do usuario e obrigatorio.''
      else Inr props)"

definition changeRole :: "UserRole \<Rightarrow> workspace_user \<Rightarrow> workspace_user" where
  "changeRole newRole m = m\<lparr>wu_role := newRole\<rparr>"

definition markAsDefault :: "workspace_user \<Rightarrow> workspace_user" where
  "markAsDefault m = m\<lparr>wu_isDefault := True\<rparr>"

definition removeDefault :: "workspace_user \<Rightarrow> workspace_user" where
  "removeDefault m = m\<lparr>wu_isDefault := False\<rparr>"

record invite =
  wi_id :: string
  wi_code :: string
  wi_workspaceId :: string
  wi_role :: UserRole
  wi_createdBy :: string
  wi_expiresAt :: int
  wi_usedAt :: "int option"
  wi_usedBy :: "string option"

definition WorkspaceInvite_create :: "int \<Rightarrow> invite \<Rightarrow> invite either" where
  "WorkspaceInvite_create now props =
     (if wi_workspaceId props = [] then throw_js ''ID do workspace e obrigatorio.''
      else if wi_createdBy props = [] then throw_js ''ID do criador e obrigatorio.''
      else if wi_expiresAt props \<le> now \<and> wi_id props = []
        then throw_js ''A data de expiracao deve estar no futuro.''
      else Inr props)"

definition isUsed :: "invite \<Rightarrow> bool" where
  "isUsed v = (wi_usedAt v \<noteq> None \<or> \<not> falsy (wi_usedBy v))"

definition invite_isExpired :: "int \<Rightarrow> invite \<Rightarrow> bool" where
  "invite_isExpired referenceDate v = (wi_expiresAt v \<le> referenceDate)"

definition invite_accept :: "string \<Rightarrow> int \<Rightarrow> invite \<Rightarrow> invite either" where
  "invite_accept userId date v =
     (if isUsed v then throw_js ''Este convite ja foi utilizado.''
      else if invite_isExpired date v then throw_js ''Este convite esta expirado.''
      else Inr (v\<lparr>wi_usedBy := Some userId, wi_usedAt := Some date\<rparr>))"

datatype SubscriptionStatus = SUB_ACTIVE | SUB_CANCELED | SUB_PAST_DUE | SUB_TRIALING

record subscription =
  sb_id :: string
  sb_userId :: string
  sb_planId :: string
  sb_status :: SubscriptionStatus
  sb_currentPeriodEnd :: int

section \<open>The state of the platform\<close>

datatype RefreshTokenStatus = ACTIVE | ROTATED | REVOKED

record refresh_token =
  rt_id :: string
  rt_sessionId :: string
  rt_tokenHash :: string
  rt_status :: RefreshTokenStatus
  rt_expiresAt :: int
  rt_createdAt :: int
  rt_rotatedAt :: "int option"

record auth_session =
  as_id :: string
  as_userId :: string
  as_userAgent :: "string option"
  as_createdAt :: int
  as_lastUsedAt :: int
  as_expiresAt :: int
  as_revokedAt :: "int option"

text \<open>
  Every table, the clock (milliseconds) and the number of values that
  \<open>crypto.randomUUID\<close> and the refresh token generator have drawn.
\<close>

record platform =
  pf_users :: "user list"
  pf_workspaces :: "workspace list"
  pf_members :: "workspace_user list"
  pf_invites :: "invite list"
  pf_subscriptions :: "subscription list"
  pf_sessions :: "auth_session list"
  pf_tokens :: "refresh_token list"
  pf_categories :: "category list"
  pf_db :: db
  pf_increments :: "string list"
  pf_now :: int
  pf_drawn :: nat

text \<open>What the services of the financial modules see of it.\<close>

definition platform_world :: "platform \<Rightarrow> world" where
  "platform_world p = \<lparr>w_db = pf_db p, w_categories = pf_categories p,
     w_users = map us_id (pf_users p), w_increments = pf_increments p\<rparr>"

text \<open>
  The code of the cryptography providers is calls of node:crypto, bcryptjs and
  jsonwebtoken, so they are parameters: random draws are numbered, the successor of a
  refresh token and the hashes are functions. \<open>cp_expiresAt\<close> is
  \<open>addDaysInCurrentDate\<close> with the configured days.
\<close>

record claims =
  cl_sub :: string
  cl_name :: string
  cl_workspaceId :: string
  cl_workspaceName :: string
  cl_role :: UserRole

record crypto =
  cp_uuid :: "nat \<Rightarrow> string"
  cp_generate :: "nat \<Rightarrow> string"
  cp_successorOf :: "string \<Rightarrow> string"
  cp_hash :: "string \<Rightarrow> string"
  cp_encrypt :: "claims \<Rightarrow> int \<Rightarrow> string"
  cp_hashPassword :: "string \<Rightarrow> nat \<Rightarrow> string"
  cp_comparePassword :: "string \<Rightarrow> string \<Rightarrow> bool"
  cp_expiresAt :: "int \<Rightarrow> int"

definition draw :: "(nat \<Rightarrow> string) \<Rightarrow> platform \<Rightarrow> platform \<times> string" where
  "draw gen p = (p\<lparr>pf_drawn := Suc (pf_drawn p)\<rparr>, gen (pf_drawn p))"

text \<open>A database transaction: all of it, or the state before it and the error.\<close>

definition atomically :: "(platform \<Rightarrow> (platform \<times> 'a) either) \<Rightarrow> platform \<Rightarrow> platform \<times> 'a either" where
  "atomically f p = (case f p of Inl e \<Rightarrow> (p, Inl e) | Inr (p', a) \<Rightarrow> (p', Inr a))"

lemma atomically_Inl: "atomically f p = (p', Inl e) \<longleftrightarrow> p' = p \<and> f p = Inl e"
  by (auto simp: atomically_def split: sum.splits)

lemma atomically_Inr: "atomically f p = (p', Inr a) \<longleftrightarrow> f p = Inr (p', a)"
  by (auto simp: atomically_def split: sum.splits)

section \<open>UserRepository and its mapper\<close>

definition user_toDomain :: "user \<Rightarrow> user either" where
  "user_toDomain raw = User_create raw"

definition found :: "('r \<Rightarrow> 'b either) \<Rightarrow> 'r option \<Rightarrow> 'b option either" where
  "found toDomain row = (case row of None \<Rightarrow> Inr None | Some r \<Rightarrow> and_then (toDomain r) (Inr \<circ> Some))"

lemma found_Inr_Some: "found f row = Inr (Some b) \<longleftrightarrow> (\<exists>r. row = Some r \<and> f r = Inr b)"
  by (auto simp: found_def and_then_Inr_iff split: option.splits)

lemma found_Inr_None: "found f row = Inr None \<longleftrightarrow> row = None"
  by (auto simp: found_def and_then_Inr_iff split: option.splits)

definition user_findUniqueByEmail :: "string \<Rightarrow> platform \<Rightarrow> user option either" where
  "user_findUniqueByEmail email p = found user_toDomain (find_row (\<lambda>u. us_email u = email) (pf_users p))"

definition user_findUniqueById :: "string \<Rightarrow> platform \<Rightarrow> user option either" where
  "user_findUniqueById i p = found user_toDomain (find_row (\<lambda>u. us_id u = i) (pf_users p))"

definition user_update :: "user \<Rightarrow> platform \<Rightarrow> platform" where
  "user_update u p = p\<lparr>pf_users := update_rows (\<lambda>r. us_id r = us_id u) (\<lambda>_. u) (pf_users p)\<rparr>"

definition insert_user :: "user \<Rightarrow> platform \<Rightarrow> platform either" where
  "insert_user u p =
     (if find_row (\<lambda>r. us_id r = us_id u) (pf_users p) \<noteq> None
         \<or> find_row (\<lambda>r. us_email r = us_email u) (pf_users p) \<noteq> None
      then duplicate_key else Inr (p\<lparr>pf_users := pf_users p @ [u]\<rparr>))"

definition insert_workspace :: "workspace \<Rightarrow> platform \<Rightarrow> platform either" where
  "insert_workspace w p =
     (if find_row (\<lambda>r. ws_id r = ws_id w) (pf_workspaces p) \<noteq> None then duplicate_key
      else Inr (p\<lparr>pf_workspaces := pf_workspaces p @ [w]\<rparr>))"

definition insert_subscription :: "subscription \<Rightarrow> platform \<Rightarrow> platform either" where
  "insert_subscription b p =
     (if find_row (\<lambda>r. sb_id r = sb_id b) (pf_subscriptions p) \<noteq> None then duplicate_key
      else if find_row (\<lambda>u. us_id u = sb_userId b) (pf_users p) = None then foreign_key
      else Inr (p\<lparr>pf_subscriptions := pf_subscriptions p @ [b]\<rparr>))"

text \<open>\<open>workspace_users\<close>: primary key and the unique index on workspace and user.\<close>

definition member_conflict :: "workspace_user \<Rightarrow> platform \<Rightarrow> bool" where
  "member_conflict m p = (find_row (\<lambda>r. wu_id r = wu_id m) (pf_members p) \<noteq> None
     \<or> find_row (\<lambda>r. wu_workspaceId r = wu_workspaceId m \<and> wu_userId r = wu_userId m) (pf_members p) \<noteq> None)"

definition insert_member :: "workspace_user \<Rightarrow> platform \<Rightarrow> platform either" where
  "insert_member m p =
     (if member_conflict m p then duplicate_key
      else if find_row (\<lambda>u. us_id u = wu_userId m) (pf_users p) = None
           \<or> find_row (\<lambda>w. ws_id w = wu_workspaceId m) (pf_workspaces p) = None then foreign_key
      else Inr (p\<lparr>pf_members := pf_members p @ [m]\<rparr>))"

text \<open>The account \<open>Carteira\<close> every workspace starts with, and its opening movement.\<close>

definition default_account_row :: "string \<Rightarrow> string \<Rightarrow> string \<Rightarrow> account_row" where
  "default_account_row i ws timezone = \<lparr>row_id = i, row_workspaceId = ws, row_name = ''Carteira'',
     row_type = AccountType_value CASH, row_balance = 0, row_timezone = timezone,
     row_closingDaysBeforeDue = 7, row_dueDay = None, row_creditLimit = None\<rparr>"

definition insert_default_account :: "string \<Rightarrow> string \<Rightarrow> string \<Rightarrow> string \<Rightarrow> platform \<Rightarrow> platform either" where
  "insert_default_account i ws timezone actor p =
     (if account_row_of (pf_db p) i \<noteq> None then duplicate_key
      else and_then (insertOpeningMovement ws i 0 actor
               ((pf_db p)\<lparr>accounts := accounts (pf_db p) @ [default_account_row i ws timezone]\<rparr>))
             (\<lambda>d. Inr (p\<lparr>pf_db := d\<rparr>)))"

section \<open>Default categories\<close>

definition DEFAULT_CATEGORIES :: "(string \<times> TransactionType \<times> string list) list" where
  "DEFAULT_CATEGORIES =
    [(''Alimenta'' @ [CHR 0xE7, CHR 0xE3] @ ''o'', EXPENSE, [''Mercado'', ''Restaurante'', ''Delivery'']),
     (''Transporte'', EXPENSE,
        [''Combust'' @ [CHR 0xED] @ ''vel'', ''Estacionamento'', ''Transporte P'' @ [CHR 0xFA] @ ''blico'']),
     (''Moradia'', EXPENSE,
        [''Aluguel'', ''Condom'' @ [CHR 0xED] @ ''nio'', [CHR 0xC1] @ ''gua'', ''Luz'', ''Internet'']),
     (''Sa'' @ [CHR 0xFA] @ ''de'', EXPENSE,
        [''Plano de Sa'' @ [CHR 0xFA] @ ''de'', ''Farm'' @ [CHR 0xE1] @ ''cia'', ''Consulta/Exame'']),
     (''Educa'' @ [CHR 0xE7, CHR 0xE3] @ ''o'', EXPENSE, [''Curso/Mensalidade'', ''Material'']),
     (''Lazer'', EXPENSE,
        [''Assinatura (streaming, academia)'', ''Viagem'', ''Sa'' @ [CHR 0xED] @ ''da (bar, cinema, show)'']),
     (''Servi'' @ [CHR 0xE7] @ ''os'', EXPENSE, [''Assinatura (software)'', ''Seguro'']),
     (''Compras'', EXPENSE, [''Vestu'' @ [CHR 0xE1] @ ''rio'']),
     (''Impostos'', EXPENSE, []),
     (''Outros Gastos'', EXPENSE, []),
     (''Sal'' @ [CHR 0xE1] @ ''rio'', INCOME, []),
     (''Investimentos'', INCOME, []),
     (''Freela/Projeto'', INCOME, []),
     (''Presente'', INCOME, []),
     (''Outros'', INCOME, [])]"

definition createCategory :: "string \<Rightarrow> string \<Rightarrow> string \<Rightarrow> TransactionType \<Rightarrow> string option \<Rightarrow> category either" where
  "createCategory i ws name type parent = Category_create \<lparr>cat_id = i, cat_workspaceId = Some ws,
     cat_name = name, cat_type = type, cat_parentId = parent, cat_isSystemCategory = False\<rparr>"

text \<open>The children of one parent: their ids are the draws from \<open>k\<close> on.\<close>

fun createChildren :: "(nat \<Rightarrow> string) \<Rightarrow> nat \<Rightarrow> string \<Rightarrow> TransactionType \<Rightarrow> string \<Rightarrow> string list
    \<Rightarrow> category list either" where
  "createChildren uuid k ws type parent [] = Inr []"
| "createChildren uuid k ws type parent (name # names) =
     and_then (createCategory (uuid k) ws name type (Some parent)) (\<lambda>c.
       and_then (createChildren uuid (Suc k) ws type parent names) (\<lambda>cs. Inr (c # cs)))"

text \<open>The draws of the parents are numbered from \<open>p\<close>, those of the children from \<open>k\<close>.\<close>

fun createNodes :: "(nat \<Rightarrow> string) \<Rightarrow> nat \<Rightarrow> nat \<Rightarrow> string \<Rightarrow> (string \<times> TransactionType \<times> string list) list
    \<Rightarrow> category list either" where
  "createNodes uuid p k ws [] = Inr []"
| "createNodes uuid p k ws ((name, type, children) # nodes) =
     and_then (createCategory (uuid p) ws name type None) (\<lambda>c.
       and_then (createChildren uuid k ws type (cat_id c) children) (\<lambda>cs.
         and_then (createNodes uuid (Suc p) (k + length children) ws nodes) (\<lambda>rest. Inr (c # cs @ rest))))"

definition buildDefaultCategories :: "(nat \<Rightarrow> string) \<Rightarrow> nat \<Rightarrow> string \<Rightarrow> category list either" where
  "buildDefaultCategories uuid n ws =
     createNodes uuid n (n + length DEFAULT_CATEGORIES) ws DEFAULT_CATEGORIES"

definition default_category_count :: nat where
  "default_category_count = length DEFAULT_CATEGORIES + sum_list (map (\<lambda>(_, _, cs). length cs) DEFAULT_CATEGORIES)"

text \<open>
  The unique index on workspace, name, type and parent treats null parents as
  different from each other.
\<close>

definition category_slots :: "category list \<Rightarrow> (string \<times> string \<times> TransactionType \<times> string) list" where
  "category_slots cs = concat (map (\<lambda>c. case (cat_workspaceId c, cat_parentId c) of
     (Some ws, Some parent) \<Rightarrow> [(ws, cat_name c, cat_type c, parent)] | _ \<Rightarrow> []) cs)"

definition insert_categories :: "category list \<Rightarrow> platform \<Rightarrow> platform either" where
  "insert_categories cs p =
     (if distinct_by cat_id (pf_categories p @ cs) \<and> distinct (category_slots (pf_categories p @ cs))
      then Inr (p\<lparr>pf_categories := pf_categories p @ cs\<rparr>) else duplicate_key)"

section \<open>Creating users and workspaces\<close>

definition TRIAL_PERIOD_MS :: int where
  "TRIAL_PERIOD_MS = 7 * 24 * 60 * 60 * 1000"

text \<open>
  \<open>UserRepository.create\<close>: the user, his personal workspace, a trial subscription,
  his membership as owner, the account and the categories, in one transaction.
\<close>

definition user_create :: "crypto \<Rightarrow> user \<Rightarrow> platform \<Rightarrow> platform \<times> unit either" where
  "user_create cp u = atomically (\<lambda>p.
     let n = pf_drawn p; workspaceId = cp_uuid cp n; accountId = cp_uuid cp (n + 3) in
     and_then (insert_user u (p\<lparr>pf_drawn := n + 4 + default_category_count\<rparr>)) (\<lambda>p.
     and_then (insert_workspace \<lparr>ws_id = workspaceId, ws_name = ''Espa'' @ [CHR 0xE7] @ ''o Pessoal'',
         ws_currency = ''BRL'', ws_timezone = DEFAULT_TIMEZONE, ws_createdAt = pf_now p\<rparr> p) (\<lambda>p.
     and_then (insert_subscription \<lparr>sb_id = cp_uuid cp (n + 1), sb_userId = us_id u, sb_planId = ''plan_trial'',
         sb_status = SUB_ACTIVE, sb_currentPeriodEnd = pf_now p + TRIAL_PERIOD_MS\<rparr> p) (\<lambda>p.
     and_then (insert_member \<lparr>wu_id = cp_uuid cp (n + 2), wu_workspaceId = workspaceId, wu_userId = us_id u,
         wu_role = OWNER, wu_isDefault = True, wu_joinedAt = pf_now p\<rparr> p) (\<lambda>p.
     and_then (insert_default_account accountId workspaceId DEFAULT_TIMEZONE (us_id u) p) (\<lambda>p.
     and_then (buildDefaultCategories (cp_uuid cp) (n + 4) workspaceId) (\<lambda>cs.
     and_then (insert_categories cs p) (\<lambda>p. Inr (p, ())))))))))"

text \<open>\<open>UPDATE workspace_users SET is_default = false\<close> for one user.\<close>

definition clear_defaults :: "string \<Rightarrow> platform \<Rightarrow> platform" where
  "clear_defaults userId p = p\<lparr>pf_members :=
     update_rows (\<lambda>m. wu_userId m = userId \<and> wu_isDefault m) removeDefault (pf_members p)\<rparr>"

definition createWithOwnerAndAccount ::
  "crypto \<Rightarrow> workspace \<Rightarrow> workspace_user \<Rightarrow> category list \<Rightarrow> platform \<Rightarrow> platform \<times> unit either" where
  "createWithOwnerAndAccount cp w owner cs = atomically (\<lambda>p.
     let accountId = cp_uuid cp (pf_drawn p);
         p = (if wu_isDefault owner then clear_defaults (wu_userId owner) p else p)\<lparr>pf_drawn := Suc (pf_drawn p)\<rparr> in
     and_then (insert_workspace w p) (\<lambda>p.
     and_then (insert_member (owner\<lparr>wu_workspaceId := ws_id w\<rparr>) p) (\<lambda>p.
     and_then (insert_default_account accountId (ws_id w) (ws_timezone w) (wu_userId owner) p) (\<lambda>p.
     and_then (insert_categories cs p) (\<lambda>p. Inr (p, ()))))))"

section \<open>WorkspaceRepository\<close>

text \<open>\<open>WorkspaceMapper.toDomain\<close> passes on the name and the id of the row only.\<close>

definition workspace_toDomain :: "int \<Rightarrow> workspace \<Rightarrow> workspace either" where
  "workspace_toDomain now raw = Workspace_create now (ws_name raw) None None (ws_id raw)"

definition workspace_findById :: "string \<Rightarrow> platform \<Rightarrow> workspace option either" where
  "workspace_findById i p = found (workspace_toDomain (pf_now p)) (find_row (\<lambda>w. ws_id w = i) (pf_workspaces p))"

text \<open>UPDATE ... RETURNING answers no row when the workspace is gone: the mapper then throws.\<close>

definition workspace_update :: "workspace \<Rightarrow> platform \<Rightarrow> platform \<times> workspace either" where
  "workspace_update w p =
     (let p' = p\<lparr>pf_workspaces := update_rows (\<lambda>r. ws_id r = ws_id w)
            (\<lambda>r. r\<lparr>ws_name := ws_name w, ws_currency := ws_currency w, ws_timezone := ws_timezone w\<rparr>) (pf_workspaces p)\<rparr>
      in (p', case find_row (\<lambda>r. ws_id r = ws_id w) (pf_workspaces p') of
                None \<Rightarrow> Inl (Thrown (JsTypeError ''Cannot read properties of undefined''))
              | Some r \<Rightarrow> workspace_toDomain (pf_now p') r))"

definition findTimezoneById :: "string \<Rightarrow> platform \<Rightarrow> string option" where
  "findTimezoneById i p = map_option ws_timezone (find_row (\<lambda>w. ws_id w = i) (pf_workspaces p))"

definition countOwnedByUserId :: "string \<Rightarrow> platform \<Rightarrow> int" where
  "countOwnedByUserId userId p = int (length (filter (\<lambda>m. wu_userId m = userId \<and> wu_role m = OWNER) (pf_members p)))"

text \<open>
  DELETE of a workspace with the ON DELETE clauses of the schema: accounts,
  transactions, rules, categories, members and invites go with it, references to its
  accounts as destination become null, the movements stay.
\<close>

definition clear_destinations :: "string set \<Rightarrow> db \<Rightarrow> db" where
  "clear_destinations A d = d\<lparr>
     transactions := map (\<lambda>t. case tx_destinationAccountId t of None \<Rightarrow> t
        | Some a \<Rightarrow> if a \<in> A then t\<lparr>tx_destinationAccountId := None\<rparr> else t) (transactions d),
     recurrings := map (\<lambda>r. case rc_destinationAccountId r of None \<Rightarrow> r
        | Some a \<Rightarrow> if a \<in> A then r\<lparr>rc_destinationAccountId := None\<rparr> else r) (recurrings d)\<rparr>"

definition drop_workspace :: "string \<Rightarrow> db \<Rightarrow> db" where
  "drop_workspace ws d =
     (let gone = set (map row_id (filter (\<lambda>r. row_workspaceId r = ws) (accounts d))) in
      clear_destinations gone (d\<lparr>accounts := delete_rows (\<lambda>r. row_workspaceId r = ws) (accounts d),
        transactions := delete_rows (\<lambda>t. tx_workspaceId t = ws \<or> tx_accountId t \<in> gone) (transactions d),
        recurrings := delete_rows (\<lambda>r. rc_workspaceId r = ws \<or> rc_accountId r \<in> gone) (recurrings d)\<rparr>))"

definition workspace_delete :: "string \<Rightarrow> platform \<Rightarrow> platform \<times> unit either" where
  "workspace_delete ws = atomically (\<lambda>p.
     and_then (enforce (drop_workspace ws (pf_db p))) (\<lambda>d.
       Inr (p\<lparr>pf_workspaces := delete_rows (\<lambda>w. ws_id w = ws) (pf_workspaces p),
              pf_members := delete_rows (\<lambda>m. wu_workspaceId m = ws) (pf_members p),
              pf_invites := delete_rows (\<lambda>v. wi_workspaceId v = ws) (pf_invites p),
              pf_categories := delete_rows (\<lambda>c. cat_workspaceId c = Some ws) (pf_categories p),
              pf_db := d\<rparr>, ())))"

section \<open>WorkspaceUserRepository\<close>

definition member_toDomain :: "workspace_user \<Rightarrow> workspace_user either" where
  "member_toDomain raw = WorkspaceUser_create raw"

definition member_row :: "string \<Rightarrow> string \<Rightarrow> platform \<Rightarrow> workspace_user option" where
  "member_row ws userId p = find_row (\<lambda>m. wu_workspaceId m = ws \<and> wu_userId m = userId) (pf_members p)"

definition findUserByWorkspaceAndUserId :: "string \<Rightarrow> string \<Rightarrow> platform \<Rightarrow> workspace_user option either" where
  "findUserByWorkspaceAndUserId ws userId p = found member_toDomain (member_row ws userId p)"

definition findOwnerByWorkspaceId :: "string \<Rightarrow> platform \<Rightarrow> workspace_user option either" where
  "findOwnerByWorkspaceId ws p =
     found member_toDomain (find_row (\<lambda>m. wu_workspaceId m = ws \<and> wu_role m = OWNER) (pf_members p))"

definition findMembershipById :: "string \<Rightarrow> platform \<Rightarrow> workspace_user option either" where
  "findMembershipById i p = found member_toDomain (find_row (\<lambda>m. wu_id m = i) (pf_members p))"

definition member_countByWorkspaceId :: "string \<Rightarrow> platform \<Rightarrow> int" where
  "member_countByWorkspaceId ws p = int (length (filter (\<lambda>m. wu_workspaceId m = ws) (pf_members p)))"

text \<open>The default membership of a user with the name of its workspace (an inner join).\<close>

definition findDefaultWorkspaceByUserId :: "string \<Rightarrow> platform \<Rightarrow> (workspace_user \<times> string) option either" where
  "findDefaultWorkspaceByUserId userId p =
     found (\<lambda>(raw, name). and_then (member_toDomain raw) (\<lambda>m. Inr (m, name)))
       (find_row (\<lambda>_. True) (concat (map (\<lambda>m.
          if wu_userId m = userId \<and> wu_isDefault m
          then map (\<lambda>w. (m, ws_name w)) (filter (\<lambda>w. ws_id w = wu_workspaceId m) (pf_workspaces p)) else [])
        (pf_members p))))"

definition setDefaultWorkspace :: "string \<Rightarrow> string \<Rightarrow> platform \<Rightarrow> platform" where
  "setDefaultWorkspace userId ws p =
     (let p' = clear_defaults userId p in
      p'\<lparr>pf_members := update_rows (\<lambda>m. wu_userId m = userId \<and> wu_workspaceId m = ws) markAsDefault (pf_members p')\<rparr>)"

definition addUserToWorkspace :: "crypto \<Rightarrow> workspace_user \<Rightarrow> platform \<Rightarrow> platform \<times> workspace_user either" where
  "addUserToWorkspace cp m p =
     (let m' = m\<lparr>wu_id := ensureEntityId (cp_uuid cp (pf_drawn p)) (wu_id m)\<rparr>
      in case insert_member m' (p\<lparr>pf_drawn := Suc (pf_drawn p)\<rparr>) of
           Inl e \<Rightarrow> (p, Inl e) | Inr p' \<Rightarrow> (p', member_toDomain m'))"

definition removeUserFromWorkspace :: "string \<Rightarrow> platform \<Rightarrow> platform" where
  "removeUserFromWorkspace i p = p\<lparr>pf_members := delete_rows (\<lambda>m. wu_id m = i) (pf_members p)\<rparr>"

text \<open>UPDATE ... RETURNING answers no row when the membership is gone: the mapper then throws.\<close>

definition member_updateUser :: "workspace_user \<Rightarrow> platform \<Rightarrow> platform \<times> workspace_user either" where
  "member_updateUser m p =
     (let p' = p\<lparr>pf_members := update_rows (\<lambda>r. wu_id r = wu_id m)
            (\<lambda>r. r\<lparr>wu_role := wu_role m, wu_isDefault := wu_isDefault m\<rparr>) (pf_members p)\<rparr>
      in (p', case find_row (\<lambda>r. wu_id r = wu_id m) (pf_members p') of
                None \<Rightarrow> Inl (Thrown (JsTypeError ''Cannot read properties of undefined''))
              | Some r \<Rightarrow> member_toDomain r))"

section \<open>WorkspaceInviteRepository\<close>

definition insert_invite :: "invite \<Rightarrow> platform \<Rightarrow> platform either" where
  "insert_invite v p =
     (if find_row (\<lambda>r. wi_id r = wi_id v) (pf_invites p) \<noteq> None
        \<or> find_row (\<lambda>r. wi_code r = wi_code v) (pf_invites p) \<noteq> None then duplicate_key
      else if find_row (\<lambda>w. ws_id w = wi_workspaceId v) (pf_workspaces p) = None
        \<or> find_row (\<lambda>u. us_id u = wi_createdBy v) (pf_users p) = None then foreign_key
      else Inr (p\<lparr>pf_invites := pf_invites p @ [v]\<rparr>))"

definition invite_create :: "crypto \<Rightarrow> invite \<Rightarrow> platform \<Rightarrow> platform \<times> invite either" where
  "invite_create cp v p =
     (let v' = v\<lparr>wi_id := (if wi_id v = [] then cp_uuid cp (pf_drawn p) else wi_id v)\<rparr>
      in case insert_invite v' (p\<lparr>pf_drawn := Suc (pf_drawn p)\<rparr>) of
           Inl e \<Rightarrow> (p, Inl e) | Inr p' \<Rightarrow> (p', WorkspaceInvite_create (pf_now p) v'))"

definition findByCode :: "string \<Rightarrow> platform \<Rightarrow> invite option either" where
  "findByCode code p = found (WorkspaceInvite_create (pf_now p)) (find_row (\<lambda>v. wi_code v = code) (pf_invites p))"

datatype AcceptInviteOutcome = accepted | already_used | already_member

text \<open>
  \<open>claimAndInsert\<close>: the invite is claimed only while \<open>used_at\<close> is null, and a
  membership that exists already rolls the claim back.
\<close>

definition claimAndInsert ::
  "crypto \<Rightarrow> invite \<Rightarrow> workspace_user \<Rightarrow> platform \<Rightarrow> platform \<times> (AcceptInviteOutcome \<times> workspace_user) either" where
  "claimAndInsert cp v m p =
     (if \<not> list_ex (\<lambda>r. wi_id r = wi_id v \<and> wi_usedAt r = None) (pf_invites p) then (p, Inr (already_used, m))
      else
       let m' = m\<lparr>wu_id := ensureEntityId (cp_uuid cp (pf_drawn p)) (wu_id m)\<rparr>;
           p' = p\<lparr>pf_drawn := Suc (pf_drawn p), pf_invites := update_rows (\<lambda>r. wi_id r = wi_id v \<and> wi_usedAt r = None)
                  (\<lambda>r. r\<lparr>wi_usedAt := Some (pf_now p), wi_usedBy := Some (wu_userId m)\<rparr>) (pf_invites p)\<rparr>
       in if member_conflict m' p' then (p, Inr (already_member, m'))
          else case insert_member m' p' of Inl e \<Rightarrow> (p, Inl e) | Inr p'' \<Rightarrow> (p'', Inr (accepted, m')))"

end
