(* ===== verification/Sessions.thy ===== *)
theory Sessions
  imports Directory
begin

text \<open>
  Sessions and refresh tokens of src/src/modules/user: the entities, their
  repositories, and the services that issue, rotate, recover and revoke tokens.
  These services make several calls of the database without a transaction around
  them, so each is a tree of atomic calls that other requests may interleave with;
  reading the clock is a call of its own.
\<close>

section \<open>Entities\<close>

text \<open>src/src/constants/auth.ts\<close>

definition REFRESH_TOKEN_REUSE_GRACE_SECONDS :: int where
  "REFRESH_TOKEN_REUSE_GRACE_SECONDS = 60"

definition MAX_REFRESH_TOKEN_SUCCESSOR_HOPS :: nat where
  "MAX_REFRESH_TOKEN_SUCCESSOR_HOPS = 3"

text \<open>\<open>RefreshToken.create\<close> of a new token: it has no id yet.\<close>

definition RefreshToken_create :: "int \<Rightarrow> string \<Rightarrow> string \<Rightarrow> int \<Rightarrow> refresh_token either" where
  "RefreshToken_create now tokenHash sessionId expiresAt =
     (if tokenHash = [] then left_user MissingRefreshTokenHashError
      else if sessionId = [] then left_user MissingAuthSessionError
      else if expiresAt \<le> now then left_user InvalidExpirationDateError
      else Inr \<lparr>rt_id = [], rt_sessionId = sessionId, rt_tokenHash = tokenHash, rt_status = ACTIVE,
             rt_expiresAt = expiresAt, rt_createdAt = now, rt_rotatedAt = None\<rparr>)"

definition token_isActive :: "refresh_token \<Rightarrow> bool" where
  "token_isActive t = (rt_status t = ACTIVE)"

definition token_isRotated :: "refresh_token \<Rightarrow> bool" where
  "token_isRotated t = (rt_status t = ROTATED)"

definition token_isRevoked :: "refresh_token \<Rightarrow> bool" where
  "token_isRevoked t = (rt_status t = REVOKED)"

definition token_isExpired :: "int \<Rightarrow> refresh_token \<Rightarrow> bool" where
  "token_isExpired referenceDate t = (rt_expiresAt t \<le> referenceDate)"

definition token_isReused :: "refresh_token \<Rightarrow> bool" where
  "token_isReused t = (token_isRotated t \<or> token_isRevoked t)"

definition token_isValid :: "int \<Rightarrow> refresh_token \<Rightarrow> bool" where
  "token_isValid referenceDate t = (token_isActive t \<and> \<not> token_isExpired referenceDate t)"

definition isWithinReuseGrace :: "int \<Rightarrow> refresh_token \<Rightarrow> bool" where
  "isWithinReuseGrace now t = (case rt_rotatedAt t of
       None \<Rightarrow> False
     | Some rotatedAt \<Rightarrow> token_isRotated t \<and> now - rotatedAt < REFRESH_TOKEN_REUSE_GRACE_SECONDS * 1000)"

definition markAsRotated :: "int \<Rightarrow> refresh_token \<Rightarrow> refresh_token" where
  "markAsRotated rotatedAt t = t\<lparr>rt_status := ROTATED, rt_rotatedAt := Some rotatedAt\<rparr>"

definition token_revoke :: "refresh_token \<Rightarrow> refresh_token" where
  "token_revoke t = t\<lparr>rt_status := REVOKED\<rparr>"

definition AuthSession_create :: "int \<Rightarrow> string \<Rightarrow> string option \<Rightarrow> int \<Rightarrow> auth_session either" where
  "AuthSession_create now userId userAgent expiresAt =
     (if userId = [] then left_user MissingUserIdError
      else if expiresAt \<le> now then left_user InvalidExpirationDateError
      else Inr \<lparr>as_id = [], as_userId = userId, as_userAgent = userAgent, as_createdAt = now,
             as_lastUsedAt = now, as_expiresAt = expiresAt, as_revokedAt = None\<rparr>)"

definition session_isRevoked :: "auth_session \<Rightarrow> bool" where
  "session_isRevoked s = (as_revokedAt s \<noteq> None)"

definition session_isExpired :: "int \<Rightarrow> auth_session \<Rightarrow> bool" where
  "session_isExpired referenceDate s = (as_expiresAt s \<le> referenceDate)"

definition session_isValid :: "int \<Rightarrow> auth_session \<Rightarrow> bool" where
  "session_isValid referenceDate s = (\<not> session_isRevoked s \<and> \<not> session_isExpired referenceDate s)"

definition session_renew :: "int \<Rightarrow> int \<Rightarrow> auth_session \<Rightarrow> auth_session" where
  "session_renew expiresAt referenceDate s = s\<lparr>as_expiresAt := expiresAt, as_lastUsedAt := referenceDate\<rparr>"

section \<open>RefreshTokensRepository\<close>

definition token_of :: "string \<Rightarrow> platform \<Rightarrow> refresh_token option" where
  "token_of hash p = find_row (\<lambda>t. rt_tokenHash t = hash) (pf_tokens p)"

definition findUniqueByTokenHash :: "string \<Rightarrow> platform \<Rightarrow> refresh_token option" where
  "findUniqueByTokenHash tokenHash p = token_of tokenHash p"

definition session_of :: "string \<Rightarrow> platform \<Rightarrow> auth_session option" where
  "session_of i p = find_row (\<lambda>s. as_id s = i) (pf_sessions p)"

text \<open>INSERT: the id defaults to a new UUID; id and hash are unique, the session must exist.\<close>

definition insert_token :: "crypto \<Rightarrow> refresh_token \<Rightarrow> platform \<Rightarrow> platform either" where
  "insert_token cp t p =
     (let t' = t\<lparr>rt_id := (if rt_id t = [] then cp_uuid cp (pf_drawn p) else rt_id t)\<rparr>
      in if find_row (\<lambda>r. rt_id r = rt_id t') (pf_tokens p) \<noteq> None \<or> token_of (rt_tokenHash t') p \<noteq> None
         then duplicate_key
         else if session_of (rt_sessionId t') p = None then foreign_key
         else Inr (p\<lparr>pf_tokens := pf_tokens p @ [t'], pf_drawn := Suc (pf_drawn p)\<rparr>))"

definition token_create :: "crypto \<Rightarrow> refresh_token \<Rightarrow> platform \<Rightarrow> platform \<times> unit either" where
  "token_create cp t = atomically (\<lambda>p. and_then (insert_token cp t p) (\<lambda>p'. Inr (p', ())))"

text \<open>
  \<open>rotate\<close>: a compare-and-set on the status, then the insertion of the successor,
  in one transaction. It answers whether this call has won.
\<close>

definition rotate :: "crypto \<Rightarrow> refresh_token \<Rightarrow> refresh_token \<Rightarrow> platform \<Rightarrow> platform \<times> bool either" where
  "rotate cp cur nxt = atomically (\<lambda>p.
     if \<not> list_ex (\<lambda>t. rt_id t = rt_id cur \<and> rt_status t = ACTIVE) (pf_tokens p) then Inr (p, False)
     else and_then (insert_token cp nxt (p\<lparr>pf_tokens :=
              update_rows (\<lambda>t. rt_id t = rt_id cur \<and> rt_status t = ACTIVE)
                (\<lambda>t. t\<lparr>rt_status := ROTATED, rt_rotatedAt := rt_rotatedAt cur\<rparr>) (pf_tokens p)\<rparr>))
            (\<lambda>p'. Inr (p', True)))"

definition revokeBySessionId :: "string \<Rightarrow> platform \<Rightarrow> platform" where
  "revokeBySessionId sessionId p = p\<lparr>pf_tokens :=
     update_rows (\<lambda>t. rt_sessionId t = sessionId) token_revoke (pf_tokens p)\<rparr>"

section \<open>AuthSessionsRepository\<close>

definition session_findUniqueById :: "string \<Rightarrow> platform \<Rightarrow> auth_session option" where
  "session_findUniqueById i p = session_of i p"

definition session_create :: "crypto \<Rightarrow> auth_session \<Rightarrow> platform \<Rightarrow> platform \<times> auth_session either" where
  "session_create cp s = atomically (\<lambda>p.
     let s' = s\<lparr>as_id := (if as_id s = [] then cp_uuid cp (pf_drawn p) else as_id s)\<rparr>
     in if session_of (as_id s') p \<noteq> None then duplicate_key
        else if find_row (\<lambda>u. us_id u = as_userId s') (pf_users p) = None then foreign_key
        else Inr (p\<lparr>pf_sessions := pf_sessions p @ [s'], pf_drawn := Suc (pf_drawn p)\<rparr>, s'))"

definition session_update :: "auth_session \<Rightarrow> platform \<Rightarrow> platform" where
  "session_update s p = p\<lparr>pf_sessions :=
     update_rows (\<lambda>r. as_id r = as_id s \<and> as_revokedAt r = None)
       (\<lambda>r. r\<lparr>as_expiresAt := as_expiresAt s, as_lastUsedAt := as_lastUsedAt s\<rparr>) (pf_sessions p)\<rparr>"

definition session_revoke :: "string \<Rightarrow> platform \<Rightarrow> platform" where
  "session_revoke i p = p\<lparr>pf_sessions :=
     update_rows (\<lambda>r. as_id r = i \<and> as_revokedAt r = None)
       (\<lambda>r. r\<lparr>as_revokedAt := Some (pf_now p)\<rparr>) (pf_sessions p)\<rparr>"

text \<open>A call that answers nothing.\<close>

definition run_call :: "('s \<Rightarrow> 's) \<Rightarrow> ('s, unit) io" where
  "run_call f = call (\<lambda>s. (f s, ()))"

lemma io_run_run_call [simp]: "io_run (run_call f) s = (f s, ())"
  by (simp add: run_call_def)

lemma calls_within_run_call: "calls_within (run_call f) 1"
  unfolding run_call_def by (rule calls_within_call)

section \<open>AuthTokenPairFactory\<close>

definition signAccessToken :: "crypto \<Rightarrow> claims \<Rightarrow> (platform, string) io" where
  "signAccessToken cp c = query (\<lambda>p. cp_encrypt cp c (pf_now p))"

record token_pair =
  tp_accessToken :: string
  tp_rawRefreshToken :: string
  tp_refreshToken :: refresh_token

definition build_pair :: "crypto \<Rightarrow> claims \<Rightarrow> string \<Rightarrow> int \<Rightarrow> string \<Rightarrow> (platform, token_pair either) io" where
  "build_pair cp c sessionId expiresAt raw =
     io_try (query (\<lambda>p. RefreshToken_create (pf_now p) (cp_hash cp raw) sessionId expiresAt)) (\<lambda>t.
     io_bind (signAccessToken cp c) (\<lambda>access.
     Return (Inr \<lparr>tp_accessToken = access, tp_rawRefreshToken = raw, tp_refreshToken = t\<rparr>)))"

record issued =
  iss_accessToken :: string
  iss_refreshToken :: string

section \<open>IssueAuthSessionService\<close>

definition createSession :: "crypto \<Rightarrow> string \<Rightarrow> string option \<Rightarrow> (platform, auth_session either) io" where
  "createSession cp userId userAgent =
     io_bind (query (cp_expiresAt cp \<circ> pf_now)) (\<lambda>expiresAt.
     io_try (query (\<lambda>p. AuthSession_create (pf_now p) userId userAgent expiresAt)) (\<lambda>s.
     call (session_create cp s)))"

definition issueAuthSession :: "crypto \<Rightarrow> claims \<Rightarrow> string option \<Rightarrow> (platform, issued either) io" where
  "issueAuthSession cp c userAgent =
     io_try (createSession cp (cl_sub c) userAgent) (\<lambda>session.
     io_bind (call (draw (cp_generate cp))) (\<lambda>raw.
     io_try (build_pair cp c (as_id session) (as_expiresAt session) raw) (\<lambda>pair.
     io_try (call (token_create cp (tp_refreshToken pair))) (\<lambda>_.
     Return (Inr \<lparr>iss_accessToken = tp_accessToken pair, iss_refreshToken = tp_rawRefreshToken pair\<rparr>)))))"

section \<open>RefreshTokenService\<close>

definition session_expired :: "'a either" where
  "session_expired = left_shared SessionExpiredError"

definition loadStoredSession :: "crypto \<Rightarrow> string \<Rightarrow> (platform, (refresh_token \<times> auth_session) either) io" where
  "loadStoredSession cp raw =
     io_bind (query (findUniqueByTokenHash (cp_hash cp raw))) (\<lambda>stored.
       case stored of None \<Rightarrow> Return session_expired
       | Some storedToken \<Rightarrow>
           io_bind (query (session_findUniqueById (rt_sessionId storedToken))) (\<lambda>session.
             case session of None \<Rightarrow> Return session_expired
             | Some s \<Rightarrow> Return (Inr (storedToken, s))))"

text \<open>\<open>resolveContext\<close> with \<open>claimsOf\<close>, which every caller applies to its answer.\<close>

definition resolveContext :: "refresh_token \<Rightarrow> auth_session \<Rightarrow> (platform, (user \<times> workspace_user \<times> string) either) io" where
  "resolveContext storedToken session =
     io_bind (query pf_now) (\<lambda>now.
       if \<not> token_isValid now storedToken \<or> \<not> session_isValid now session then Return session_expired
       else io_try (query (user_findUniqueById (as_userId session))) (\<lambda>u. case u of
              None \<Rightarrow> Return (left_user UserNotFoundError)
            | Some user \<Rightarrow>
                io_try (query (findDefaultWorkspaceByUserId (us_id user))) (\<lambda>m. case m of
                  None \<Rightarrow> Return session_expired
                | Some (member, name) \<Rightarrow> Return (Inr (user, member, name)))))"

fun claimsOf :: "user \<times> workspace_user \<times> string \<Rightarrow> claims" where
  "claimsOf (user, member, name) = \<lparr>cl_sub = us_id user, cl_name = us_name user,
     cl_workspaceId = wu_workspaceId member, cl_workspaceName = name, cl_role = wu_role member\<rparr>"

text \<open>\<open>Promise.all\<close> starts both updates; they are made in the order in which they start.\<close>

definition revokeFamily :: "auth_session \<Rightarrow> (platform, issued either) io" where
  "revokeFamily session =
     io_bind (run_call (revokeBySessionId (as_id session))) (\<lambda>_.
     io_bind (run_call (session_revoke (as_id session))) (\<lambda>_.
     Return session_expired))"

text \<open>\<open>findHead\<close> from hop number \<open>MAX_REFRESH_TOKEN_SUCCESSOR_HOPS - hops\<close> on.\<close>

primrec findHead :: "crypto \<Rightarrow> refresh_token \<Rightarrow> nat \<Rightarrow> string \<Rightarrow> (platform, (string \<times> refresh_token) option) io" where
  "findHead cp rotatedToken 0 raw = Return None"
| "findHead cp rotatedToken (Suc hops) raw =
     (let next_raw = cp_successorOf cp raw in
      io_bind (query (findUniqueByTokenHash (cp_hash cp next_raw))) (\<lambda>candidate. case candidate of
        None \<Rightarrow> Return None
      | Some c \<Rightarrow>
          if rt_sessionId c \<noteq> rt_sessionId rotatedToken then Return None
          else if token_isActive c then Return (Some (next_raw, c))
          else if \<not> token_isRotated c then Return None
          else findHead cp rotatedToken hops next_raw))"

definition recoverReusedToken ::
  "crypto \<Rightarrow> refresh_token \<Rightarrow> auth_session \<Rightarrow> string \<Rightarrow> (platform, issued either) io" where
  "recoverReusedToken cp storedToken session raw =
     io_bind (query pf_now) (\<lambda>now.
       if token_isRevoked storedToken then revokeFamily session
       else if \<not> isWithinReuseGrace now storedToken then revokeFamily session
       else if \<not> session_isValid now session then revokeFamily session
       else io_bind (findHead cp storedToken MAX_REFRESH_TOKEN_SUCCESSOR_HOPS raw) (\<lambda>head. case head of
              None \<Rightarrow> revokeFamily session
            | Some (headRaw, headToken) \<Rightarrow>
                io_try (resolveContext headToken session) (\<lambda>context.
                io_bind (signAccessToken cp (claimsOf context)) (\<lambda>access.
                Return (Inr \<lparr>iss_accessToken = access, iss_refreshToken = headRaw\<rparr>)))))"

definition recoverAfterLostRace :: "crypto \<Rightarrow> string \<Rightarrow> (platform, issued either) io" where
  "recoverAfterLostRace cp raw =
     io_try (loadStoredSession cp raw) (\<lambda>(reloaded, session). recoverReusedToken cp reloaded session raw)"

definition rotate_token :: "crypto \<Rightarrow> refresh_token \<Rightarrow> auth_session \<Rightarrow> string \<Rightarrow> (platform, issued either) io" where
  "rotate_token cp storedToken session raw =
     io_try (resolveContext storedToken session) (\<lambda>context.
     io_bind (query (cp_expiresAt cp \<circ> pf_now)) (\<lambda>expiresAt.
     io_try (build_pair cp (claimsOf context) (as_id session) expiresAt (cp_successorOf cp raw)) (\<lambda>tokens.
     io_bind (query pf_now) (\<lambda>now.
     io_try (call (rotate cp (markAsRotated now storedToken) (tp_refreshToken tokens))) (\<lambda>rotated.
       if \<not> rotated then recoverAfterLostRace cp raw
       else io_bind (run_call (session_update (session_renew expiresAt now session))) (\<lambda>_.
              Return (Inr \<lparr>iss_accessToken = tp_accessToken tokens, iss_refreshToken = tp_rawRefreshToken tokens\<rparr>)))))))"

definition refreshToken :: "crypto \<Rightarrow> string option \<Rightarrow> (platform, issued either) io" where
  "refreshToken cp presented =
     (if falsy presented then Return session_expired
      else let raw = the presented in
        io_try (loadStoredSession cp raw) (\<lambda>(storedToken, session).
          if \<not> token_isActive storedToken then recoverReusedToken cp storedToken session raw
          else rotate_token cp storedToken session raw))"

section \<open>LoginUserService, LogoutUserService, CreateUserService, SwitchWorkspaceService\<close>

definition resolveUserAgent :: "string option \<Rightarrow> string option either" where
  "resolveUserAgent agent = (case agent of
       None \<Rightarrow> Inr None
     | Some a \<Rightarrow> if a = [] then Inr None
         else if js_trim a = [] then left_user InvalidUserAgentError else Inr (Some (js_trim a)))"

definition validateCredentials :: "crypto \<Rightarrow> string \<Rightarrow> string \<Rightarrow> (platform, user either) io" where
  "validateCredentials cp email password =
     io_try (query (user_findUniqueByEmail email)) (\<lambda>u. case u of
         None \<Rightarrow> Return (left_user WrongCredentialsError)
       | Some user \<Rightarrow> Return (if cp_comparePassword cp password (us_passwordHash user) then Inr user
                              else left_user WrongCredentialsError))"

definition loginUser :: "crypto \<Rightarrow> string \<Rightarrow> string \<Rightarrow> string option \<Rightarrow> (platform, issued either) io" where
  "loginUser cp email password agent =
     io_try (Return (resolveUserAgent agent)) (\<lambda>userAgent.
     io_try (validateCredentials cp email password) (\<lambda>user.
     io_try (query (findDefaultWorkspaceByUserId (us_id user))) (\<lambda>m. case m of
         None \<Rightarrow> Return (left_shared (UnauthorizedError ''Nao autorizado''))
       | Some (member, name) \<Rightarrow> issueAuthSession cp (claimsOf (user, member, name)) userAgent)))"

definition logoutUser :: "crypto \<Rightarrow> string option \<Rightarrow> (platform, unit either) io" where
  "logoutUser cp presented =
     (if falsy presented then Return (Inr ())
      else io_bind (query (findUniqueByTokenHash (cp_hash cp (the presented)))) (\<lambda>saved. case saved of
             None \<Rightarrow> Return (Inr ())
           | Some t \<Rightarrow> io_bind (run_call (session_revoke (rt_sessionId t))) (\<lambda>_. Return (Inr ()))))"

definition createUser :: "crypto \<Rightarrow> string \<Rightarrow> string \<Rightarrow> string \<Rightarrow> (platform, user either) io" where
  "createUser cp email name password =
     io_try (query (user_findUniqueByEmail email)) (\<lambda>existing.
       if existing \<noteq> None then Return (left_user EmailAlreadyInUseError)
       else io_bind (call (draw (cp_hashPassword cp password))) (\<lambda>hashed.
            io_bind (call (draw (cp_uuid cp))) (\<lambda>i.
            io_try (query (\<lambda>p. User_create \<lparr>us_id = i, us_name = name, us_email = email, us_passwordHash = hashed,
                us_phone = None, us_avatarUrl = None, us_createdAt = pf_now p, us_updatedAt = None\<rparr>)) (\<lambda>user.
            io_try (call (user_create cp user)) (\<lambda>_. Return (Inr user))))))"

definition switchWorkspace :: "crypto \<Rightarrow> string \<Rightarrow> string \<Rightarrow> (platform, issued either) io" where
  "switchWorkspace cp ws sub =
     io_try (query (workspace_findById ws)) (\<lambda>w. case w of
         None \<Rightarrow> Return (left_workspace WorkspaceNotFoundError)
       | Some workspace \<Rightarrow>
     io_try (query (findUserByWorkspaceAndUserId ws sub)) (\<lambda>m. case m of
         None \<Rightarrow> Return (left_workspace WorkspaceUserNotFoundError)
       | Some member \<Rightarrow>
     io_try (query (user_findUniqueById sub)) (\<lambda>u. case u of
         None \<Rightarrow> Return (left_user UserNotFoundError)
       | Some user \<Rightarrow>
           issueAuthSession cp \<lparr>cl_sub = us_id user, cl_name = us_name user, cl_workspaceId = ws_id workspace,
             cl_workspaceName = ws_name workspace, cl_role = wu_role member\<rparr> None)))"

end
