(* ===== verification/SessionContracts.thy ===== *)
theory SessionContracts
  imports Sessions
begin

text \<open>
  What the calls of the session services keep: users, sessions and tokens are never
  deleted, a revocation is final, a token only moves from active to rotated to
  revoked. The requests of src/src/modules/user and the workspace switch respect
  this of each other however their calls interleave.
\<close>

section \<open>Requests\<close>

datatype auth_request =
    Refresh "string option"
  | Login string string "string option"
  | Logout "string option"
  | SwitchWorkspace string string
  | Register string string string

datatype auth_answer = Issued issued | LoggedOut | Registered user

definition answering :: "('a \<Rightarrow> auth_answer) \<Rightarrow> (platform, 'a either) io \<Rightarrow> (platform, auth_answer either) io" where
  "answering g m = io_map (map_sum id g) m"

fun handle :: "crypto \<Rightarrow> auth_request \<Rightarrow> (platform, auth_answer either) io" where
  "handle cp (Refresh presented) = answering Issued (refreshToken cp presented)"
| "handle cp (Login email password agent) = answering Issued (loginUser cp email password agent)"
| "handle cp (Logout presented) = answering (\<lambda>_. LoggedOut) (logoutUser cp presented)"
| "handle cp (SwitchWorkspace ws sub) = answering Issued (switchWorkspace cp ws sub)"
| "handle cp (Register email name password) = answering Registered (createUser cp email name password)"

text \<open>The environment of the requests: time passes.\<close>

definition tick :: "platform \<Rightarrow> platform \<Rightarrow> bool" where
  "tick p p' = (\<exists>n \<ge> pf_now p. p' = p\<lparr>pf_now := n\<rparr>)"

section \<open>What only grows\<close>

fun status_le :: "RefreshTokenStatus \<Rightarrow> RefreshTokenStatus \<Rightarrow> bool" where
  "status_le ACTIVE _ = True"
| "status_le ROTATED s = (s \<noteq> ACTIVE)"
| "status_le REVOKED s = (s = REVOKED)"

definition token_grows :: "refresh_token \<Rightarrow> refresh_token \<Rightarrow> bool" where
  "token_grows t t' = (rt_id t' = rt_id t \<and> rt_sessionId t' = rt_sessionId t \<and> rt_tokenHash t' = rt_tokenHash t
     \<and> rt_expiresAt t' = rt_expiresAt t \<and> status_le (rt_status t) (rt_status t'))"

definition session_grows :: "auth_session \<Rightarrow> auth_session \<Rightarrow> bool" where
  "session_grows s s' = (as_id s' = as_id s \<and> as_userId s' = as_userId s
     \<and> (as_revokedAt s \<noteq> None \<longrightarrow> s' = s))"

definition grows :: "('r \<Rightarrow> 'r \<Rightarrow> bool) \<Rightarrow> ('k \<Rightarrow> 'r option) \<Rightarrow> ('k \<Rightarrow> 'r option) \<Rightarrow> bool" where
  "grows le m m' = (\<forall>k r. m k = Some r \<longrightarrow> (\<exists>r'. m' k = Some r' \<and> le r r'))"

definition later :: "platform \<Rightarrow> platform \<Rightarrow> bool" where
  "later p p' = (pf_now p \<le> pf_now p'
     \<and> grows token_grows (\<lambda>h. token_of h p) (\<lambda>h. token_of h p')
     \<and> grows session_grows (\<lambda>i. session_of i p) (\<lambda>i. session_of i p'))"

lemma status_le_trans: "status_le a b \<Longrightarrow> status_le b c \<Longrightarrow> status_le a c"
  by (cases a; cases b; cases c) simp_all

lemma status_le_refl [simp]: "status_le a a"
  by (cases a) simp_all

lemma status_le_REVOKED [simp]: "status_le a REVOKED"
  by (cases a) simp_all

lemma token_grows_refl [simp]: "token_grows t t"
  by (simp add: token_grows_def)

lemma session_grows_refl [simp]: "session_grows s s"
  by (simp add: session_grows_def)

lemma grows_refl: "(\<And>r. le r r) \<Longrightarrow> grows le m m"
  by (auto simp: grows_def)

lemma grows_trans:
  assumes "\<And>a b c. le a b \<Longrightarrow> le b c \<Longrightarrow> le a c" "grows le m n" "grows le n k"
  shows "grows le m k"
  using assms unfolding grows_def by meson

lemma token_grows_trans: "token_grows a b \<Longrightarrow> token_grows b c \<Longrightarrow> token_grows a c"
  by (auto simp: token_grows_def intro: status_le_trans)

lemma session_grows_trans: "session_grows a b \<Longrightarrow> session_grows b c \<Longrightarrow> session_grows a c"
  by (auto simp: session_grows_def)

lemma tokens_grow_trans: "grows token_grows m n \<Longrightarrow> grows token_grows n k \<Longrightarrow> grows token_grows m k"
  by (rule grows_trans[OF token_grows_trans])

lemma sessions_grow_trans: "grows session_grows m n \<Longrightarrow> grows session_grows n k \<Longrightarrow> grows session_grows m k"
  by (rule grows_trans[OF session_grows_trans])

interpretation later: rely later
proof
  show "later s s" for s by (simp add: later_def grows_refl)
  show "later s u" if "later s t" "later t u" for s t u
    using that tokens_grow_trans[of "\<lambda>h. token_of h s" "\<lambda>h. token_of h t" "\<lambda>h. token_of h u"]
      sessions_grow_trans[of "\<lambda>i. session_of i s" "\<lambda>i. session_of i t" "\<lambda>i. session_of i u"]
    by (simp add: later_def)
qed

lemma tick_later: "tick \<le> later"
  by (auto simp: tick_def later_def grows_refl token_of_def session_of_def)

text \<open>Tables that are updated or appended to, row by row.\<close>

lemma find_row_update_pred:
  "(\<And>r. q r \<Longrightarrow> p (f r) = p r) \<Longrightarrow>
     find_row p (update_rows q f t) = map_option (\<lambda>r. if q r then f r else r) (find_row p t)"
  by (induction t) (auto simp: update_rows_def table_simps)

lemma grows_update:
  assumes "\<And>k r. q r \<Longrightarrow> key (f r) = key r" "\<And>r. q r \<Longrightarrow> le r (f r)" "\<And>r. le r r"
  shows "grows le (\<lambda>k. find_row (\<lambda>r. key r = k) t) (\<lambda>k. find_row (\<lambda>r. key r = k) (update_rows q f t))"
  using assms unfolding grows_def by (auto simp: find_row_update_pred)

lemma grows_append:
  "(\<And>r. le r r) \<Longrightarrow> grows le (\<lambda>k. find_row (\<lambda>r. key r = k) t) (\<lambda>k. find_row (\<lambda>r. key r = k) (t @ u))"
  by (auto simp: grows_def table_simps)

lemma laterI:
  assumes "pf_now p \<le> pf_now p'"
    "grows token_grows (\<lambda>h. find_row (\<lambda>t. rt_tokenHash t = h) (pf_tokens p))
       (\<lambda>h. find_row (\<lambda>t. rt_tokenHash t = h) (pf_tokens p'))"
    "grows session_grows (\<lambda>i. find_row (\<lambda>s. as_id s = i) (pf_sessions p)) (\<lambda>i. find_row (\<lambda>s. as_id s = i) (pf_sessions p'))"
  shows "later p p'"
  using assms by (simp add: later_def token_of_def session_of_def)

lemma later_same: "pf_now p' = pf_now p \<Longrightarrow> pf_tokens p' = pf_tokens p \<Longrightarrow> pf_sessions p' = pf_sessions p \<Longrightarrow> later p p'"
  by (rule laterI) (simp_all add: grows_refl)

lemma later_revokeBySessionId: "later p (revokeBySessionId i p)"
  by (rule laterI)
     (auto simp: revokeBySessionId_def grows_refl token_revoke_def token_grows_def intro!: grows_update)

lemma later_session_revoke: "later p (session_revoke i p)"
  by (rule laterI) (auto simp: session_revoke_def grows_refl session_grows_def intro!: grows_update)

lemma later_session_update: "later p (session_update s p)"
  by (rule laterI) (auto simp: session_update_def grows_refl session_grows_def intro!: grows_update)

lemma insert_token_Inr:
  "insert_token cp t p = Inr p' \<Longrightarrow> \<exists>i. (if rt_id t = [] then i = cp_uuid cp (pf_drawn p) else i = rt_id t)
      \<and> p' = p\<lparr>pf_tokens := pf_tokens p @ [t\<lparr>rt_id := i\<rparr>], pf_drawn := Suc (pf_drawn p)\<rparr>
      \<and> find_row (\<lambda>r. rt_id r = i) (pf_tokens p) = None \<and> token_of (rt_tokenHash t) p = None
      \<and> session_of (rt_sessionId t) p \<noteq> None"
  by (auto simp: insert_token_def Let_def duplicate_key_def foreign_key_def split: if_splits)

lemma later_insert_token: "insert_token cp t p = Inr p' \<Longrightarrow> later p p'"
  by (drule insert_token_Inr) (auto intro!: laterI grows_append simp: grows_refl)

lemma later_token_create: "later p (fst (token_create cp t p))"
  by (auto simp: token_create_def atomically_def and_then_Inr_iff later.rely_refl later_insert_token split: sum.splits)

text \<open>The states a rotation leaves behind.\<close>

definition mark_rotated :: "refresh_token \<Rightarrow> platform \<Rightarrow> platform" where
  "mark_rotated cur p = p\<lparr>pf_tokens := update_rows (\<lambda>t. rt_id t = rt_id cur \<and> rt_status t = ACTIVE)
     (\<lambda>t. t\<lparr>rt_status := ROTATED, rt_rotatedAt := rt_rotatedAt cur\<rparr>) (pf_tokens p)\<rparr>"

lemma rotate_cases:
  obtains (lost) "rotate cp cur nxt p = (p, Inr False)"
      "\<forall>t\<in>set (pf_tokens p). \<not> (rt_id t = rt_id cur \<and> rt_status t = ACTIVE)"
    | (failed) e where "rotate cp cur nxt p = (p, Inl e)" "insert_token cp nxt (mark_rotated cur p) = Inl e"
    | (won) p' where "rotate cp cur nxt p = (p', Inr True)" "insert_token cp nxt (mark_rotated cur p) = Inr p'"
        "\<exists>t\<in>set (pf_tokens p). rt_id t = rt_id cur \<and> rt_status t = ACTIVE"
  by (cases "list_ex (\<lambda>t. rt_id t = rt_id cur \<and> rt_status t = ACTIVE) (pf_tokens p)";
      cases "insert_token cp nxt (mark_rotated cur p)")
     (auto simp: rotate_def atomically_def mark_rotated_def list_ex_iff)

lemma later_mark_rotated: "later p (mark_rotated cur p)"
  by (rule laterI) (auto simp: mark_rotated_def grows_refl token_grows_def intro!: grows_update)

lemma later_rotate: "later p (fst (rotate cp cur nxt p))"
  by (cases rule: rotate_cases[of cp cur nxt p])
     (auto simp: later.rely_refl intro: later.rely_trans[OF later_mark_rotated later_insert_token])

lemma later_session_create: "later p (fst (session_create cp s p))"
  by (auto simp: session_create_def atomically_def Let_def later.rely_refl duplicate_key_def foreign_key_def
      intro!: laterI grows_append grows_refl split: sum.splits if_splits)

lemma later_draw: "later p (fst (draw g p))"
  by (simp add: draw_def later_same)

definition same_auth :: "platform \<Rightarrow> platform \<Rightarrow> bool" where
  "same_auth p p' = (pf_now p' = pf_now p \<and> pf_tokens p' = pf_tokens p \<and> pf_sessions p' = pf_sessions p)"

lemma same_auth_inserts:
  "insert_user u p = Inr p' \<Longrightarrow> same_auth p p'"
  "insert_workspace w p = Inr p' \<Longrightarrow> same_auth p p'"
  "insert_subscription b p = Inr p' \<Longrightarrow> same_auth p p'"
  "insert_member m p = Inr p' \<Longrightarrow> same_auth p p'"
  "insert_default_account i ws z s p = Inr p' \<Longrightarrow> same_auth p p'"
  "insert_categories cs p = Inr p' \<Longrightarrow> same_auth p p'"
  by (auto simp: same_auth_def insert_user_def insert_workspace_def insert_subscription_def insert_member_def
      insert_default_account_def insert_categories_def duplicate_key_def foreign_key_def and_then_Inr_iff
      split: if_splits)

lemma user_create_same_auth: "same_auth p (fst (user_create cp u p))"
proof (cases "user_create cp u p")
  case (Pair p' r)
  show ?thesis
  proof (cases r)
    case (Inl e)
    with Pair have "p' = p" unfolding user_create_def by (simp add: atomically_Inl)
    with Pair show ?thesis by (simp add: same_auth_def)
  next
    case (Inr x)
    with Pair have c: "user_create cp u p = (p', Inr ())" by simp
    from c have "same_auth p p'"
      unfolding user_create_def atomically_Inr Let_def and_then_Inr_iff
      by (auto dest!: same_auth_inserts simp: same_auth_def)
    with Pair show ?thesis by simp
  qed
qed

lemma later_user_create: "later p (fst (user_create cp u p))"
  using user_create_same_auth[of p cp u] by (simp add: same_auth_def later_same)

section \<open>Every request respects the others\<close>

definition respectful :: "(platform, 'a) io \<Rightarrow> bool" where
  "respectful m = (\<forall>p. in_company later (\<lambda>_ _. True) m p)"

lemma respectful_Return [simp]: "respectful (Return a)"
  by (simp add: respectful_def)

lemma respectful_bind: "respectful m \<Longrightarrow> (\<And>a. respectful (k a)) \<Longrightarrow> respectful (io_bind m k)"
  unfolding respectful_def by (blast intro: later.company_bind)

lemma respectful_try: "respectful m \<Longrightarrow> (\<And>a. respectful (k a)) \<Longrightarrow> respectful (io_try m k)"
  unfolding io_try_def by (rule respectful_bind) (simp_all split: sum.splits)

lemma respectful_call: "(\<And>p. later p (fst (f p))) \<Longrightarrow> respectful (call f)"
  by (simp add: respectful_def call_def)

lemma respectful_query [simp]: "respectful (query f)"
  unfolding query_def by (rule respectful_call) (simp add: later.rely_refl)

lemma respectful_run_call: "(\<And>p. later p (f p)) \<Longrightarrow> respectful (run_call f)"
  unfolding run_call_def by (rule respectful_call) simp

lemma respectful_option: "(x = None \<Longrightarrow> respectful m) \<Longrightarrow> (\<And>a. x = Some a \<Longrightarrow> respectful (k a))
    \<Longrightarrow> respectful (case x of None \<Rightarrow> m | Some a \<Rightarrow> k a)"
  by (cases x) simp_all

lemma respectful_prod: "(\<And>a b. respectful (k a b)) \<Longrightarrow> respectful (case x of (a, b) \<Rightarrow> k a b)"
  by (cases x) simp

lemma respectful_if: "respectful m \<Longrightarrow> respectful n \<Longrightarrow> respectful (if b then m else n)"
  by simp

lemmas respectful_intros = respectful_bind respectful_try respectful_query respectful_call respectful_run_call
  respectful_option respectful_prod respectful_if respectful_Return
  later_revokeBySessionId later_session_revoke later_session_update later_token_create later_rotate
  later_session_create later_draw later_user_create

lemma respectful_findHead: "respectful (findHead cp t hops raw)"
  by (induction hops arbitrary: raw) (auto simp: Let_def intro!: respectful_intros)

lemma respectful_issueAuthSession: "respectful (issueAuthSession cp c agent)"
  unfolding issueAuthSession_def createSession_def build_pair_def signAccessToken_def
  by (intro respectful_intros)

lemma respectful_resolveContext: "respectful (resolveContext t s)"
  unfolding resolveContext_def by (intro respectful_intros)

lemma respectful_loadStoredSession: "respectful (loadStoredSession cp raw)"
  unfolding loadStoredSession_def by (intro respectful_intros)

lemma respectful_recoverReusedToken: "respectful (recoverReusedToken cp t s raw)"
  unfolding recoverReusedToken_def revokeFamily_def signAccessToken_def
  by (intro respectful_intros respectful_findHead respectful_resolveContext)

lemma respectful_refreshToken: "respectful (refreshToken cp presented)"
  unfolding refreshToken_def rotate_token_def recoverAfterLostRace_def build_pair_def signAccessToken_def Let_def
  by (intro respectful_intros respectful_loadStoredSession respectful_recoverReusedToken respectful_resolveContext)

lemma respectful_handle: "respectful (handle cp req)"
  by (cases req)
     (auto simp: answering_def io_map_def loginUser_def validateCredentials_def logoutUser_def createUser_def switchWorkspace_def
       intro!: respectful_intros respectful_refreshToken respectful_issueAuthSession)

section \<open>Every request ends after a bounded number of calls\<close>

lemma calls_within_option: "(x = None \<Longrightarrow> calls_within m n) \<Longrightarrow> (\<And>a. x = Some a \<Longrightarrow> calls_within (k a) n)
    \<Longrightarrow> calls_within (case x of None \<Rightarrow> m | Some a \<Rightarrow> k a) n"
  by (cases x) simp_all

lemma calls_within_prod: "(\<And>a b. calls_within (k a b) n) \<Longrightarrow> calls_within (case x of (a, b) \<Rightarrow> k a b) n"
  by (cases x) simp

lemma calls_within_if: "calls_within m n \<Longrightarrow> calls_within m' n \<Longrightarrow> calls_within (if b then m else m') n"
  by simp

text \<open>One call, then the rest within one call less.\<close>

lemma calls_within_step:
  "(\<And>a. calls_within (k a) n) \<Longrightarrow> calls_within (io_bind (call f) k) (Suc n)"
  "(\<And>a. calls_within (k' a) n) \<Longrightarrow> calls_within (io_bind (query g) k') (Suc n)"
  "(\<And>a. calls_within (k'' a) n) \<Longrightarrow> calls_within (io_bind (run_call h) k'') (Suc n)"
  using calls_within_bind[OF calls_within_call, of k n f] calls_within_bind[OF calls_within_query, of k' n g]
    calls_within_bind[OF calls_within_run_call, of k'' n h] by simp_all

lemma calls_within_try_step:
  "(\<And>a. calls_within (k a) n) \<Longrightarrow> calls_within (io_try (call f) k) (Suc n)"
  "(\<And>a. calls_within (k' a) n) \<Longrightarrow> calls_within (io_try (query g) k') (Suc n)"
  unfolding io_try_def by (auto intro!: calls_within_step split: sum.splits)

lemmas calls_within_intros = calls_within_step calls_within_try_step calls_within_option calls_within_prod
  calls_within_if calls_within_Return

lemma calls_findHead: "calls_within (findHead cp t hops raw) hops"
  by (induction hops arbitrary: raw) (auto simp: Let_def intro!: calls_within_intros)

lemma calls_resolveContext: "calls_within (resolveContext t s) 3"
  unfolding resolveContext_def numeral_3_eq_3 by (intro calls_within_intros)

lemma calls_loadStoredSession: "calls_within (loadStoredSession cp raw) 2"
  unfolding loadStoredSession_def numeral_2_eq_2 by (intro calls_within_intros)

lemma calls_revokeFamily: "calls_within (revokeFamily s) 2"
  unfolding revokeFamily_def numeral_2_eq_2 by (intro calls_within_intros)

lemma calls_recovered: "calls_within (io_try (resolveContext u s) (\<lambda>c. io_bind (signAccessToken cp (claimsOf c)) (\<lambda>a.
    Return (Inr \<lparr>iss_accessToken = a, iss_refreshToken = r\<rparr>)))) (3 + 1)"
  unfolding signAccessToken_def One_nat_def by (rule calls_within_try[OF calls_resolveContext]) (intro calls_within_intros)

lemma calls_recoverReusedToken: "calls_within (recoverReusedToken cp t s raw) 8"
proof -
  note family = calls_within_mono[OF calls_revokeFamily]
  have head: "calls_within (case head of None \<Rightarrow> revokeFamily s
     | Some (r, u) \<Rightarrow> io_try (resolveContext u s) (\<lambda>c. io_bind (signAccessToken cp (claimsOf c)) (\<lambda>a.
         Return (Inr \<lparr>iss_accessToken = a, iss_refreshToken = r\<rparr>)))) 4" for head
    using calls_recovered by (auto intro: family split: option.splits)
  have "calls_within (recoverReusedToken cp t s raw) (Suc (MAX_REFRESH_TOKEN_SUCCESSOR_HOPS + 4))"
    unfolding recoverReusedToken_def
    by (intro calls_within_step calls_within_if family calls_within_bind calls_findHead head) simp_all
  then show ?thesis by (simp add: MAX_REFRESH_TOKEN_SUCCESSOR_HOPS_def)
qed

lemma calls_rotate_token: "calls_within (rotate_token cp t s raw) 18"
proof -
  have lost: "calls_within (recoverAfterLostRace cp raw) (2 + 8)"
    unfolding recoverAfterLostRace_def
    by (intro calls_within_try calls_loadStoredSession calls_within_prod calls_recoverReusedToken)
  have pair: "calls_within (build_pair cp c i e r) 2" for c i e r
    unfolding build_pair_def signAccessToken_def numeral_2_eq_2 by (intro calls_within_intros)
  have "calls_within (rotate_token cp t s raw) (3 + Suc (2 + Suc (Suc (2 + 8))))"
    unfolding rotate_token_def
    by (intro calls_within_try calls_resolveContext calls_within_step calls_within_try_step pair calls_within_if lost
        calls_within_mono[OF calls_within_step(3), of _ 0]) simp_all
  then show ?thesis by simp
qed

lemma calls_refreshToken: "calls_within (refreshToken cp presented) 20"
proof -
  have "calls_within (refreshToken cp presented) (2 + 18)"
    unfolding refreshToken_def Let_def
    by (intro calls_within_if calls_within_Return calls_within_try calls_loadStoredSession calls_within_prod
        calls_rotate_token calls_within_mono[OF calls_recoverReusedToken]) simp
  then show ?thesis by simp
qed

lemma calls_issueAuthSession: "calls_within (issueAuthSession cp c agent) 7"
proof -
  have create: "calls_within (createSession cp u agent) 3" for u
    unfolding createSession_def numeral_3_eq_3
    by (intro calls_within_intros) (simp add: calls_within_call[simplified])
  have pair: "calls_within (build_pair cp c i e r) 2" for c i e r
    unfolding build_pair_def signAccessToken_def numeral_2_eq_2 by (intro calls_within_intros)
  have "calls_within (issueAuthSession cp c agent) (3 + Suc (2 + Suc 0))"
    unfolding issueAuthSession_def
    by (intro calls_within_try create pair calls_within_step calls_within_try_step calls_within_Return)
  then show ?thesis by simp
qed

lemma calls_loginUser: "calls_within (loginUser cp email password agent) 9"
proof -
  have credentials: "calls_within (validateCredentials cp email password) 1"
    unfolding validateCredentials_def One_nat_def by (intro calls_within_intros)
  have "calls_within (loginUser cp email password agent) (0 + (1 + Suc 7))"
    unfolding loginUser_def
    by (intro calls_within_try calls_within_Return credentials calls_within_try_step calls_within_option
        calls_within_prod calls_issueAuthSession)
  then show ?thesis by simp
qed

lemma calls_handle: "calls_within (handle cp req) 20"
proof (cases req)
  case (SwitchWorkspace ws sub)
  have "calls_within (switchWorkspace cp ws sub) (Suc (Suc (Suc 7)))"
    unfolding switchWorkspace_def by (intro calls_within_intros calls_issueAuthSession)
  with SwitchWorkspace show ?thesis by (auto simp: answering_def intro: calls_within_map calls_within_mono)
next
  case (Logout presented)
  have "calls_within (logoutUser cp presented) (Suc (Suc 0))"
    unfolding logoutUser_def by (intro calls_within_intros)
  with Logout show ?thesis by (auto simp: answering_def intro: calls_within_map calls_within_mono)
next
  case (Register email name password)
  have "calls_within (createUser cp email name password) (Suc (Suc (Suc (Suc (Suc 0)))))"
    unfolding createUser_def by (intro calls_within_intros)
  with Register show ?thesis by (auto simp: answering_def intro: calls_within_map calls_within_mono)
next
  case (Login email password agent)
  then show ?thesis
    using calls_within_mono[OF calls_loginUser, of 20] by (simp add: answering_def calls_within_map)
qed (simp add: answering_def calls_within_map calls_refreshToken)

section \<open>A revoked session\<close>

definition revoked_session :: "string \<Rightarrow> platform \<Rightarrow> bool" where
  "revoked_session i p = (case session_of i p of None \<Rightarrow> False | Some s \<Rightarrow> session_isRevoked s)"

lemma revoked_session_later: "revoked_session i p \<Longrightarrow> later p p' \<Longrightarrow> revoked_session i p'"
  by (force simp: revoked_session_def later_def grows_def session_grows_def session_isRevoked_def split: option.splits)

lemma token_session_later: "token_of h p = Some t \<Longrightarrow> later p p' \<Longrightarrow>
    \<exists>t'. token_of h p' = Some t' \<and> token_grows t t'"
  by (auto simp: later_def grows_def)

abbreviation answers_expired :: "(platform, issued either) io \<Rightarrow> platform \<Rightarrow> bool" where
  "answers_expired \<equiv> in_company later (\<lambda>_ a. a = session_expired)"

lemma revokeFamily_expired: "answers_expired (revokeFamily s) p"
  unfolding revokeFamily_def run_call_def
  by (intro later.company_bind_call) (auto simp: later_revokeBySessionId later_session_revoke intro!: later.company_bind_call)

lemma revoked_recover:
  assumes "session_isRevoked s"
  shows "answers_expired (recoverReusedToken cp t s raw) p"
  unfolding recoverReusedToken_def
  using assms by (intro later.company_bind_query) (auto simp: session_isValid_def revokeFamily_expired)

lemma revoked_context:
  assumes "session_isRevoked s"
  shows "in_company later (\<lambda>_ a. a = session_expired) (resolveContext t s) p"
  unfolding resolveContext_def
  using assms by (intro later.company_bind_query) (auto simp: session_isValid_def)

lemma revoked_rotate:
  assumes "session_isRevoked s"
  shows "answers_expired (rotate_token cp t s raw) p"
  unfolding rotate_token_def
  by (rule later.company_try[OF revoked_context[OF assms]]) (auto simp: session_expired_def)

lemma revoked_refresh:
  assumes "token_of (cp_hash cp raw) p = Some t" "revoked_session (rt_sessionId t) p"
  shows "answers_expired (refreshToken cp (Some raw)) p"
proof -
  have load: "in_company later (\<lambda>_ r. \<exists>u s. r = Inr (u, s) \<and> session_isRevoked s) (loadStoredSession cp raw) p"
    unfolding loadStoredSession_def findUniqueByTokenHash_def session_findUniqueById_def
  proof (rule later.company_bind_query)
    fix q assume "later p q"
    from token_session_later[OF assms(1) this] obtain u where u: "token_of (cp_hash cp raw) q = Some u"
      "rt_sessionId u = rt_sessionId t" by (auto simp: token_grows_def)
    have "\<exists>s. session_of (rt_sessionId t) r = Some s \<and> session_isRevoked s" if "later q r" for r
      using revoked_session_later[OF revoked_session_later[OF assms(2) \<open>later p q\<close>] that]
      by (auto simp: revoked_session_def split: option.splits)
    with u show "in_company later (\<lambda>_ r. \<exists>u s. r = Inr (u, s) \<and> session_isRevoked s)
       (case token_of (cp_hash cp raw) q of None \<Rightarrow> Return session_expired
        | Some storedToken \<Rightarrow> io_bind (query (session_of (rt_sessionId storedToken))) (\<lambda>session.
            case session of None \<Rightarrow> Return session_expired | Some s \<Rightarrow> Return (Inr (storedToken, s)))) q"
      by (fastforce intro!: later.company_bind_query split: option.splits)
  qed
  show ?thesis
    unfolding refreshToken_def Let_def
    by (auto intro!: later.company_try[OF load] simp: revoked_recover revoked_rotate)
qed

text \<open>So no request in any pool gets tokens of a session that is revoked when the pool starts.\<close>

lemma revoked_session_answers:
  assumes "revoked_session i p" "interleaved tick (map (handle cp) reqs, p) (ts', p')"
    and "j < length reqs" "reqs ! j = Refresh (Some raw)" "token_of (cp_hash cp raw) p = Some t" "rt_sessionId t = i"
    and "ts' ! j = Return a"
  shows "a = session_expired"
proof -
  have "in_company later (\<lambda>_ a. a = session_expired) (handle cp (Refresh (Some raw))) p"
    using revoked_refresh[of cp raw p t] assms(1,5,6)
    by (auto simp: answering_def session_expired_def intro!: later.company_map elim!: later.company_mono)
  moreover have "in_company later (\<lambda>_ _. True) (handle cp req) p" for req
    using respectful_handle[of cp] by (simp add: respectful_def)
  ultimately have "in_company later (\<lambda>_ a. k = j \<longrightarrow> a = session_expired) (handle cp (reqs ! k)) p" for k
    using assms(4) by (cases "k = j") simp_all
  then have "\<forall>k < length (map (handle cp) reqs). in_company later (\<lambda>_ a. k = j \<longrightarrow> a = session_expired) (map (handle cp) reqs ! k) p"
    by simp
  from later.company_answer[OF assms(2) tick_later this, of j a] assms(3,7) show ?thesis by simp
qed

section \<open>At most one active token\<close>

definition active_tokens :: "string \<Rightarrow> platform \<Rightarrow> refresh_token list" where
  "active_tokens i p = filter (\<lambda>t. rt_sessionId t = i \<and> rt_status t = ACTIVE) (pf_tokens p)"

definition token_by_id :: "platform \<Rightarrow> string \<Rightarrow> refresh_token option" where
  "token_by_id p = (\<lambda>i. find_row (\<lambda>t. rt_id t = i) (pf_tokens p))"

definition sole :: "string \<Rightarrow> platform \<Rightarrow> bool" where
  "sole i p = (session_of i p \<noteq> None \<and> distinct_by rt_id (pf_tokens p) \<and> length (active_tokens i p) \<le> 1)"

definition sole_rely :: "string \<Rightarrow> platform \<Rightarrow> platform \<Rightarrow> bool" where
  "sole_rely i p p' = (sole i p \<longrightarrow> sole i p' \<and> grows token_grows (token_by_id p) (token_by_id p'))"

interpretation sole: rely "sole_rely i"
proof
  show "sole_rely i s s" for s by (simp add: sole_rely_def grows_refl)
  show "sole_rely i s u" if "sole_rely i s t" "sole_rely i t u" for s t u
    using that tokens_grow_trans[of "token_by_id s" "token_by_id t" "token_by_id u"] by (auto simp: sole_rely_def)
qed

lemma sole_later: "sole i p \<Longrightarrow> later p p' \<Longrightarrow> session_of i p' \<noteq> None"
  by (cases "session_of i p") (auto 4 3 simp: sole_def later_def grows_def)

text \<open>Calls that leave the tokens alone, and calls that only take tokens out of use.\<close>

lemma sole_rely_same: "later p p' \<Longrightarrow> pf_tokens p' = pf_tokens p \<Longrightarrow> sole_rely i p p'"
  using sole_later[of i p p'] grows_refl[of token_grows "token_by_id p"]
  by (auto simp: sole_rely_def sole_def active_tokens_def token_by_id_def)

lemma filter_update_shrinks:
  "(\<And>r. q r \<Longrightarrow> p (f r) \<Longrightarrow> p r) \<Longrightarrow> length (filter p (update_rows q f t)) \<le> length (filter p t)"
  by (induction t) (auto simp: update_rows_def le_SucI)

lemma sole_rely_update:
  assumes "later p p'" "pf_tokens p' = update_rows q f (pf_tokens p)"
    and "\<And>t. rt_id (f t) = rt_id t" "\<And>t. q t \<Longrightarrow> token_grows t (f t)" "\<And>t. rt_status (f t) \<noteq> ACTIVE"
  shows "sole_rely i p p'"
  unfolding sole_rely_def
proof
  assume p: "sole i p"
  have "length (active_tokens i p') \<le> length (active_tokens i p)"
    unfolding active_tokens_def assms(2) using assms(5) by (intro filter_update_shrinks) auto
  moreover have "grows token_grows (token_by_id p) (token_by_id p')"
    unfolding token_by_id_def assms(2) using assms(3,4) by (intro grows_update) auto
  moreover have "distinct_by rt_id (pf_tokens p')"
    using p assms(3) by (simp add: assms(2) sole_def distinct_by_update_rows)
  ultimately show "sole i p' \<and> grows token_grows (token_by_id p) (token_by_id p')"
    using p sole_later[OF p assms(1)] by (auto simp: sole_def)
qed

lemma sole_revokeBySessionId: "sole_rely i p (revokeBySessionId k p)"
  by (rule sole_rely_update[OF later_revokeBySessionId, where f = token_revoke])
     (auto simp: revokeBySessionId_def token_revoke_def token_grows_def)

lemma sole_mark_rotated: "sole_rely i p (mark_rotated cur p)"
  by (rule sole_rely_update[OF later_mark_rotated, where f = "\<lambda>t. t\<lparr>rt_status := ROTATED, rt_rotatedAt := rt_rotatedAt cur\<rparr>"
        and q = "\<lambda>t. rt_id t = rt_id cur \<and> rt_status t = ACTIVE"])
     (auto simp: mark_rotated_def token_grows_def)

lemma sole_session_ops:
  "sole_rely i p (session_revoke k p)" "sole_rely i p (session_update s p)" "sole_rely i p (fst (draw g p))"
  by (rule sole_rely_same[OF later_session_revoke], simp add: session_revoke_def)
     (rule sole_rely_same[OF later_session_update], simp add: session_update_def,
      rule sole_rely_same[OF later_draw], simp add: draw_def)

lemma sole_session_create: "sole_rely i p (fst (session_create cp s p))"
  by (rule sole_rely_same[OF later_session_create])
     (auto simp: session_create_def atomically_def Let_def duplicate_key_def foreign_key_def split: sum.splits if_splits)

lemma sole_user_create: "sole_rely i p (fst (user_create cp u p))"
  using sole_rely_same[OF later_user_create] user_create_same_auth[of p cp u] by (simp add: same_auth_def)

lemma insert_token_sole:
  assumes "insert_token cp t p = Inr p'" "sole i p"
    and "rt_sessionId t = i \<and> rt_status t = ACTIVE \<Longrightarrow> active_tokens i p = []"
  shows "sole i p' \<and> grows token_grows (token_by_id p) (token_by_id p')"
proof -
  from insert_token_Inr[OF assms(1)] obtain n where p': "pf_tokens p' = pf_tokens p @ [t\<lparr>rt_id := n\<rparr>]"
    and n: "find_row (\<lambda>r. rt_id r = n) (pf_tokens p) = None" by auto
  have "active_tokens i p' = active_tokens i p @ (if rt_sessionId t = i \<and> rt_status t = ACTIVE then [t\<lparr>rt_id := n\<rparr>] else [])"
    by (simp add: active_tokens_def p')
  with assms(2,3) have "length (active_tokens i p') \<le> 1" by (auto simp: sole_def)
  moreover have "grows token_grows (token_by_id p) (token_by_id p')"
    unfolding token_by_id_def p' by (rule grows_append) simp
  moreover have "session_of i p' \<noteq> None" by (rule sole_later[OF assms(2) later_insert_token[OF assms(1)]])
  ultimately show ?thesis using assms(2) n by (simp add: sole_def p' table_simps)
qed

lemma sole_token_create: "rt_sessionId t \<noteq> i \<Longrightarrow> sole_rely i p (fst (token_create cp t p))"
  by (auto simp: sole_rely_def token_create_def atomically_def and_then_Inr_iff grows_refl
      dest: insert_token_sole split: sum.splits)

text \<open>The winner of a rotation takes the token it replaces out of use first.\<close>

definition stored_as :: "refresh_token \<Rightarrow> platform \<Rightarrow> bool" where
  "stored_as t p = (\<exists>u. token_by_id p (rt_id t) = Some u \<and> rt_sessionId u = rt_sessionId t)"

lemma stored_as_later: "stored_as t p \<Longrightarrow> sole i p \<Longrightarrow> sole_rely i p p' \<Longrightarrow> stored_as t p'"
  by (fastforce simp: stored_as_def sole_rely_def grows_def token_grows_def)

lemma stored_as_found: "distinct_by rt_id (pf_tokens p) \<Longrightarrow> token_of h p = Some t \<Longrightarrow> stored_as t p"
  using find_row_SomeD[of _ "pf_tokens p" t] find_row_key_Some_iff[of rt_id "pf_tokens p" "rt_id t" t]
  unfolding token_of_def stored_as_def token_by_id_def by blast

lemma sole_rotate:
  assumes "sole i p \<Longrightarrow> stored_as cur p" "rt_sessionId nxt = rt_sessionId cur"
  shows "sole_rely i p (fst (rotate cp cur nxt p))"
proof (cases rule: rotate_cases[of cp cur nxt p])
  case (won p')
  show ?thesis
    unfolding sole_rely_def
  proof
    assume p: "sole i p"
    let ?q = "mark_rotated cur p"
    from sole_mark_rotated p have q: "sole i ?q" "grows token_grows (token_by_id p) (token_by_id ?q)"
      by (auto simp: sole_rely_def)
    from won(3) obtain t where t: "t \<in> set (pf_tokens p)" "rt_id t = rt_id cur" "rt_status t = ACTIVE" by blast
    have "active_tokens i ?q = []" if i: "rt_sessionId nxt = i"
    proof -
      from t p have "token_by_id p (rt_id cur) = Some t"
        by (simp add: token_by_id_def sole_def find_row_key_Some_iff)
      with assms(1)[OF p] have "rt_sessionId t = rt_sessionId cur" by (simp add: stored_as_def)
      with t i assms(2) have "t \<in> set (active_tokens i p)" by (simp add: active_tokens_def)
      moreover from p have "length (active_tokens i p) \<le> 1" by (simp add: sole_def)
      ultimately have only: "set (active_tokens i p) = {t}"
        by (cases "active_tokens i p") auto
      have "u \<notin> set (active_tokens i ?q)" for u
        using only t(2,3) by (auto simp: active_tokens_def mark_rotated_def set_update_rows split: if_splits)
      then show ?thesis by (cases "active_tokens i ?q") auto
    qed
    with insert_token_sole[OF won(2) q(1)] q(2) won(1) show "sole i (fst (rotate cp cur nxt p))
        \<and> grows token_grows (token_by_id p) (token_by_id (fst (rotate cp cur nxt p)))"
      using tokens_grow_trans by auto
  qed
qed (simp_all add: sole.rely_refl)

text \<open>Every request keeps the session at one active token at most.\<close>

abbreviation keeps_sole :: "string \<Rightarrow> (platform, 'a) io \<Rightarrow> platform \<Rightarrow> bool" where
  "keeps_sole i \<equiv> in_company (sole_rely i) (\<lambda>_ _. True)"

lemma keeps_sole_quiet:
  "(\<And>q. sole_rely i q (fst (f q))) \<Longrightarrow> (\<And>a q. keeps_sole i (k a) q) \<Longrightarrow> keeps_sole i (io_bind (call f) k) p"
  "(\<And>q. sole_rely i q (h q)) \<Longrightarrow> (\<And>a q. keeps_sole i (k' a) q) \<Longrightarrow> keeps_sole i (io_bind (run_call h) k') p"
  "(\<And>a q. keeps_sole i (k'' a) q) \<Longrightarrow> keeps_sole i (io_bind (query g) k'') p"
  unfolding run_call_def
  by (auto intro!: sole.company_bind_call sole.company_bind_query)

lemma keeps_sole_try_quiet:
  "(\<And>q. sole_rely i q (fst (f q))) \<Longrightarrow> (\<And>a q. keeps_sole i (k a) q) \<Longrightarrow> keeps_sole i (io_try (call f) k) p"
  "(\<And>a q. keeps_sole i (k' a) q) \<Longrightarrow> keeps_sole i (io_try (query g) k') p"
  unfolding io_try_def by (auto intro!: keeps_sole_quiet split: sum.splits)

lemma keeps_sole_option: "(x = None \<Longrightarrow> keeps_sole i m p) \<Longrightarrow> (\<And>a. x = Some a \<Longrightarrow> keeps_sole i (k a) p)
    \<Longrightarrow> keeps_sole i (case x of None \<Rightarrow> m | Some a \<Rightarrow> k a) p"
  by (cases x) simp_all

lemma keeps_sole_prod: "(\<And>a b. keeps_sole i (k a b) p) \<Longrightarrow> keeps_sole i (case x of (a, b) \<Rightarrow> k a b) p"
  by (cases x) simp

lemma keeps_sole_Return: "keeps_sole i (Return a) p"
  by simp

lemmas keeps_sole_intros = keeps_sole_quiet keeps_sole_try_quiet keeps_sole_option keeps_sole_prod keeps_sole_Return
  sole_revokeBySessionId sole_session_ops sole_session_create sole_user_create

lemma keeps_sole_findHead: "keeps_sole i (findHead cp t hops raw) p"
  by (induction hops arbitrary: raw p) (auto simp: Let_def intro!: keeps_sole_intros)

lemma keeps_sole_resolveContext: "keeps_sole i (resolveContext t s) p"
  unfolding resolveContext_def by (auto intro!: keeps_sole_intros)

lemma keeps_sole_recover: "keeps_sole i (recoverReusedToken cp t s raw) p"
proof -
  have family: "keeps_sole i (revokeFamily s) q" for q
    unfolding revokeFamily_def by (intro keeps_sole_intros)
  have head: "keeps_sole i (io_try (resolveContext u s) (\<lambda>c. io_bind (signAccessToken cp (claimsOf c)) (\<lambda>a.
         Return (Inr \<lparr>iss_accessToken = a, iss_refreshToken = r\<rparr>)))) q" for u r q
    unfolding signAccessToken_def
    by (rule sole.company_try[OF keeps_sole_resolveContext]) (auto intro!: keeps_sole_intros)
  show ?thesis
    unfolding recoverReusedToken_def
    by (auto intro!: keeps_sole_quiet(3) family sole.company_bind[OF keeps_sole_findHead] head split: option.splits)
qed

text \<open>A loaded token comes with its own session, and stays stored.\<close>

lemma loadStoredSession_sole:
  assumes "sole i p"
  shows "in_company (sole_rely i) (\<lambda>q r. sole i q \<and> (\<forall>t s. r = Inr (t, s) \<longrightarrow> as_id s = rt_sessionId t \<and> stored_as t q))
    (loadStoredSession cp raw) p"
proof -
  let ?Q = "\<lambda>q r. sole i q \<and> (\<forall>t s. r = Inr (t, s) \<longrightarrow> as_id s = rt_sessionId t \<and> stored_as t q)"
  have found: "in_company (sole_rely i) ?Q (io_bind (query (session_of (rt_sessionId t))) (\<lambda>session. case session of
      None \<Rightarrow> Return session_expired | Some s \<Rightarrow> Return (Inr (t, s)))) q"
    if q: "sole i q" "stored_as t q" for t q
  proof (rule sole.company_bind_query)
    fix r assume "sole_rely i q r"
    with q have r: "sole i r" "stored_as t r" by (auto simp: sole_rely_def intro: stored_as_later)
    then have later: "sole i u \<and> stored_as t u" if "sole_rely i r u" for u
      using that by (auto simp: sole_rely_def intro: stored_as_later)
    show "in_company (sole_rely i) ?Q (case session_of (rt_sessionId t) r of
        None \<Rightarrow> Return session_expired | Some s \<Rightarrow> Return (Inr (t, s))) r"
      using later by (auto simp: session_expired_def session_of_def dest!: find_row_SomeD split: option.splits)
  qed
  show ?thesis
    unfolding loadStoredSession_def findUniqueByTokenHash_def session_findUniqueById_def
  proof (rule sole.company_bind_query)
    fix q assume "sole_rely i p q"
    with assms have q: "sole i q" by (simp add: sole_rely_def)
    then have stay: "sole i u" if "sole_rely i q u" for u using that by (simp add: sole_rely_def)
    from q have "distinct_by rt_id (pf_tokens q)" by (simp add: sole_def)
    note stored = stored_as_found[OF this]
    show "in_company (sole_rely i) ?Q (case token_of (cp_hash cp raw) q of None \<Rightarrow> Return session_expired
      | Some t \<Rightarrow> io_bind (query (session_of (rt_sessionId t))) (\<lambda>session. case session of
          None \<Rightarrow> Return session_expired | Some s \<Rightarrow> Return (Inr (t, s)))) q"
      using stay by (auto simp: session_expired_def intro!: found q stored split: option.splits)
  qed
qed

lemma keeps_sole_refresh:
  assumes "sole i p"
  shows "keeps_sole i (refreshToken cp presented) p"
proof -
  have lost: "keeps_sole i (recoverAfterLostRace cp raw) q" if "sole i q" for raw q
    unfolding recoverAfterLostRace_def
    by (rule sole.company_try[OF loadStoredSession_sole[OF that]]) (auto intro: keeps_sole_recover)
  have rot: "keeps_sole i (rotate_token cp t s raw) q"
    if q: "sole i q" "stored_as t q" "as_id s = rt_sessionId t" for t s raw q
  proof -
    let ?K = "\<lambda>q. sole i q \<and> stored_as t q"
    have K: "?K r" if "?K q" "sole_rely i q r" for q r
      using that by (auto simp: sole_rely_def intro: stored_as_later)
    have pair: "in_company (sole_rely i) (\<lambda>r x. (\<forall>tp. x = Inr tp \<longrightarrow> rt_sessionId (tp_refreshToken tp) = as_id s))
        (build_pair cp c (as_id s) e w) r" for c e w r
      unfolding build_pair_def signAccessToken_def
      by (auto intro!: sole.company_try_query sole.company_bind_query simp: RefreshToken_create_def split: sum.splits)
    have won: "in_company (sole_rely i) (\<lambda>_ _. True)
       (io_try (call (rotate cp (markAsRotated now t) (tp_refreshToken tp))) (\<lambda>rotated.
          if \<not> rotated then recoverAfterLostRace cp raw
          else io_bind (run_call (session_update (session_renew e now s))) (\<lambda>_.
             Return (Inr \<lparr>iss_accessToken = tp_accessToken tp, iss_refreshToken = tp_rawRefreshToken tp\<rparr>)))) r"
      if "?K r" "rt_sessionId (tp_refreshToken tp) = as_id s" for now tp e r
    proof (rule sole.company_try_call)
      fix u assume "sole_rely i r u"
      with K that(1) have u: "?K u" by blast
      then have "stored_as (markAsRotated now t) u" by (simp add: stored_as_def markAsRotated_def)
      with that(2) q(3) have rotated: "sole_rely i u (fst (rotate cp (markAsRotated now t) (tp_refreshToken tp) u))"
        by (intro sole_rotate) (simp_all add: markAsRotated_def)
      with u have "sole i (fst (rotate cp (markAsRotated now t) (tp_refreshToken tp) u))" by (simp add: sole_rely_def)
      then show "sole_rely i u (fst (rotate cp (markAsRotated now t) (tp_refreshToken tp) u)) \<and>
         (case snd (rotate cp (markAsRotated now t) (tp_refreshToken tp) u) of
            Inl err \<Rightarrow> keeps_sole i (Return (Inl err)) (fst (rotate cp (markAsRotated now t) (tp_refreshToken tp) u))
          | Inr rotated \<Rightarrow> keeps_sole i (if \<not> rotated then recoverAfterLostRace cp raw
              else io_bind (run_call (session_update (session_renew e now s))) (\<lambda>_.
                Return (Inr \<lparr>iss_accessToken = tp_accessToken tp, iss_refreshToken = tp_rawRefreshToken tp\<rparr>)))
              (fst (rotate cp (markAsRotated now t) (tp_refreshToken tp) u)))"
        using rotated by (auto intro: lost keeps_sole_intros split: sum.splits)
    qed
    have K1: "?K q" using q by simp
    show ?thesis
      unfolding rotate_token_def
    proof (rule sole.company_try_stable[where K = ?K, OF keeps_sole_resolveContext K1 K])
      fix c r assume r: "?K r"
      show "keeps_sole i (io_bind (query (cp_expiresAt cp \<circ> pf_now)) (\<lambda>e.
          io_try (build_pair cp (claimsOf c) (as_id s) e (cp_successorOf cp raw)) (\<lambda>tp.
          io_bind (query pf_now) (\<lambda>now.
          io_try (call (rotate cp (markAsRotated now t) (tp_refreshToken tp))) (\<lambda>rotated.
            if \<not> rotated then recoverAfterLostRace cp raw
            else io_bind (run_call (session_update (session_renew e now s))) (\<lambda>_.
              Return (Inr \<lparr>iss_accessToken = tp_accessToken tp, iss_refreshToken = tp_rawRefreshToken tp\<rparr>))))))) r"
        by (rule sole.company_query_stable[where K = ?K, OF r K], assumption+,
            rule sole.company_try_stable[where K = ?K, OF pair _ K], assumption+, simp,
            rule sole.company_query_stable[where K = ?K, OF _ K], assumption+, rule won, simp_all)
    qed simp_all
  qed
  show ?thesis
    unfolding refreshToken_def Let_def
    by (auto intro!: sole.company_try[OF loadStoredSession_sole[OF assms]] keeps_sole_recover rot)
qed

lemma keeps_sole_issue:
  assumes "sole i p"
  shows "keeps_sole i (issueAuthSession cp c agent) p"
proof -
  have create: "in_company (sole_rely i) (\<lambda>q r. \<forall>s. r = Inr s \<longrightarrow> as_id s \<noteq> i) (call (session_create cp s)) q"
    if "sole i q" for s q
    unfolding call_def
  proof (simp, intro allI impI conjI sole_session_create)
    fix u v s' assume "sole_rely i q u" "snd (session_create cp s u) = Inr s'"
    with that show "as_id s' \<noteq> i"
      by (auto simp: sole_rely_def sole_def session_create_def atomically_def Let_def duplicate_key_def foreign_key_def
          split: sum.splits if_splits)
  qed
  have create: "in_company (sole_rely i) (\<lambda>q r. \<forall>s. r = Inr s \<longrightarrow> as_id s \<noteq> i) (createSession cp (cl_sub c) agent) p"
    unfolding createSession_def
  proof (intro sole.company_bind_query sole.company_try_query)
    fix u v e assume "sole_rely i p u" "sole_rely i u v"
    with assms have "sole i v" by (simp add: sole_rely_def)
    from create[OF this] show "case AuthSession_create (pf_now v) (cl_sub c) agent ((cp_expiresAt cp \<circ> pf_now) u) of
        Inl e \<Rightarrow> in_company (sole_rely i) (\<lambda>q r. \<forall>s. r = Inr s \<longrightarrow> as_id s \<noteq> i) (Return (Inl e)) v
      | Inr s \<Rightarrow> in_company (sole_rely i) (\<lambda>q r. \<forall>s. r = Inr s \<longrightarrow> as_id s \<noteq> i) (call (session_create cp s)) v"
      by (simp split: sum.splits)
  qed
  have pair: "in_company (sole_rely i) (\<lambda>r x. (\<forall>tp. x = Inr tp \<longrightarrow> rt_sessionId (tp_refreshToken tp) = k))
      (build_pair cp c k e w) r" for k e w r
    unfolding build_pair_def signAccessToken_def
    by (auto intro!: sole.company_try_query sole.company_bind_query simp: RefreshToken_create_def split: sum.splits)
  show ?thesis
    unfolding issueAuthSession_def
    by (auto intro!: sole.company_try[OF create] keeps_sole_intros sole.company_try[OF pair] sole_token_create)
qed

lemma keeps_sole_handle:
  assumes "sole i p"
  shows "keeps_sole i (handle cp req) p"
proof -
  have K: "sole i r" if "sole i q" "sole_rely i q r" for q r using that by (simp add: sole_rely_def)
  show ?thesis
  proof (cases req)
    case (Refresh presented)
    with keeps_sole_refresh[OF assms] show ?thesis by (simp add: answering_def sole.company_map)
  next
    case (Login email password agent)
    have credentials: "keeps_sole i (validateCredentials cp email password) q" for q
      unfolding validateCredentials_def by (auto intro!: keeps_sole_intros)
    have "keeps_sole i (loginUser cp email password agent) p"
      unfolding loginUser_def
      by (rule sole.company_try_stable[where K = "sole i", OF keeps_sole_Return assms K], assumption+, simp,
          rule sole.company_try_stable[where K = "sole i", OF credentials _ K], assumption+, simp,
          unfold io_try_def, rule sole.company_query_stable[where K = "sole i", OF _ K], assumption+,
          auto intro: keeps_sole_issue split: sum.splits option.splits)
    with Login show ?thesis by (simp add: answering_def sole.company_map)
  next
    case (Logout presented)
    have "keeps_sole i (logoutUser cp presented) p"
      unfolding logoutUser_def by (auto intro!: keeps_sole_intros)
    with Logout show ?thesis by (simp add: answering_def sole.company_map)
  next
    case (SwitchWorkspace ws sub)
    have "keeps_sole i (switchWorkspace cp ws sub) p"
      unfolding switchWorkspace_def io_try_def
      by (rule sole.company_query_stable[where K = "sole i", OF assms K], assumption+, simp split: sum.splits option.splits,
          intro allI impI, rule sole.company_query_stable[where K = "sole i", OF _ K], assumption+, simp split: sum.splits option.splits,
          intro allI impI, rule sole.company_query_stable[where K = "sole i", OF _ K], assumption+,
          auto intro: keeps_sole_issue split: sum.splits option.splits)
    with SwitchWorkspace show ?thesis by (simp add: answering_def sole.company_map)
  next
    case (Register email name password)
    have "keeps_sole i (createUser cp email name password) p"
      unfolding createUser_def by (auto intro!: keeps_sole_intros)
    with Register show ?thesis by (simp add: answering_def sole.company_map)
  qed
qed

end
