(* ===== verification/SessionRotation.thy ===== *)
theory SessionRotation
  imports SessionContracts
begin

text \<open>
  Requests that present the same refresh token at the same time (two tabs of a
  browser, a retried call). One of them wins the rotation, the others find the token
  rotated and recover its successor within the grace period, so all of them are
  answered with the same new refresh token.
\<close>

section \<open>The scene\<close>

text \<open>
  What the requests have in common: the session, the id of the token they present,
  its user with his default workspace, and the instant from which the grace period
  is counted.
\<close>

record scene =
  sc_session :: string
  sc_token :: string
  sc_user :: user
  sc_member :: workspace_user
  sc_workspaceName :: string
  sc_start :: int

definition sc_deadline :: "scene \<Rightarrow> int" where
  "sc_deadline sc = sc_start sc + REFRESH_TOKEN_REUSE_GRACE_SECONDS * 1000"

definition good_session :: "scene \<Rightarrow> auth_session \<Rightarrow> bool" where
  "good_session sc s = (as_id s = sc_session sc \<and> as_userId s = us_id (sc_user sc) \<and> as_revokedAt s = None
     \<and> sc_deadline sc \<le> as_expiresAt s)"

definition usable :: "scene \<Rightarrow> platform \<Rightarrow> bool" where
  "usable sc p = ((\<exists>s. session_of (sc_session sc) p = Some s \<and> good_session sc s)
     \<and> user_findUniqueById (us_id (sc_user sc)) p = Inr (Some (sc_user sc))
     \<and> findDefaultWorkspaceByUserId (us_id (sc_user sc)) p = Inr (Some (sc_member sc, sc_workspaceName sc))
     \<and> sc_start sc \<le> pf_now p \<and> pf_now p < sc_deadline sc)"

definition live_token :: "scene \<Rightarrow> refresh_token \<Rightarrow> bool" where
  "live_token sc t = (rt_sessionId t = sc_session sc \<and> rt_status t = ACTIVE \<and> sc_deadline sc \<le> rt_expiresAt t)"

definition replaced_token :: "scene \<Rightarrow> refresh_token \<Rightarrow> bool" where
  "replaced_token sc t = (rt_sessionId t = sc_session sc \<and> rt_status t = ROTATED
     \<and> (\<exists>n \<ge> sc_start sc. rt_rotatedAt t = Some n))"

text \<open>Before the rotation, and after it.\<close>

definition unrotated :: "crypto \<Rightarrow> string \<Rightarrow> scene \<Rightarrow> platform \<Rightarrow> bool" where
  "unrotated cp raw sc p =
     ((\<exists>t. token_of (cp_hash cp raw) p = Some t \<and> rt_id t = sc_token sc \<and> live_token sc t)
      \<and> token_of (cp_hash cp (cp_successorOf cp raw)) p = None
      \<and> distinct_by rt_id (pf_tokens p)
      \<and> (\<forall>n \<ge> pf_drawn p. token_by_id p (cp_uuid cp n) = None))"

definition rotated :: "crypto \<Rightarrow> string \<Rightarrow> scene \<Rightarrow> platform \<Rightarrow> bool" where
  "rotated cp raw sc p =
     ((\<exists>t. token_of (cp_hash cp raw) p = Some t \<and> rt_id t = sc_token sc \<and> replaced_token sc t)
      \<and> (\<exists>t. token_of (cp_hash cp (cp_successorOf cp raw)) p = Some t \<and> live_token sc t)
      \<and> (\<forall>t\<in>set (pf_tokens p). rt_id t = sc_token sc \<longrightarrow> rt_status t \<noteq> ACTIVE))"

definition on_scene :: "crypto \<Rightarrow> string \<Rightarrow> scene \<Rightarrow> platform \<Rightarrow> bool" where
  "on_scene cp raw sc p = (usable sc p \<and> (unrotated cp raw sc p \<or> rotated cp raw sc p))"

definition scene_rely :: "crypto \<Rightarrow> string \<Rightarrow> scene \<Rightarrow> platform \<Rightarrow> platform \<Rightarrow> bool" where
  "scene_rely cp raw sc p p' = (on_scene cp raw sc p \<longrightarrow>
     on_scene cp raw sc p' \<and> (rotated cp raw sc p \<longrightarrow> rotated cp raw sc p'))"

text \<open>Time passes, but the grace period does not end.\<close>

definition tick_within :: "scene \<Rightarrow> platform \<Rightarrow> platform \<Rightarrow> bool" where
  "tick_within sc p p' = (\<exists>n. pf_now p \<le> n \<and> n < sc_deadline sc \<and> p' = p\<lparr>pf_now := n\<rparr>)"

interpretation scene: rely "scene_rely cp raw sc"
  by unfold_locales (auto simp: scene_rely_def)

text \<open>The calls of the scene change neither users nor members nor workspaces.\<close>

lemma same_people:
  assumes "pf_users p' = pf_users p" "pf_members p' = pf_members p" "pf_workspaces p' = pf_workspaces p"
  shows "user_findUniqueById i p' = user_findUniqueById i p"
    "findDefaultWorkspaceByUserId i p' = findDefaultWorkspaceByUserId i p"
  unfolding user_findUniqueById_def findDefaultWorkspaceByUserId_def assms by (rule refl)+

lemma same_session: "pf_sessions p' = pf_sessions p \<Longrightarrow> session_of k p' = session_of k p"
  by (simp add: session_of_def)

lemma unrotated_same: "pf_tokens p' = pf_tokens p \<Longrightarrow> pf_drawn p' = pf_drawn p \<Longrightarrow>
    unrotated cp raw sc p' = unrotated cp raw sc p"
  by (simp add: unrotated_def token_of_def token_by_id_def)

lemma rotated_same: "pf_tokens p' = pf_tokens p \<Longrightarrow> rotated cp raw sc p' = rotated cp raw sc p"
  by (simp add: rotated_def token_of_def)

lemma tick_within_rely: "tick_within sc \<le> scene_rely cp raw sc"
proof (rule predicate2I)
  fix p p' assume "tick_within sc p p'"
  then obtain n where n: "pf_now p \<le> n" "n < sc_deadline sc" "p' = p\<lparr>pf_now := n\<rparr>" by (auto simp: tick_within_def)
  then have "pf_users p' = pf_users p" "pf_members p' = pf_members p" "pf_workspaces p' = pf_workspaces p"
    "pf_sessions p' = pf_sessions p" "pf_tokens p' = pf_tokens p" "pf_drawn p' = pf_drawn p" by simp_all
  note same = same_people[OF this(1-3)] same_session[OF this(4)] unrotated_same[OF this(5,6)] rotated_same[OF this(5)]
  from n have "pf_now p \<le> pf_now p'" "pf_now p' < sc_deadline sc" by simp_all
  then show "scene_rely cp raw sc p p'"
    unfolding scene_rely_def on_scene_def usable_def same by auto
qed

lemma on_scene_move:
  "on_scene cp raw sc p \<Longrightarrow> scene_rely cp raw sc p p' \<Longrightarrow> on_scene cp raw sc p'"
  "on_scene cp raw sc p \<and> rotated cp raw sc p \<Longrightarrow> scene_rely cp raw sc p p' \<Longrightarrow> on_scene cp raw sc p' \<and> rotated cp raw sc p'"
  by (simp_all add: scene_rely_def)

lemma on_sceneD:
  assumes "on_scene cp raw sc p"
  shows "\<exists>s. session_of (sc_session sc) p = Some s \<and> good_session sc s"
    "user_findUniqueById (us_id (sc_user sc)) p = Inr (Some (sc_user sc))"
    "findDefaultWorkspaceByUserId (us_id (sc_user sc)) p = Inr (Some (sc_member sc, sc_workspaceName sc))"
    "sc_start sc \<le> pf_now p" "pf_now p < sc_deadline sc"
    "\<exists>t. token_of (cp_hash cp raw) p = Some t \<and> rt_id t = sc_token sc \<and> (live_token sc t \<or> replaced_token sc t \<and> rotated cp raw sc p)"
  using assms by (auto simp: on_scene_def usable_def unrotated_def rotated_def)

lemma good_session_valid: "good_session sc s \<Longrightarrow> n < sc_deadline sc \<Longrightarrow> session_isValid n s"
  by (simp add: good_session_def session_isValid_def session_isRevoked_def session_isExpired_def)

lemma live_token_valid: "live_token sc t \<Longrightarrow> n < sc_deadline sc \<Longrightarrow> token_isValid n t"
  by (simp add: live_token_def token_isValid_def token_isActive_def token_isExpired_def)

section \<open>The calls of one request\<close>

abbreviation sc_claims :: "scene \<Rightarrow> claims" where
  "sc_claims sc \<equiv> claimsOf (sc_user sc, sc_member sc, sc_workspaceName sc)"

lemma scene_resolveContext:
  assumes "on_scene cp raw sc p" "live_token sc t" "good_session sc s"
  shows "in_company (scene_rely cp raw sc)
    (\<lambda>q r. r = Inr (sc_user sc, sc_member sc, sc_workspaceName sc)) (resolveContext t s) p"
proof -
  note K = on_scene_move(1)[of cp raw sc]
  from assms(3) have uid: "as_userId s = us_id (sc_user sc)" by (simp add: good_session_def)
  let ?Q = "\<lambda>q r. r = Inr (sc_user sc, sc_member sc, sc_workspaceName sc)"
  have members: "in_company (scene_rely cp raw sc) ?Q
      (io_try (query (findDefaultWorkspaceByUserId (us_id (sc_user sc)))) (\<lambda>m. case m of
         None \<Rightarrow> Return session_expired | Some (member, name) \<Rightarrow> Return (Inr (sc_user sc, member, name)))) q"
    if "on_scene cp raw sc q" for q
    using on_sceneD(3)[OF K[OF that]] by (auto intro!: scene.company_try_query)
  have users: "in_company (scene_rely cp raw sc) ?Q
      (io_try (query (user_findUniqueById (us_id (sc_user sc)))) (\<lambda>u. case u of
         None \<Rightarrow> Return (left_user UserNotFoundError)
       | Some user \<Rightarrow> io_try (query (findDefaultWorkspaceByUserId (us_id user))) (\<lambda>m. case m of
             None \<Rightarrow> Return session_expired | Some (member, name) \<Rightarrow> Return (Inr (user, member, name))))) q"
    if "on_scene cp raw sc q" for q
    using on_sceneD(2)[OF K[OF that]] members K[OF that] by (auto intro!: scene.company_try_query)
  show ?thesis
    unfolding resolveContext_def
  proof (rule scene.company_bind_query)
    fix q assume "scene_rely cp raw sc p q"
    with assms(1) have q: "on_scene cp raw sc q" by (rule K)
    with on_sceneD(5)[OF q] live_token_valid[OF assms(2)] good_session_valid[OF assms(3)]
    show "in_company (scene_rely cp raw sc) ?Q
      (if \<not> token_isValid (pf_now q) t \<or> \<not> session_isValid (pf_now q) s then Return session_expired
       else io_try (query (user_findUniqueById (as_userId s))) (\<lambda>u. case u of
              None \<Rightarrow> Return (left_user UserNotFoundError)
            | Some user \<Rightarrow> io_try (query (findDefaultWorkspaceByUserId (us_id user))) (\<lambda>m. case m of
                  None \<Rightarrow> Return session_expired | Some (member, name) \<Rightarrow> Return (Inr (user, member, name))))) q"
      using users by (simp add: uid)
  qed
qed

text \<open>A request that finds the token rotated is answered with the successor.\<close>

definition answered :: "crypto \<Rightarrow> string \<Rightarrow> scene \<Rightarrow> platform \<Rightarrow> issued either \<Rightarrow> bool" where
  "answered cp raw sc p r = (\<exists>n. r = Inr \<lparr>iss_accessToken = cp_encrypt cp (sc_claims sc) n,
      iss_refreshToken = cp_successorOf cp raw\<rparr>)"

lemma scene_recover:
  assumes "on_scene cp raw sc p" "rotated cp raw sc p" "replaced_token sc t" "good_session sc s"
  shows "in_company (scene_rely cp raw sc) (answered cp raw sc) (recoverReusedToken cp t s raw) p"
proof -
  note K = on_scene_move(2)[of cp raw sc]
  have grace: "isWithinReuseGrace n t" "\<not> token_isRevoked t" if "n < sc_deadline sc" for n
    using assms(3) that by (auto simp: replaced_token_def isWithinReuseGrace_def token_isRotated_def
        token_isRevoked_def sc_deadline_def)
  have sign: "in_company (scene_rely cp raw sc) (answered cp raw sc)
      (io_try (resolveContext u s) (\<lambda>c. io_bind (signAccessToken cp (claimsOf c)) (\<lambda>a.
         Return (Inr \<lparr>iss_accessToken = a, iss_refreshToken = cp_successorOf cp raw\<rparr>)))) q"
    if "on_scene cp raw sc q" "live_token sc u" for u q
    unfolding signAccessToken_def
    by (rule scene.company_try[OF scene_resolveContext[OF that assms(4)]])
       (auto intro!: scene.company_bind_query simp: answered_def)
  have head: "in_company (scene_rely cp raw sc)
      (\<lambda>q r. (\<exists>u. r = Some (cp_successorOf cp raw, u) \<and> live_token sc u))
      (findHead cp t MAX_REFRESH_TOKEN_SUCCESSOR_HOPS raw) q"
    if "on_scene cp raw sc q \<and> rotated cp raw sc q" for q
  proof -
    have hops: "MAX_REFRESH_TOKEN_SUCCESSOR_HOPS = Suc 2" by (simp add: MAX_REFRESH_TOKEN_SUCCESSOR_HOPS_def)
    show ?thesis
      unfolding hops findHead.simps Let_def findUniqueByTokenHash_def
    proof (rule scene.company_bind_query)
      fix r assume "scene_rely cp raw sc q r"
      with that have "on_scene cp raw sc r \<and> rotated cp raw sc r" by (rule K)
      then obtain u where "token_of (cp_hash cp (cp_successorOf cp raw)) r = Some u" "live_token sc u"
        by (auto simp: rotated_def)
      with assms(3) show "in_company (scene_rely cp raw sc)
          (\<lambda>q r. (\<exists>u. r = Some (cp_successorOf cp raw, u) \<and> live_token sc u))
          (case token_of (cp_hash cp (cp_successorOf cp raw)) r of None \<Rightarrow> Return None
           | Some c \<Rightarrow> if rt_sessionId c \<noteq> rt_sessionId t then Return None
               else if token_isActive c then Return (Some (cp_successorOf cp raw, c))
               else if \<not> token_isRotated c then Return None
               else findHead cp t 2 (cp_successorOf cp raw)) r"
        by (simp add: live_token_def replaced_token_def token_isActive_def)
    qed
  qed
  have follow: "in_company (scene_rely cp raw sc) (answered cp raw sc)
      (io_bind (findHead cp t MAX_REFRESH_TOKEN_SUCCESSOR_HOPS raw) (\<lambda>head. case head of
         None \<Rightarrow> revokeFamily s
       | Some (headRaw, headToken) \<Rightarrow>
           io_try (resolveContext headToken s) (\<lambda>c. io_bind (signAccessToken cp (claimsOf c)) (\<lambda>access.
           Return (Inr \<lparr>iss_accessToken = access, iss_refreshToken = headRaw\<rparr>))))) q"
    if q: "on_scene cp raw sc q \<and> rotated cp raw sc q" for q
  proof (rule scene.company_bind[OF scene.company_stable[where K = "on_scene cp raw sc", OF head[OF q]]])
    show "on_scene cp raw sc q" using q ..
  qed (erule on_scene_move(1), assumption, auto intro: sign)
  show ?thesis
    unfolding recoverReusedToken_def
  proof (rule scene.company_bind_query)
    fix q assume "scene_rely cp raw sc p q"
    from K[OF conjI[OF assms(1,2)] this] have q: "on_scene cp raw sc q \<and> rotated cp raw sc q" .
    then have now: "pf_now q < sc_deadline sc" by (blast dest: on_sceneD(5))
    from grace[OF now] good_session_valid[OF assms(4) now] follow[OF q]
    show "in_company (scene_rely cp raw sc) (answered cp raw sc)
      (if token_isRevoked t then revokeFamily s
       else if \<not> isWithinReuseGrace (pf_now q) t then revokeFamily s
       else if \<not> session_isValid (pf_now q) s then revokeFamily s
       else io_bind (findHead cp t MAX_REFRESH_TOKEN_SUCCESSOR_HOPS raw) (\<lambda>head. case head of
              None \<Rightarrow> revokeFamily s
            | Some (headRaw, headToken) \<Rightarrow>
                io_try (resolveContext headToken s) (\<lambda>context. io_bind (signAccessToken cp (claimsOf context)) (\<lambda>access.
                Return (Inr \<lparr>iss_accessToken = access, iss_refreshToken = headRaw\<rparr>))))) q"
      by (simp only: if_False not_True_eq_False)
  qed
qed

section \<open>The rotation itself\<close>

lemma scene_load:
  assumes "on_scene cp raw sc p"
  shows "in_company (scene_rely cp raw sc)
    (\<lambda>q r. \<exists>t s. r = Inr (t, s) \<and> good_session sc s \<and> rt_id t = sc_token sc
        \<and> (live_token sc t \<or> replaced_token sc t \<and> rotated cp raw sc q)
        \<and> (rotated cp raw sc p \<longrightarrow> replaced_token sc t))
    (loadStoredSession cp raw) p"
proof -
  let ?Q = "\<lambda>q r. \<exists>t s. r = Inr (t, s) \<and> good_session sc s \<and> rt_id t = sc_token sc
        \<and> (live_token sc t \<or> replaced_token sc t \<and> rotated cp raw sc q)
        \<and> (rotated cp raw sc p \<longrightarrow> replaced_token sc t)"
  note K = on_scene_move(1)[of cp raw sc]
  have sess: "in_company (scene_rely cp raw sc) ?Q (io_bind (query (session_of (sc_session sc))) (\<lambda>session. case session of
      None \<Rightarrow> Return session_expired | Some s \<Rightarrow> Return (Inr (t, s)))) q"
    if q: "on_scene cp raw sc q" "rt_id t = sc_token sc" "live_token sc t \<or> replaced_token sc t \<and> rotated cp raw sc q"
      "rotated cp raw sc p \<longrightarrow> replaced_token sc t" for t q
  proof (rule scene.company_bind_query)
    fix u assume u: "scene_rely cp raw sc q u"
    from on_sceneD(1)[OF K[OF q(1) u]] obtain s where s: "session_of (sc_session sc) u = Some s" "good_session sc s" by blast
    have "rotated cp raw sc v" if "scene_rely cp raw sc u v" "rotated cp raw sc q" for v
      using scene.rely_trans[OF u that(1)] q(1) that(2) by (simp add: scene_rely_def)
    with s q show "in_company (scene_rely cp raw sc) ?Q (case session_of (sc_session sc) u of
        None \<Rightarrow> Return session_expired | Some s \<Rightarrow> Return (Inr (t, s))) u"
      by auto
  qed
  show ?thesis
    unfolding loadStoredSession_def findUniqueByTokenHash_def session_findUniqueById_def
  proof (rule scene.company_bind_query)
    fix q assume m: "scene_rely cp raw sc p q"
    with assms have q: "on_scene cp raw sc q" by (rule K)
    from on_sceneD(6)[OF q] obtain t where t: "token_of (cp_hash cp raw) q = Some t" "rt_id t = sc_token sc"
      "live_token sc t \<or> replaced_token sc t \<and> rotated cp raw sc q" by blast
    then have "rt_sessionId t = sc_session sc" by (auto simp: live_token_def replaced_token_def)
    moreover from t(1) m assms have "rotated cp raw sc p \<longrightarrow> replaced_token sc t"
      by (auto simp: scene_rely_def rotated_def)
    ultimately show "in_company (scene_rely cp raw sc) ?Q (case token_of (cp_hash cp raw) q of
        None \<Rightarrow> Return session_expired
      | Some storedToken \<Rightarrow> io_bind (query (session_of (rt_sessionId storedToken))) (\<lambda>session. case session of
          None \<Rightarrow> Return session_expired | Some s \<Rightarrow> Return (Inr (storedToken, s)))) q"
      using t sess[OF q t(2,3)] by simp
  qed
qed

text \<open>
  The compare-and-set: in the state before the rotation it wins and leads to the
  state after it, in the state after it it changes nothing.
\<close>

lemma mark_rotated_token_of:
  "token_of h (mark_rotated cur p) = map_option (\<lambda>t. if rt_id t = rt_id cur \<and> rt_status t = ACTIVE
     then t\<lparr>rt_status := ROTATED, rt_rotatedAt := rt_rotatedAt cur\<rparr> else t) (token_of h p)"
  unfolding token_of_def mark_rotated_def by (simp add: find_row_update_pred)

lemma scene_rotate:
  assumes "on_scene cp raw sc p" "rt_id cur = sc_token sc" "rt_rotatedAt cur = Some n" "sc_start sc \<le> n"
    and "live_token sc nxt" "rt_id nxt = []" "rt_tokenHash nxt = cp_hash cp (cp_successorOf cp raw)"
    and "cp_hash cp raw \<noteq> cp_hash cp (cp_successorOf cp raw)"
  obtains b where "snd (rotate cp cur nxt p) = Inr b" "rotated cp raw sc (fst (rotate cp cur nxt p))"
    "on_scene cp raw sc (fst (rotate cp cur nxt p))"
proof (cases "rotated cp raw sc p")
  case True
  with assms(2) have "rotate cp cur nxt p = (p, Inr False)"
    by (auto simp: rotate_def atomically_def list_ex_iff rotated_def)
  with True assms(1) show thesis by (intro that[of False]) simp_all
next
  case False
  with assms(1) have u: "unrotated cp raw sc p" "usable sc p" by (auto simp: on_scene_def)
  then obtain t where t: "token_of (cp_hash cp raw) p = Some t" "rt_id t = sc_token sc" "live_token sc t"
    and free: "token_of (cp_hash cp (cp_successorOf cp raw)) p = None" and ids: "distinct_by rt_id (pf_tokens p)"
    and uuid: "token_by_id p (cp_uuid cp (pf_drawn p)) = None" by (auto simp: unrotated_def)
  from t(1) have "t \<in> set (pf_tokens p)" by (auto simp: token_of_def dest: find_row_SomeD)
  with t(2,3) assms(2) have act: "list_ex (\<lambda>t. rt_id t = rt_id cur \<and> rt_status t = ACTIVE) (pf_tokens p)"
    by (auto simp: list_ex_iff live_token_def)
  let ?q = "mark_rotated cur p"
  have "find_row (\<lambda>r. rt_id r = cp_uuid cp (pf_drawn ?q)) (pf_tokens ?q) = None"
    using uuid by (simp add: mark_rotated_def token_by_id_def find_row_update_pred)
  moreover have "token_of (rt_tokenHash nxt) ?q = None" using free assms(7) by (simp add: mark_rotated_token_of)
  moreover have "session_of (rt_sessionId nxt) ?q \<noteq> None"
    using u(2) assms(5) by (auto simp: usable_def live_token_def mark_rotated_def session_of_def)
  ultimately have ins: "insert_token cp nxt ?q = Inr (?q\<lparr>pf_tokens := pf_tokens ?q @ [nxt\<lparr>rt_id := cp_uuid cp (pf_drawn p)\<rparr>],
      pf_drawn := Suc (pf_drawn p)\<rparr>)"
    using assms(6) by (auto simp: insert_token_def Let_def mark_rotated_def)
  let ?r = "?q\<lparr>pf_tokens := pf_tokens ?q @ [nxt\<lparr>rt_id := cp_uuid cp (pf_drawn p)\<rparr>], pf_drawn := Suc (pf_drawn p)\<rparr>"
  have rot: "rotate cp cur nxt p = (?r, Inr True)"
    using act ins by (simp add: rotate_def atomically_def mark_rotated_def)
  have look: "token_of h ?r = (case token_of h ?q of None \<Rightarrow> if h = rt_tokenHash nxt then Some (nxt\<lparr>rt_id := cp_uuid cp (pf_drawn p)\<rparr>) else None
      | Some t \<Rightarrow> Some t)" for h
    by (simp add: token_of_def table_simps split: option.splits)
  have old: "\<exists>t. token_of (cp_hash cp raw) ?r = Some t \<and> rt_id t = sc_token sc \<and> replaced_token sc t"
    using t assms(2,3,4) by (simp add: look mark_rotated_token_of replaced_token_def live_token_def)
  have new: "\<exists>t. token_of (cp_hash cp (cp_successorOf cp raw)) ?r = Some t \<and> live_token sc t"
    using free assms(5,7) by (simp add: look mark_rotated_token_of live_token_def)
  have "cp_uuid cp (pf_drawn p) \<noteq> sc_token sc"
    using uuid t(2) \<open>t \<in> set (pf_tokens p)\<close> by (auto simp: token_by_id_def find_row_None_iff)
  then have "\<forall>t\<in>set (pf_tokens ?r). rt_id t = sc_token sc \<longrightarrow> rt_status t \<noteq> ACTIVE"
    using assms(2) by (auto simp: mark_rotated_def set_update_rows split: if_splits dest!: arg_cong[of _ _ rt_status])
  with old new have "rotated cp raw sc ?r" unfolding rotated_def by blast
  moreover have "usable sc ?r"
  proof -
    have "pf_users ?r = pf_users p" "pf_members ?r = pf_members p" "pf_workspaces ?r = pf_workspaces p"
      "pf_sessions ?r = pf_sessions p" "pf_now ?r = pf_now p" by (simp_all add: mark_rotated_def)
    note same = same_people[OF this(1-3)] same_session[OF this(4)] this(5)
    show ?thesis using u(2) unfolding usable_def same .
  qed
  ultimately show thesis using rot by (intro that[of True]) (simp_all add: on_scene_def)
qed

lemma scene_renew:
  assumes "on_scene cp raw sc p" "rotated cp raw sc p" "good_session sc s" "sc_deadline sc \<le> e"
  shows "on_scene cp raw sc (session_update (session_renew e n s) p) \<and> rotated cp raw sc (session_update (session_renew e n s) p)"
proof -
  let ?p = "session_update (session_renew e n s) p"
  have "pf_users ?p = pf_users p" "pf_members ?p = pf_members p" "pf_workspaces ?p = pf_workspaces p"
    "pf_tokens ?p = pf_tokens p" "pf_now ?p = pf_now p" by (simp_all add: session_update_def)
  note same = same_people[OF this(1-3)] this(5) and rot = rotated_same[OF this(4)]
  from on_sceneD(1)[OF assms(1)] obtain s0 where "session_of (sc_session sc) p = Some s0" "good_session sc s0" by blast
  with assms(3,4) have "\<exists>s. session_of (sc_session sc) ?p = Some s \<and> good_session sc s"
    by (auto simp: session_of_def session_update_def session_renew_def find_row_update_pred good_session_def)
  with assms(1,2) have "usable sc ?p" unfolding on_scene_def usable_def same by blast
  with assms(2) show ?thesis by (simp add: on_scene_def rot)
qed

text \<open>What the scene asks of the token, the hashes and the configured lifetime.\<close>

definition well_set :: "crypto \<Rightarrow> string \<Rightarrow> scene \<Rightarrow> bool" where
  "well_set cp raw sc = (raw \<noteq> [] \<and> sc_session sc \<noteq> [] \<and> cp_hash cp (cp_successorOf cp raw) \<noteq> []
     \<and> cp_hash cp raw \<noteq> cp_hash cp (cp_successorOf cp raw)
     \<and> (\<forall>n. sc_start sc \<le> n \<and> n < sc_deadline sc \<longrightarrow> sc_deadline sc \<le> cp_expiresAt cp n))"

abbreviation scene_answer :: "crypto \<Rightarrow> string \<Rightarrow> scene \<Rightarrow> platform \<Rightarrow> issued either \<Rightarrow> bool" where
  "scene_answer cp raw sc q r \<equiv> answered cp raw sc q r \<and> rotated cp raw sc q"

definition good_pair :: "crypto \<Rightarrow> string \<Rightarrow> scene \<Rightarrow> token_pair either \<Rightarrow> bool" where
  "good_pair cp raw sc r = (\<exists>tp m. r = Inr tp \<and> live_token sc (tp_refreshToken tp) \<and> rt_id (tp_refreshToken tp) = []
     \<and> rt_tokenHash (tp_refreshToken tp) = cp_hash cp (cp_successorOf cp raw)
     \<and> tp_accessToken tp = cp_encrypt cp (sc_claims sc) m \<and> tp_rawRefreshToken tp = cp_successorOf cp raw)"

lemma scene_recovered:
  assumes "on_scene cp raw sc p" "rotated cp raw sc p" "replaced_token sc t" "good_session sc s"
  shows "in_company (scene_rely cp raw sc) (scene_answer cp raw sc) (recoverReusedToken cp t s raw) p"
  using scene.company_stable[where K = "\<lambda>q. on_scene cp raw sc q \<and> rotated cp raw sc q",
      OF scene_recover[OF assms] conjI[OF assms(1,2)] on_scene_move(2)]
  by (rule scene.company_mono) simp_all

lemma scene_lost:
  assumes "on_scene cp raw sc p" "rotated cp raw sc p"
  shows "in_company (scene_rely cp raw sc) (scene_answer cp raw sc) (recoverAfterLostRace cp raw) p"
  unfolding recoverAfterLostRace_def
  by (rule scene.company_try_stable[where K = "\<lambda>q. on_scene cp raw sc q \<and> rotated cp raw sc q",
        OF scene_load[OF assms(1)] conjI[OF assms] on_scene_move(2)], assumption+)
     (use assms(2) scene_recovered in auto)

lemma scene_won:
  assumes "well_set cp raw sc" and q: "on_scene cp raw sc q" "rt_id t = sc_token sc" "good_session sc s"
    "sc_start sc \<le> n" "sc_deadline sc \<le> e" and "good_pair cp raw sc (Inr tp)"
  shows "in_company (scene_rely cp raw sc) (scene_answer cp raw sc)
       (io_try (call (rotate cp (markAsRotated n t) (tp_refreshToken tp))) (\<lambda>b.
          if \<not> b then recoverAfterLostRace cp raw
          else io_bind (run_call (session_update (session_renew e n s))) (\<lambda>_.
             Return (Inr \<lparr>iss_accessToken = tp_accessToken tp, iss_refreshToken = tp_rawRefreshToken tp\<rparr>)))) q"
proof -
  let ?R = "scene_rely cp raw sc" and ?Q = "scene_answer cp raw sc"
  note K = on_scene_move(1)[of cp raw sc] and K2 = on_scene_move(2)[of cp raw sc]
  from assms(1) have hash: "cp_hash cp raw \<noteq> cp_hash cp (cp_successorOf cp raw)" by (simp add: well_set_def)
  from assms(7) have tp: "live_token sc (tp_refreshToken tp)" "rt_id (tp_refreshToken tp) = []"
    "rt_tokenHash (tp_refreshToken tp) = cp_hash cp (cp_successorOf cp raw)"
    "\<exists>m. tp_accessToken tp = cp_encrypt cp (sc_claims sc) m" "tp_rawRefreshToken tp = cp_successorOf cp raw"
    by (auto simp: good_pair_def)
  show ?thesis
  proof (rule scene.company_try_call)
    fix u assume "?R q u"
    with q(1) have u: "on_scene cp raw sc u" by (rule K)
    let ?r = "rotate cp (markAsRotated n t) (tp_refreshToken tp) u"
    from scene_rotate[OF u _ _ q(4) tp(1,2,3) hash, of "markAsRotated n t"] q(2)
    obtain b where b: "snd ?r = Inr b" "rotated cp raw sc (fst ?r)" "on_scene cp raw sc (fst ?r)"
      by (auto simp: markAsRotated_def)
    have ret: "in_company ?R ?Q (io_bind (run_call (session_update (session_renew e n s))) (\<lambda>_.
        Return (Inr \<lparr>iss_accessToken = tp_accessToken tp, iss_refreshToken = tp_rawRefreshToken tp\<rparr>))) (fst ?r)"
      unfolding run_call_def
    proof (rule scene.company_bind_call, simp, intro conjI allI impI)
      fix v assume "?R (fst ?r) v"
      from K2[OF conjI[OF b(3,2)] this] scene_renew[of cp raw sc v s e n] q(3,5)
      have v: "on_scene cp raw sc (session_update (session_renew e n s) v) \<and> rotated cp raw sc (session_update (session_renew e n s) v)"
        by blast
      then show "?R v (session_update (session_renew e n s) v)" by (simp add: scene_rely_def)
      fix w assume "?R (session_update (session_renew e n s) v) w"
      from K2[OF v this] show "rotated cp raw sc w" by simp
      show "answered cp raw sc w (Inr \<lparr>iss_accessToken = tp_accessToken tp, iss_refreshToken = tp_rawRefreshToken tp\<rparr>)"
        using tp(4,5) by (auto simp: answered_def)
    qed
    have "?R u (fst ?r)" using b by (simp add: scene_rely_def)
    with b ret scene_lost[OF b(3,2)] show "?R u (fst ?r) \<and> (case snd ?r of Inl err \<Rightarrow> in_company ?R ?Q (Return (Inl err)) (fst ?r)
        | Inr b \<Rightarrow> in_company ?R ?Q (if \<not> b then recoverAfterLostRace cp raw
            else io_bind (run_call (session_update (session_renew e n s))) (\<lambda>_.
              Return (Inr \<lparr>iss_accessToken = tp_accessToken tp, iss_refreshToken = tp_rawRefreshToken tp\<rparr>))) (fst ?r))"
      by simp
  qed
qed

lemma scene_pair:
  assumes "well_set cp raw sc" "on_scene cp raw sc q" "sc_deadline sc \<le> e"
  shows "in_company (scene_rely cp raw sc) (\<lambda>_. good_pair cp raw sc)
    (build_pair cp (sc_claims sc) (sc_session sc) e (cp_successorOf cp raw)) q"
  unfolding build_pair_def
proof (rule scene.company_try_query)
  fix u assume "scene_rely cp raw sc q u"
  with assms(2) have "on_scene cp raw sc u" by (rule on_scene_move(1))
  from on_sceneD(5)[OF this] assms(1,3)
  show "case RefreshToken_create (pf_now u) (cp_hash cp (cp_successorOf cp raw)) (sc_session sc) e of
      Inl err \<Rightarrow> in_company (scene_rely cp raw sc) (\<lambda>_. good_pair cp raw sc) (Return (Inl err)) u
    | Inr t \<Rightarrow> in_company (scene_rely cp raw sc) (\<lambda>_. good_pair cp raw sc)
        (io_bind (signAccessToken cp (sc_claims sc)) (\<lambda>access. Return (Inr \<lparr>tp_accessToken = access,
           tp_rawRefreshToken = cp_successorOf cp raw, tp_refreshToken = t\<rparr>))) u"
    by (auto simp: RefreshToken_create_def signAccessToken_def live_token_def good_pair_def well_set_def
        intro!: scene.company_bind_query)
qed

text \<open>The calls of the winner between its context and the compare-and-set.\<close>

abbreviation rotation_tail :: "crypto \<Rightarrow> string \<Rightarrow> refresh_token \<Rightarrow> auth_session \<Rightarrow> int \<Rightarrow> token_pair \<Rightarrow> (platform, issued either) io" where
  "rotation_tail cp raw t s e tp \<equiv> io_bind (query pf_now) (\<lambda>n.
     io_try (call (rotate cp (markAsRotated n t) (tp_refreshToken tp))) (\<lambda>b.
       if \<not> b then recoverAfterLostRace cp raw
       else io_bind (run_call (session_update (session_renew e n s))) (\<lambda>_.
         Return (Inr \<lparr>iss_accessToken = tp_accessToken tp, iss_refreshToken = tp_rawRefreshToken tp\<rparr>))))"

lemma scene_tail:
  assumes "well_set cp raw sc" and q: "on_scene cp raw sc q" "rt_id t = sc_token sc" "good_session sc s"
    and "sc_deadline sc \<le> e" "good_pair cp raw sc (Inr tp)"
  shows "in_company (scene_rely cp raw sc) (scene_answer cp raw sc) (rotation_tail cp raw t s e tp) q"
proof (rule scene.company_bind_query)
  fix w assume "scene_rely cp raw sc q w"
  with q(1) have w: "on_scene cp raw sc w" by (rule on_scene_move(1))
  show "in_company (scene_rely cp raw sc) (scene_answer cp raw sc)
      (io_try (call (rotate cp (markAsRotated (pf_now w) t) (tp_refreshToken tp))) (\<lambda>b.
        if \<not> b then recoverAfterLostRace cp raw
        else io_bind (run_call (session_update (session_renew e (pf_now w) s))) (\<lambda>_.
          Return (Inr \<lparr>iss_accessToken = tp_accessToken tp, iss_refreshToken = tp_rawRefreshToken tp\<rparr>)))) w"
    by (rule scene_won[OF assms(1) w q(2,3) on_sceneD(4)[OF w] assms(5,6)])
qed

lemma scene_rotate_token:
  assumes "well_set cp raw sc" and q: "on_scene cp raw sc q" "rt_id t = sc_token sc" "live_token sc t" "good_session sc s"
  shows "in_company (scene_rely cp raw sc) (scene_answer cp raw sc) (rotate_token cp t s raw) q"
  unfolding rotate_token_def
proof (rule scene.company_try_stable[where K = "on_scene cp raw sc",
      OF scene_resolveContext[OF q(1,3,4)] q(1) on_scene_move(1)], assumption+, simp)
  fix c r assume c: "Inr c = (Inr (sc_user sc, sc_member sc, sc_workspaceName sc) :: (user \<times> workspace_user \<times> string) either)"
    and r: "on_scene cp raw sc r"
  from q(4) have as: "as_id s = sc_session sc" by (simp add: good_session_def)
  show "in_company (scene_rely cp raw sc) (scene_answer cp raw sc) (io_bind (query (cp_expiresAt cp \<circ> pf_now)) (\<lambda>e.
      io_try (build_pair cp (claimsOf c) (as_id s) e (cp_successorOf cp raw)) (rotation_tail cp raw t s e))) r"
  proof (rule scene.company_bind_query)
    fix u assume "scene_rely cp raw sc r u"
    with r have u: "on_scene cp raw sc u" by (rule on_scene_move(1))
    from assms(1) on_sceneD(4,5)[OF u] have e: "sc_deadline sc \<le> (cp_expiresAt cp \<circ> pf_now) u"
      by (simp add: well_set_def)
    show "in_company (scene_rely cp raw sc) (scene_answer cp raw sc)
        (io_try (build_pair cp (claimsOf c) (as_id s) ((cp_expiresAt cp \<circ> pf_now) u) (cp_successorOf cp raw))
           (rotation_tail cp raw t s ((cp_expiresAt cp \<circ> pf_now) u))) u"
      unfolding as Inr_inject[OF c]
    proof (rule scene.company_try_stable[where K = "on_scene cp raw sc",
          OF scene_pair[OF assms(1) u e] u on_scene_move(1)], assumption+)
    qed (simp add: good_pair_def, rule scene_tail[OF assms(1) _ q(2,4) e])
  qed
qed

lemma scene_refresh:
  assumes "well_set cp raw sc" and start: "on_scene cp raw sc p"
  shows "in_company (scene_rely cp raw sc) (scene_answer cp raw sc) (refreshToken cp (Some raw)) p"
proof -
  have "in_company (scene_rely cp raw sc) (scene_answer cp raw sc)
      (io_try (loadStoredSession cp raw) (\<lambda>(storedToken, session).
         if \<not> token_isActive storedToken then recoverReusedToken cp storedToken session raw
         else rotate_token cp storedToken session raw)) p"
    by (rule scene.company_try_stable[where K = "on_scene cp raw sc", OF scene_load[OF start] start on_scene_move(1)], assumption+)
       (auto intro!: scene_recovered scene_rotate_token[OF assms(1)]
         simp: live_token_def replaced_token_def token_isActive_def)
  with assms(1) show ?thesis by (simp add: refreshToken_def well_set_def falsy_def)
qed

section \<open>Following the successors of a token\<close>

lemma findHead_chain:
  assumes "k < hops"
    and "\<And>j. j < k \<Longrightarrow> \<exists>u. token_of (cp_hash cp ((cp_successorOf cp ^^ Suc j) raw)) p = Some u
            \<and> rt_sessionId u = rt_sessionId t \<and> token_isRotated u"
    and "token_of (cp_hash cp ((cp_successorOf cp ^^ Suc k) raw)) p = Some h" "rt_sessionId h = rt_sessionId t" "token_isActive h"
  shows "io_run (findHead cp t hops raw) p = (p, Some ((cp_successorOf cp ^^ Suc k) raw, h))"
  using assms
proof (induction k arbitrary: hops raw)
  case 0
  then show ?case by (cases hops) (simp_all add: Let_def findUniqueByTokenHash_def)
next
  case (Suc k)
  from Suc.prems(1) obtain n where n: "hops = Suc n" "k < n" by (cases hops) auto
  from Suc.prems(2)[of 0] obtain u where u: "token_of (cp_hash cp (cp_successorOf cp raw)) p = Some u"
    "rt_sessionId u = rt_sessionId t" "token_isRotated u" by auto
  then have "\<not> token_isActive u" by (simp add: token_isRotated_def token_isActive_def)
  have shift: "(cp_successorOf cp ^^ Suc j) (cp_successorOf cp raw) = (cp_successorOf cp ^^ Suc (Suc j)) raw" for j
    by (simp add: funpow_swap1)
  have "io_run (findHead cp t n (cp_successorOf cp raw)) p = (p, Some ((cp_successorOf cp ^^ Suc k) (cp_successorOf cp raw), h))"
    by (rule Suc.IH[OF n(2)]) (use Suc.prems(2)[of "Suc _"] Suc.prems(3-5) in \<open>auto simp only: shift Suc_less_eq\<close>)
  with u \<open>\<not> token_isActive u\<close> n(1) shift[of k] show ?case by (simp add: Let_def findUniqueByTokenHash_def)
qed

end
