(* ===== verification/SessionProperties.thy ===== *)
theory SessionProperties
  imports SessionRotation
begin

text \<open>
  The properties of the sessions: what any number of concurrent requests can make of
  refresh tokens, and what one request answers.
\<close>

section \<open>A concrete platform\<close>

text \<open>
  One user with his personal workspace, an open session and its only refresh token.
  Hashes and successors prefix a letter, so they are injective.
\<close>

definition demo_crypto :: crypto where
  "demo_crypto = \<lparr>cp_uuid = (\<lambda>n. CHR ''u'' # replicate n CHR ''u''), cp_generate = (\<lambda>n. CHR ''g'' # replicate n CHR ''g''),
     cp_successorOf = (\<lambda>raw. CHR ''s'' # raw), cp_hash = (\<lambda>raw. CHR ''h'' # raw), cp_encrypt = (\<lambda>c n. ''jwt''),
     cp_hashPassword = (\<lambda>plain n. plain), cp_comparePassword = (=), cp_expiresAt = (\<lambda>n. n + 2592000000)\<rparr>"

definition demo_user :: user where
  "demo_user = \<lparr>us_id = ''ana'', us_name = ''Anaa'', us_email = ''a@b.c'', us_passwordHash = ''pw'',
     us_phone = None, us_avatarUrl = None, us_createdAt = 0, us_updatedAt = None\<rparr>"

definition demo_member :: workspace_user where
  "demo_member = \<lparr>wu_id = ''m'', wu_workspaceId = ''w'', wu_userId = ''ana'', wu_role = OWNER,
     wu_isDefault = True, wu_joinedAt = 0\<rparr>"

definition demo_session :: auth_session where
  "demo_session = \<lparr>as_id = ''s'', as_userId = ''ana'', as_userAgent = None, as_createdAt = 0, as_lastUsedAt = 0,
     as_expiresAt = 2592000000, as_revokedAt = None\<rparr>"

definition demo_token :: refresh_token where
  "demo_token = \<lparr>rt_id = ''t'', rt_sessionId = ''s'', rt_tokenHash = ''hx'', rt_status = ACTIVE,
     rt_expiresAt = 2592000000, rt_createdAt = 0, rt_rotatedAt = None\<rparr>"

definition demo_platform :: platform where
  "demo_platform = \<lparr>pf_users = [demo_user],
     pf_workspaces = [\<lparr>ws_id = ''w'', ws_name = ''Casa'', ws_currency = ''BRL'', ws_timezone = ''UTC'', ws_createdAt = 0\<rparr>],
     pf_members = [demo_member], pf_invites = [], pf_subscriptions = [], pf_sessions = [demo_session],
     pf_tokens = [demo_token], pf_categories = [],
     pf_db = \<lparr>accounts = [], transactions = [], recurrings = [], movements = []\<rparr>,
     pf_increments = [], pf_now = 1000, pf_drawn = 0\<rparr>"

definition demo_scene :: scene where
  "demo_scene = \<lparr>sc_session = ''s'', sc_token = ''t'', sc_user = demo_user, sc_member = demo_member,
     sc_workspaceName = ''Casa'', sc_start = 1000\<rparr>"

text \<open>The token after its rotation, and its successor.\<close>

definition demo_rotated :: platform where
  "demo_rotated = demo_platform\<lparr>
     pf_sessions := [demo_session\<lparr>as_expiresAt := 2592001000, as_lastUsedAt := 1000\<rparr>],
     pf_tokens := [demo_token\<lparr>rt_status := ROTATED, rt_rotatedAt := Some 1000\<rparr>,
       \<lparr>rt_id = ''u'', rt_sessionId = ''s'', rt_tokenHash = ''hsx'', rt_status = ACTIVE,
        rt_expiresAt = 2592001000, rt_createdAt = 1000, rt_rotatedAt = None\<rparr>],
     pf_drawn := 1\<rparr>"

lemmas session_eval = demo_crypto_def demo_user_def demo_member_def demo_session_def demo_token_def demo_platform_def
  demo_rotated_def table_simps

lemmas session_run_defs = refreshToken_def loadStoredSession_def findUniqueByTokenHash_def token_of_def
  session_findUniqueById_def session_of_def token_isActive_def rotate_token_def resolveContext_def
  token_isValid_def token_isExpired_def session_isValid_def session_isRevoked_def session_isExpired_def
  user_findUniqueById_def found_def user_toDomain_def User_create_def findDefaultWorkspaceByUserId_def
  member_toDomain_def WorkspaceUser_create_def build_pair_def RefreshToken_create_def signAccessToken_def
  recoverReusedToken_def token_isRevoked_def isWithinReuseGrace_def token_isRotated_def
  REFRESH_TOKEN_REUSE_GRACE_SECONDS_def MAX_REFRESH_TOKEN_SUCCESSOR_HOPS_def falsy_def session_expired_def

lemma demo_refreshes:
  "io_run (refreshToken demo_crypto (Some ''x'')) demo_platform
     = (demo_rotated, Inr \<lparr>iss_accessToken = ''jwt'', iss_refreshToken = ''sx''\<rparr>)"
  by code_simp

lemma demo_recovers:
  "io_run (refreshToken demo_crypto (Some ''x'')) demo_rotated
     = (demo_rotated, Inr \<lparr>iss_accessToken = ''jwt'', iss_refreshToken = ''sx''\<rparr>)"
  by code_simp

lemma demo_on_scene:
  "well_set demo_crypto ''x'' demo_scene" "on_scene demo_crypto ''x'' demo_scene demo_platform"
  "rotated demo_crypto ''x'' demo_scene demo_rotated"
proof -
  show "well_set demo_crypto ''x'' demo_scene"
    by (simp add: well_set_def demo_scene_def demo_crypto_def sc_deadline_def REFRESH_TOKEN_REUSE_GRACE_SECONDS_def)
  have "usable demo_scene demo_platform"
    by (simp add: usable_def good_session_def session_of_def user_findUniqueById_def findDefaultWorkspaceByUserId_def
        found_def user_toDomain_def User_create_def isValidEmail_def js_trim_def js_space_def member_toDomain_def
        WorkspaceUser_create_def demo_scene_def session_eval sc_deadline_def REFRESH_TOKEN_REUSE_GRACE_SECONDS_def)
  moreover have "unrotated demo_crypto ''x'' demo_scene demo_platform"
    by (simp add: unrotated_def token_of_def live_token_def token_by_id_def demo_scene_def session_eval sc_deadline_def
        REFRESH_TOKEN_REUSE_GRACE_SECONDS_def distinct_by_def)
  ultimately show "on_scene demo_crypto ''x'' demo_scene demo_platform" by (simp add: on_scene_def)
  show "rotated demo_crypto ''x'' demo_scene demo_rotated"
    by (simp add: rotated_def token_of_def live_token_def replaced_token_def demo_scene_def session_eval sc_deadline_def
        REFRESH_TOKEN_REUSE_GRACE_SECONDS_def)
qed

section \<open>Properties\<close>

text \<open>
  C26: Any number of requests that present the same active refresh token at the same
  time, with their calls interleaved in any order and any delay shorter than the reuse
  grace period, are all answered with the same new refresh token, the successor of the
  one presented; the token presented is then rotated, its successor active.
\<close>

theorem concurrent_refreshes_agree:
  assumes "well_set cp raw sc" "on_scene cp raw sc p"
    and "interleaved (tick_within sc) (replicate n (refreshToken cp (Some raw)), p) (ts', p')"
    and "i < n" "ts' ! i = Return a"
  shows "(\<exists>access. a = Inr \<lparr>iss_accessToken = access, iss_refreshToken = cp_successorOf cp raw\<rparr>)
    \<and> rotated cp raw sc p'"
proof -
  have "scene_answer cp raw sc p' a"
    using scene.company_answer[OF assms(3) tick_within_rely[of sc cp raw], where Q = "\<lambda>_. scene_answer cp raw sc" and i = i and a = a]
      scene_refresh[OF assms(1,2)] assms(4,5) by simp
  then show ?thesis by (auto simp: answered_def)
qed

text \<open>Two requests with the same token, the second overtaken by the first.\<close>

lemma demo_two_requests:
  "interleaved (tick_within demo_scene)
     (replicate 2 (refreshToken demo_crypto (Some ''x'')), demo_platform)
     ([Return (Inr \<lparr>iss_accessToken = ''jwt'', iss_refreshToken = ''sx''\<rparr>),
       Return (Inr \<lparr>iss_accessToken = ''jwt'', iss_refreshToken = ''sx''\<rparr>)], demo_rotated)"
  (is "interleaved ?E (?ts, _) ([?a, ?b], _)")
proof -
  have "interleaved ?E (?ts, demo_platform) (?ts[0 := ?a], demo_rotated)"
    by (rule run_interleaved[OF _ _ demo_refreshes]) simp_all
  moreover have "interleaved ?E (?ts[0 := ?a], demo_rotated) (?ts[0 := ?a, 1 := ?b], demo_rotated)"
    by (rule run_interleaved[OF _ _ demo_recovers]) (simp_all add: numeral_2_eq_2)
  moreover have "?ts[0 := ?a, 1 := ?b] = [?a, ?b]" by (simp add: numeral_2_eq_2)
  ultimately show ?thesis using rtranclp_trans[of "io_step ?E"] by simp
qed

theorem concurrent_refreshes_agree_witness:
  "(\<exists>access. Inr \<lparr>iss_accessToken = ''jwt'', iss_refreshToken = ''sx''\<rparr>
      = (Inr \<lparr>iss_accessToken = access, iss_refreshToken = cp_successorOf demo_crypto ''x''\<rparr> :: issued either))
    \<and> rotated demo_crypto ''x'' demo_scene demo_rotated"
  by (rule concurrent_refreshes_agree[OF demo_on_scene(1,2) demo_two_requests, of 1]) simp_all

text \<open>
  C27: However the calls of refreshes, logins, logouts, workspace switches and
  registrations interleave, a session that exists keeps one active refresh token at
  most: a rotation takes the old token out of use before its successor comes into use,
  once.
\<close>

theorem one_active_token_per_session:
  assumes "interleaved tick (map (handle cp) reqs, p) (ts', p')"
    and "session_of i p \<noteq> None" "distinct_by rt_id (pf_tokens p)" "length (active_tokens i p) \<le> 1"
  shows "length (active_tokens i p') \<le> 1"
proof -
  have "sole i p" using assms(2-4) by (simp add: sole_def)
  moreover have "tick \<le> sole_rely i"
  proof (rule predicate2I)
    fix q q' assume t: "tick q q'"
    then have "later q q'" using tick_later by auto
    with t show "sole_rely i q q'" by (auto simp: tick_def intro!: sole_rely_same)
  qed
  ultimately have "sole_rely i p p'"
    using sole.company_interleaved[OF assms(1), of i "\<lambda>_ _ _. True"] keeps_sole_handle[of i p cp] by simp
  with \<open>sole i p\<close> show ?thesis by (simp add: sole_rely_def sole_def)
qed

theorem one_active_token_per_session_witness:
  "length (active_tokens ''s'' demo_rotated) \<le> 1"
proof (rule one_active_token_per_session)
  show "interleaved tick (map (handle demo_crypto) [Refresh (Some ''x'')], demo_platform)
      ([Return (Inr (Issued \<lparr>iss_accessToken = ''jwt'', iss_refreshToken = ''sx''\<rparr>))], demo_rotated)"
    using run_interleaved[of 0 "map (handle demo_crypto) [Refresh (Some ''x'')]" _ demo_platform demo_rotated]
      demo_refreshes by (simp add: answering_def)
qed (simp_all add: session_of_def active_tokens_def distinct_by_def session_eval)

text \<open>
  C28: Presenting a rotated refresh token after its grace period, or a revoked one, is
  answered \<open>SessionExpiredError\<close>, revokes every token of the session and the session,
  and touches no other session. From then on every request that presents a token of
  that session is answered \<open>SessionExpiredError\<close>, whatever else happens meanwhile.
\<close>

theorem reuse_revokes_family:
  assumes "raw \<noteq> []" "token_of (cp_hash cp raw) p = Some t" "session_of (rt_sessionId t) p = Some s"
    and "token_isRevoked t \<or> token_isRotated t \<and> \<not> isWithinReuseGrace (pf_now p) t"
    and "io_run (refreshToken cp (Some raw)) p = (p', r)"
  shows "r = left_shared SessionExpiredError
    \<and> (\<forall>u\<in>set (pf_tokens p'). rt_sessionId u = rt_sessionId t \<longrightarrow> token_isRevoked u)
    \<and> filter (\<lambda>u. rt_sessionId u \<noteq> rt_sessionId t) (pf_tokens p') = filter (\<lambda>u. rt_sessionId u \<noteq> rt_sessionId t) (pf_tokens p)
    \<and> (\<forall>k. k \<noteq> rt_sessionId t \<longrightarrow> session_of k p' = session_of k p)
    \<and> (\<forall>reqs ts'' p'' j raw' t' a. interleaved tick (map (handle cp) reqs, p') (ts'', p'')
          \<and> j < length reqs \<and> reqs ! j = Refresh (Some raw') \<and> token_of (cp_hash cp raw') p' = Some t'
          \<and> rt_sessionId t' = rt_sessionId t \<and> ts'' ! j = Return a \<longrightarrow> a = left_shared SessionExpiredError)"
proof -
  let ?p = "session_revoke (rt_sessionId t) (revokeBySessionId (rt_sessionId t) p)"
  from assms(3) have s: "as_id s = rt_sessionId t" by (auto simp: session_of_def dest: find_row_SomeD)
  have "\<not> token_isActive t" using assms(4) by (auto simp: token_isActive_def token_isRevoked_def token_isRotated_def)
  with assms have run: "r = session_expired" "p' = ?p"
    by (auto simp: refreshToken_def falsy_def loadStoredSession_def findUniqueByTokenHash_def session_findUniqueById_def
        recoverReusedToken_def revokeFamily_def s split: if_splits)
  from assms(3) have "revoked_session (rt_sessionId t) ?p"
    by (auto simp: revoked_session_def session_of_def session_revoke_def revokeBySessionId_def find_row_update_pred
        session_isRevoked_def s)
  note dead = revoked_session_answers[OF this]
  have "filter (\<lambda>u. rt_sessionId u \<noteq> i) (update_rows (\<lambda>t. rt_sessionId t = i) token_revoke ts) = filter (\<lambda>u. rt_sessionId u \<noteq> i) ts" for i ts
    by (induction ts) (auto simp: update_rows_def token_revoke_def)
  then have tokens: "\<forall>u\<in>set (pf_tokens ?p). rt_sessionId u = rt_sessionId t \<longrightarrow> token_isRevoked u"
    "filter (\<lambda>u. rt_sessionId u \<noteq> rt_sessionId t) (pf_tokens ?p) = filter (\<lambda>u. rt_sessionId u \<noteq> rt_sessionId t) (pf_tokens p)"
    by (auto simp: session_revoke_def revokeBySessionId_def set_update_rows token_isRevoked_def token_revoke_def
        dest!: arg_cong[of _ _ rt_status])
  have "session_of k ?p = session_of k p" if "k \<noteq> rt_sessionId t" for k
    using that by (auto simp: session_of_def session_revoke_def revokeBySessionId_def find_row_update_pred
        intro!: option.map_ident_strong dest: find_row_SomeD)
  with run tokens dead show ?thesis unfolding session_expired_def by blast
qed

definition demo_reused :: platform where
  "demo_reused = demo_rotated\<lparr>pf_now := 61000\<rparr>"

definition demo_dead :: platform where
  "demo_dead = demo_reused\<lparr>
     pf_sessions := [demo_session\<lparr>as_expiresAt := 2592001000, as_lastUsedAt := 1000, as_revokedAt := Some 61000\<rparr>],
     pf_tokens := [demo_token\<lparr>rt_status := REVOKED, rt_rotatedAt := Some 1000\<rparr>,
       \<lparr>rt_id = ''u'', rt_sessionId = ''s'', rt_tokenHash = ''hsx'', rt_status = REVOKED,
        rt_expiresAt = 2592001000, rt_createdAt = 1000, rt_rotatedAt = None\<rparr>]\<rparr>"

lemma demo_reuses: "io_run (refreshToken demo_crypto (Some ''x'')) demo_reused = (demo_dead, session_expired)"
  by code_simp

theorem reuse_revokes_family_witness:
  "(session_expired :: issued either) = left_shared SessionExpiredError
    \<and> filter (\<lambda>u. rt_sessionId u = ''s'' \<and> \<not> token_isRevoked u) (pf_tokens demo_dead) = []"
  using reuse_revokes_family[OF _ _ _ _ demo_reuses, of "demo_token\<lparr>rt_status := ROTATED, rt_rotatedAt := Some 1000\<rparr>"
      "demo_session\<lparr>as_expiresAt := 2592001000, as_lastUsedAt := 1000\<rparr>"]
  by (simp add: token_of_def session_of_def token_isRotated_def isWithinReuseGrace_def demo_reused_def session_eval
      REFRESH_TOKEN_REUSE_GRACE_SECONDS_def filter_empty_conv)





text \<open>
  C30: A refresh, login, logout, workspace switch or registration ends: whatever its
  calls of the database answer, and whatever concurrent requests do between them, it
  makes at most 20 calls, although a lost rotation starts over.
\<close>

theorem requests_end:
  "calls_within (handle cp req) 20"
  by (rule calls_handle)

text \<open>
  C31: A request that presents a token rotated less than the grace period ago, of which
  the successor in use is at most three rotations away, is answered with that successor
  and a new access token for the user's default workspace; nothing is written.
\<close>

theorem retry_finds_head:
  assumes "raw \<noteq> []" "token_of (cp_hash cp raw) p = Some t" "isWithinReuseGrace (pf_now p) t"
    and "session_of (rt_sessionId t) p = Some s" "session_isValid (pf_now p) s"
    and "k < MAX_REFRESH_TOKEN_SUCCESSOR_HOPS"
    and "\<And>j. j < k \<Longrightarrow> \<exists>u. token_of (cp_hash cp ((cp_successorOf cp ^^ Suc j) raw)) p = Some u
            \<and> rt_sessionId u = rt_sessionId t \<and> token_isRotated u"
    and "token_of (cp_hash cp ((cp_successorOf cp ^^ Suc k) raw)) p = Some h" "rt_sessionId h = rt_sessionId t"
      "token_isValid (pf_now p) h"
    and "user_findUniqueById (as_userId s) p = Inr (Some u)"
      "findDefaultWorkspaceByUserId (us_id u) p = Inr (Some (m, name))"
  shows "io_run (refreshToken cp (Some raw)) p =
    (p, Inr \<lparr>iss_accessToken = cp_encrypt cp (claimsOf (u, m, name)) (pf_now p),
        iss_refreshToken = (cp_successorOf cp ^^ Suc k) raw\<rparr>)"
proof -
  have "token_isActive h" using assms(10) by (simp add: token_isValid_def)
  note head = findHead_chain[where cp = cp and raw = raw and p = p and t = t, OF assms(6,7,8,9) this]
  have "\<not> token_isActive t" "\<not> token_isRevoked t"
    using assms(3) by (auto simp: isWithinReuseGrace_def token_isRotated_def token_isActive_def token_isRevoked_def split: option.splits)
  with assms head show ?thesis
    by (simp add: refreshToken_def falsy_def loadStoredSession_def findUniqueByTokenHash_def session_findUniqueById_def
        recoverReusedToken_def resolveContext_def signAccessToken_def del: funpow.simps)
qed

theorem retry_finds_head_witness:
  "io_run (refreshToken demo_crypto (Some ''x'')) demo_rotated =
    (demo_rotated, Inr \<lparr>iss_accessToken = ''jwt'', iss_refreshToken = ''sx''\<rparr>)"
  using retry_finds_head[of "''x''" demo_crypto demo_rotated "demo_token\<lparr>rt_status := ROTATED, rt_rotatedAt := Some 1000\<rparr>"
      "demo_session\<lparr>as_expiresAt := 2592001000, as_lastUsedAt := 1000\<rparr>" 0
      "\<lparr>rt_id = ''u'', rt_sessionId = ''s'', rt_tokenHash = ''hsx'', rt_status = ACTIVE,
        rt_expiresAt = 2592001000, rt_createdAt = 1000, rt_rotatedAt = None\<rparr>" demo_user demo_member "''Casa''"]
  by (simp add: token_of_def session_of_def token_isRotated_def isWithinReuseGrace_def session_isValid_def session_isRevoked_def
      session_isExpired_def token_isValid_def token_isActive_def token_isExpired_def user_findUniqueById_def found_def
      user_toDomain_def User_create_def isValidEmail_def js_trim_def js_space_def findDefaultWorkspaceByUserId_def
      member_toDomain_def WorkspaceUser_create_def session_eval
      REFRESH_TOKEN_REUSE_GRACE_SECONDS_def MAX_REFRESH_TOKEN_SUCCESSOR_HOPS_def)

end
