(* ===== verification/WorkspaceServices.thy ===== *)
theory WorkspaceServices
  imports Sessions
begin

text \<open>
  The services of src/src/modules/workspace and the plan limits of
  src/src/modules/subscription. Like the session services they make their calls
  outside a transaction, so each is a tree of atomic calls.
\<close>

section \<open>Invites\<close>

text \<open>\<open>toUpperCase\<close> on the letters a code consists of.\<close>

definition js_upper_char :: "char \<Rightarrow> char" where
  "js_upper_char c = (if 97 \<le> (of_char c :: nat) \<and> (of_char c :: nat) \<le> 122 then char_of (of_char c - 32 :: nat) else c)"

definition js_toUpperCase :: "string \<Rightarrow> string" where
  "js_toUpperCase s = map js_upper_char s"

definition acceptWorkspaceInvite :: "crypto \<Rightarrow> string \<Rightarrow> string \<Rightarrow> (platform, workspace_user either) io" where
  "acceptWorkspaceInvite cp code sub =
     io_try (query (findByCode (js_toUpperCase (js_trim code)))) (\<lambda>v. case v of
         None \<Rightarrow> Return (left_workspace InviteNotFoundError)
       | Some invite \<Rightarrow>
           if wi_usedAt invite \<noteq> None then Return (left_workspace InviteAlreadyUsedError)
           else io_bind (query pf_now) (\<lambda>now.
             if wi_expiresAt invite < now then Return (left_workspace InviteExpiredError)
             else io_try (query (findUserByWorkspaceAndUserId (wi_workspaceId invite) sub)) (\<lambda>isAlreadyMember.
               if isAlreadyMember \<noteq> None then Return (left_workspace ConflictWorkspaceUserError)
               else io_try (query (\<lambda>p. WorkspaceUser_create \<lparr>wu_id = [], wu_workspaceId = wi_workspaceId invite,
                       wu_userId = sub, wu_role = wi_role invite, wu_isDefault = False, wu_joinedAt = pf_now p\<rparr>)) (\<lambda>m.
                 io_try (call (claimAndInsert cp invite m)) (\<lambda>(outcome, m'). Return (case outcome of
                     already_used \<Rightarrow> left_workspace InviteAlreadyUsedError
                   | already_member \<Rightarrow> left_workspace ConflictWorkspaceUserError
                   | accepted \<Rightarrow> Inr m'))))))"

definition INVITE_LIFETIME_DAYS :: int where
  "INVITE_LIFETIME_DAYS = 2"

text \<open>
  \<open>setDate(getDate() + 2)\<close> is calendar arithmetic in the zone of the server, so the
  expiry is a parameter; the code is the first eight characters of a new UUID.
\<close>

definition createWorkspaceInvite ::
  "crypto \<Rightarrow> (int \<Rightarrow> int) \<Rightarrow> string \<Rightarrow> string \<Rightarrow> string \<Rightarrow> (platform, invite either) io" where
  "createWorkspaceInvite cp expiry role sub ws =
     io_try (query (user_findUniqueById sub)) (\<lambda>u. case u of
         None \<Rightarrow> Return (left_user UserNotFoundError)
       | Some user \<Rightarrow>
     io_try (query (findUserByWorkspaceAndUserId ws sub)) (\<lambda>m. case m of
         None \<Rightarrow> Return (left_workspace WorkspaceNotFoundError)
       | Some member \<Rightarrow>
           if role \<noteq> UserRole_value ADMIN \<and> role \<noteq> UserRole_value USER
             then Return (left_workspace InvalidWorkspaceInviteError)
           else io_bind (query (expiry \<circ> pf_now)) (\<lambda>expiresAt.
                io_bind (call (draw (cp_uuid cp))) (\<lambda>uuid.
                io_try (query (\<lambda>p. WorkspaceInvite_create (pf_now p) \<lparr>wi_id = [], wi_code = js_toUpperCase (take 8 uuid),
                    wi_workspaceId = ws, wi_role = (if role = UserRole_value ADMIN then ADMIN else USER),
                    wi_createdBy = us_id user, wi_expiresAt = expiresAt, wi_usedAt = None, wi_usedBy = None\<rparr>)) (\<lambda>invite.
                call (invite_create cp invite))))))"

section \<open>Workspaces\<close>

text \<open>The default \<open>currency = 'BRL'\<close> of the services' parameters.\<close>

definition given_currency :: "string option \<Rightarrow> string" where
  "given_currency currency = (case currency of None \<Rightarrow> ''BRL'' | Some c \<Rightarrow> c)"

definition createWorkspace ::
  "crypto \<Rightarrow> string option \<Rightarrow> string \<Rightarrow> bool \<Rightarrow> string \<Rightarrow> (platform, (workspace \<times> workspace_user) either) io" where
  "createWorkspace cp currency name isDefault sub =
     io_bind (call (draw (cp_uuid cp))) (\<lambda>i.
     io_try (query (\<lambda>p. Workspace_create (pf_now p) name (Some (given_currency currency)) None i)) (\<lambda>workspace.
     io_bind (call (draw (cp_uuid cp))) (\<lambda>j.
     io_try (query (\<lambda>p. WorkspaceUser_create \<lparr>wu_id = j, wu_workspaceId = ws_id workspace, wu_userId = sub,
         wu_role = OWNER, wu_isDefault = isDefault, wu_joinedAt = pf_now p\<rparr>)) (\<lambda>owner.
     io_try (call (\<lambda>p. (p\<lparr>pf_drawn := pf_drawn p + default_category_count\<rparr>,
         buildDefaultCategories (cp_uuid cp) (pf_drawn p) (ws_id workspace)))) (\<lambda>categories.
     io_try (call (createWithOwnerAndAccount cp workspace owner categories)) (\<lambda>_.
     Return (Inr (workspace, owner))))))))"

definition updateWorkspace :: "string \<Rightarrow> string \<Rightarrow> string option \<Rightarrow> (platform, workspace either) io" where
  "updateWorkspace name ws currency =
     io_try (query (workspace_findById ws)) (\<lambda>w. case w of
         None \<Rightarrow> Return (left_workspace WorkspaceNotFoundError)
       | Some workspace \<Rightarrow>
           let workspace' = (case updateDetails name (given_currency currency) (ws_timezone workspace) workspace of
                               Inl _ \<Rightarrow> workspace | Inr w' \<Rightarrow> w')
           in io_try (call (workspace_update workspace')) (\<lambda>_. Return (Inr workspace')))"

definition deleteWorkspace :: "string \<Rightarrow> string \<Rightarrow> (platform, unit either) io" where
  "deleteWorkspace ws sub =
     io_try (query (workspace_findById ws)) (\<lambda>w. case w of
         None \<Rightarrow> Return (left_workspace WorkspaceNotFoundError)
       | Some workspace \<Rightarrow>
     io_try (query (findUserByWorkspaceAndUserId ws sub)) (\<lambda>m. case m of
         None \<Rightarrow> Return (left_workspace WorkspaceUserNotFoundError)
       | Some membership \<Rightarrow>
           if wu_role membership \<noteq> OWNER
             then Return (left_shared (UnauthorizedError ''Apenas o proprietario pode excluir o workspace.''))
           else if wu_isDefault membership then Return (left_workspace CannotDeleteDefaultWorkspaceError)
           else call (workspace_delete ws)))"

definition setDefaultWorkspace_service :: "string \<Rightarrow> string \<Rightarrow> (platform, unit either) io" where
  "setDefaultWorkspace_service ws sub =
     io_try (query (findUserByWorkspaceAndUserId ws sub)) (\<lambda>m. case m of
         None \<Rightarrow> Return (left_workspace WorkspaceUserNotFoundError)
       | Some membership \<Rightarrow> io_bind (run_call (setDefaultWorkspace sub ws)) (\<lambda>_. Return (Inr ())))"

section \<open>Members\<close>

definition manages :: "workspace_user \<Rightarrow> bool" where
  "manages m = (wu_role m = OWNER \<or> wu_role m = ADMIN)"

definition addUserToWorkspace_service ::
  "crypto \<Rightarrow> string \<Rightarrow> string \<Rightarrow> UserRole \<Rightarrow> string \<Rightarrow> (platform, workspace_user either) io" where
  "addUserToWorkspace_service cp ws userId role sub =
     io_try (query (findUserByWorkspaceAndUserId ws sub)) (\<lambda>m. case m of
         None \<Rightarrow> Return (left_shared (UnauthorizedError ''Usuario atual nao e membro do workspace.''))
       | Some cur \<Rightarrow>
           if \<not> manages cur
             then Return (left_shared (UnauthorizedError ''Apenas proprietarios e administradores podem adicionar membros.''))
           else io_try (query (user_findUniqueById userId)) (\<lambda>u. case u of
               None \<Rightarrow> Return (left_user UserNotFoundError)
             | Some target \<Rightarrow>
           io_try (query (findUserByWorkspaceAndUserId ws userId)) (\<lambda>existing.
             if existing \<noteq> None then Return (left_workspace ConflictWorkspaceUserError)
             else io_try (query (\<lambda>p. WorkspaceUser_create \<lparr>wu_id = [], wu_workspaceId = ws, wu_userId = userId,
                    wu_role = role, wu_isDefault = False, wu_joinedAt = pf_now p\<rparr>)) (\<lambda>member.
                  call (addUserToWorkspace cp member)))))"

definition removeUserFromWorkspace_service :: "string \<Rightarrow> string \<Rightarrow> string \<Rightarrow> (platform, unit either) io" where
  "removeUserFromWorkspace_service userId ws requesterId =
     io_try (query (findUserByWorkspaceAndUserId ws requesterId)) (\<lambda>m. case m of
         None \<Rightarrow> Return (left_shared (UnauthorizedError ''Usuario nao e membro do workspace.''))
       | Some requester \<Rightarrow>
           if \<not> manages requester
             then Return (left_shared (UnauthorizedError ''Apenas proprietarios e administradores podem remover membros.''))
           else io_try (query (findUserByWorkspaceAndUserId ws userId)) (\<lambda>t. case t of
               None \<Rightarrow> Return (left_workspace WorkspaceUserNotFoundError)
             | Some target \<Rightarrow>
                 io_bind (run_call (removeUserFromWorkspace (wu_id target))) (\<lambda>_. Return (Inr ()))))"

definition updateWorkspaceUser :: "string \<Rightarrow> UserRole \<Rightarrow> string \<Rightarrow> (platform, workspace_user either) io" where
  "updateWorkspaceUser ws role sub =
     io_try (query (findUserByWorkspaceAndUserId ws sub)) (\<lambda>m. case m of
         None \<Rightarrow> Return (left_shared (UnauthorizedError ''Usuario nao tem acesso a esse workspace''))
       | Some cur \<Rightarrow>
           if wu_role cur = OWNER
             then Return (left_shared (UnauthorizedError ''Nao e possivel alterar o papel do proprietario''))
           else if role = OWNER
             then Return (left_shared (UnauthorizedError ''Nao e possivel promover um usuario a proprietario''))
           else call (member_updateUser (changeRole role cur)))"

section \<open>Plan limits\<close>

record plan_limits =
  maxWorkspaces :: int
  maxAccountsPerWorkspace :: int
  maxMembersPerWorkspace :: int
  maxCategories :: int
  maxTransactionsPerMonth :: int

definition PLAN_LIMITS_TRIAL :: plan_limits where
  "PLAN_LIMITS_TRIAL = \<lparr>maxWorkspaces = 2, maxAccountsPerWorkspace = 2, maxMembersPerWorkspace = 3,
     maxCategories = 0, maxTransactionsPerMonth = 25\<rparr>"

definition PLAN_LIMITS_FREE :: plan_limits where
  "PLAN_LIMITS_FREE = \<lparr>maxWorkspaces = 1, maxAccountsPerWorkspace = 1, maxMembersPerWorkspace = 3,
     maxCategories = 0, maxTransactionsPerMonth = 15\<rparr>"

definition PLAN_LIMITS_PRO :: plan_limits where
  "PLAN_LIMITS_PRO = \<lparr>maxWorkspaces = 5, maxAccountsPerWorkspace = 5, maxMembersPerWorkspace = 3,
     maxCategories = 10, maxTransactionsPerMonth = -1\<rparr>"

definition PLAN_LIMITS_ENTERPRISE :: plan_limits where
  "PLAN_LIMITS_ENTERPRISE = \<lparr>maxWorkspaces = -1, maxAccountsPerWorkspace = -1, maxMembersPerWorkspace = -1,
     maxCategories = -1, maxTransactionsPerMonth = -1\<rparr>"

definition getPlanLimits :: "string \<Rightarrow> plan_limits" where
  "getPlanLimits planId =
     (if planId = ''plan_trial'' then PLAN_LIMITS_TRIAL
      else if planId = ''plan_free'' then PLAN_LIMITS_FREE
      else if planId = ''plan_pro_monthly'' then PLAN_LIMITS_PRO
      else if planId = ''plan_enterprise'' then PLAN_LIMITS_ENTERPRISE
      else PLAN_LIMITS_FREE)"

definition hasAccess :: "subscription \<Rightarrow> bool" where
  "hasAccess b = (sb_status b = SUB_ACTIVE \<or> sb_status b = SUB_TRIALING)"

definition subscription_isExpired :: "int \<Rightarrow> subscription \<Rightarrow> bool" where
  "subscription_isExpired referenceDate b = (sb_currentPeriodEnd b < referenceDate)"

definition changePlan :: "string \<Rightarrow> subscription \<Rightarrow> subscription" where
  "changePlan newPlanId b = b\<lparr>sb_planId := newPlanId\<rparr>"

definition subscription_renew :: "int \<Rightarrow> subscription \<Rightarrow> subscription" where
  "subscription_renew newPeriodEnd b = b\<lparr>sb_currentPeriodEnd := newPeriodEnd, sb_status := SUB_ACTIVE\<rparr>"

definition set_status :: "SubscriptionStatus \<Rightarrow> subscription \<Rightarrow> subscription" where
  "set_status s b = b\<lparr>sb_status := s\<rparr>"

text \<open>The subscription that ends last (\<open>ORDER BY current_period_end DESC LIMIT 1\<close>).\<close>

definition subscription_findByUserId :: "string \<Rightarrow> platform \<Rightarrow> subscription option" where
  "subscription_findByUserId userId p =
     (case sort_key (\<lambda>b. - sb_currentPeriodEnd b) (filter (\<lambda>b. sb_userId b = userId) (pf_subscriptions p)) of
        [] \<Rightarrow> None | b # _ \<Rightarrow> Some b)"

definition account_countByWorkspaceId :: "string \<Rightarrow> platform \<Rightarrow> int" where
  "account_countByWorkspaceId ws p = int (length (filter (\<lambda>r. row_workspaceId r = ws) (accounts (pf_db p))))"

definition category_countByWorkspaceId :: "string \<Rightarrow> platform \<Rightarrow> int" where
  "category_countByWorkspaceId ws p =
     int (length (filter (\<lambda>c. cat_workspaceId c = Some ws \<and> \<not> cat_isSystemCategory c) (pf_categories p)))"

datatype ResourceType = WORKSPACE | WORKSPACE_MEMBER | ACCOUNT_RESOURCE | CATEGORY_RESOURCE

record limit_answer =
  la_currentCount :: int
  la_limit :: int

definition checkLimit :: "int \<Rightarrow> (platform \<Rightarrow> int) \<Rightarrow> (int \<Rightarrow> app_error) \<Rightarrow> (platform, limit_answer either) io" where
  "checkLimit limit countFn limitReachedError =
     (if limit = -1 then Return (Inr \<lparr>la_currentCount = 0, la_limit = -1\<rparr>)
      else io_bind (query countFn) (\<lambda>currentCount.
        Return (if limit \<le> currentCount then Inl (limitReachedError currentCount)
                else Inr \<lparr>la_currentCount = currentCount, la_limit = limit\<rparr>)))"

definition planLimitReached :: "int \<Rightarrow> int \<Rightarrow> app_error" where
  "planLimitReached limit currentCount = SubscriptionErr (PlanLimitReachedError currentCount limit)"

definition billing_user :: "string \<Rightarrow> ResourceType \<Rightarrow> string option \<Rightarrow> (platform, string either) io" where
  "billing_user userId resourceType workspaceId =
     (if \<not> falsy workspaceId \<and> resourceType \<noteq> WORKSPACE
      then io_try (query (findOwnerByWorkspaceId (the workspaceId))) (\<lambda>owner. case owner of
             None \<Rightarrow> Return (left_shared (UnauthorizedError ''Nao autorizado''))
           | Some o' \<Rightarrow> Return (Inr (wu_userId o')))
      else Return (Inr userId))"

fun checkResource :: "plan_limits \<Rightarrow> ResourceType \<Rightarrow> string \<Rightarrow> string option \<Rightarrow> (platform, limit_answer either) io" where
  "checkResource limits WORKSPACE billingUserId workspaceId =
     checkLimit (maxWorkspaces limits) (countOwnedByUserId billingUserId) (planLimitReached (maxWorkspaces limits))"
| "checkResource limits WORKSPACE_MEMBER billingUserId workspaceId =
     (if falsy workspaceId then Return (left_subscription MissingWorkspaceIdError)
      else checkLimit (maxMembersPerWorkspace limits) (member_countByWorkspaceId (the workspaceId))
             (\<lambda>_. SubscriptionErr (WorkspaceMemberLimitReachedError (maxMembersPerWorkspace limits))))"
| "checkResource limits ACCOUNT_RESOURCE billingUserId workspaceId =
     (if falsy workspaceId then Return (left_subscription MissingWorkspaceIdError)
      else checkLimit (maxAccountsPerWorkspace limits) (account_countByWorkspaceId (the workspaceId))
             (planLimitReached (maxAccountsPerWorkspace limits)))"
| "checkResource limits CATEGORY_RESOURCE billingUserId workspaceId =
     (if falsy workspaceId then Return (left_subscription MissingWorkspaceIdError)
      else checkLimit (maxCategories limits) (category_countByWorkspaceId (the workspaceId))
             (planLimitReached (maxCategories limits)))"

definition checkSubscriptionLimits ::
  "string \<Rightarrow> ResourceType \<Rightarrow> string option \<Rightarrow> (platform, limit_answer either) io" where
  "checkSubscriptionLimits userId resourceType workspaceId =
     io_try (billing_user userId resourceType workspaceId) (\<lambda>billingUserId.
     io_bind (query (subscription_findByUserId billingUserId)) (\<lambda>subscription.
       let limits = getPlanLimits (case subscription of None \<Rightarrow> ''plan_free'' | Some b \<Rightarrow> sb_planId b)
       in if subscription \<noteq> None \<and> \<not> hasAccess (the subscription)
          then Return (left_subscription SubscriptionNotActiveError)
          else checkResource limits resourceType billingUserId workspaceId))"

section \<open>SubscriptionLimitsGuard\<close>

text \<open>
  The guard in front of the routes that create accounts, workspaces and invites: the
  resource of the route, when it names one, and the user of the request with the
  workspace of his token.
\<close>

definition canActivate :: "ResourceType option \<Rightarrow> (string \<times> string option) option \<Rightarrow> (platform, bool either) io" where
  "canActivate resourceType user = (case resourceType of
       None \<Rightarrow> Return (Inr True)
     | Some resource \<Rightarrow> (case user of
           None \<Rightarrow> Return (Inl (Thrown (HttpException 403)))
         | Some (sub, workspaceId) \<Rightarrow>
             io_bind (checkSubscriptionLimits sub resource workspaceId) (\<lambda>result.
               Return (case result of Inl e \<Rightarrow> Inl (Thrown (HttpException 403)) | Inr _ \<Rightarrow> Inr True))))"

end
