(* ===== verification/WorkspaceContracts.thy ===== *)
theory WorkspaceContracts
  imports SessionContracts WorkspaceServices
begin

text \<open>
  What the calls of the workspace and session services keep of the memberships and
  of the invites, however the requests interleave: the calls are proved one by one
  to keep a relation of the states, and every request is a tree of such calls.
\<close>

section \<open>Requests\<close>

datatype workspace_request =
    Auth auth_request
  | AcceptInvite string string
  | CreateInvite string string string
  | CreateWorkspace "string option" string bool string
  | UpdateWorkspace string string "string option"
  | DeleteWorkspace string string
  | SetDefault string string
  | AddMember string string UserRole string
  | RemoveMember string string string
  | UpdateRole string UserRole string

datatype workspace_answer = Authenticated auth_answer | Joined workspace_user | Done

definition answer_as :: "('a \<Rightarrow> workspace_answer) \<Rightarrow> (platform, 'a either) io \<Rightarrow> (platform, workspace_answer either) io" where
  "answer_as g m = io_map (map_sum id g) m"

fun serve :: "crypto \<Rightarrow> (int \<Rightarrow> int) \<Rightarrow> workspace_request \<Rightarrow> (platform, workspace_answer either) io" where
  "serve cp expiry (Auth req) = answer_as Authenticated (handle cp req)"
| "serve cp expiry (AcceptInvite code sub) = answer_as Joined (acceptWorkspaceInvite cp code sub)"
| "serve cp expiry (CreateInvite role sub ws) = answer_as (\<lambda>_. Done) (createWorkspaceInvite cp expiry role sub ws)"
| "serve cp expiry (CreateWorkspace currency name isDefault sub) =
     answer_as (\<lambda>_. Done) (createWorkspace cp currency name isDefault sub)"
| "serve cp expiry (UpdateWorkspace name ws currency) = answer_as (\<lambda>_. Done) (updateWorkspace name ws currency)"
| "serve cp expiry (DeleteWorkspace ws sub) = answer_as (\<lambda>_. Done) (deleteWorkspace ws sub)"
| "serve cp expiry (SetDefault ws sub) = answer_as (\<lambda>_. Done) (setDefaultWorkspace_service ws sub)"
| "serve cp expiry (AddMember ws userId role sub) = answer_as Joined (addUserToWorkspace_service cp ws userId role sub)"
| "serve cp expiry (RemoveMember userId ws sub) = answer_as (\<lambda>_. Done) (removeUserFromWorkspace_service userId ws sub)"
| "serve cp expiry (UpdateRole ws role sub) = answer_as (\<lambda>_. Done) (updateWorkspaceUser ws role sub)"

section \<open>Trees of calls that keep a relation\<close>

definition keeps :: "(platform \<Rightarrow> platform \<Rightarrow> bool) \<Rightarrow> (platform, 'a) io \<Rightarrow> bool" where
  "keeps R m = (\<forall>p. in_company R (\<lambda>_ _. True) m p)"

locale kept = rely R for R :: "platform \<Rightarrow> platform \<Rightarrow> bool" +
  assumes tick_kept: "tick \<le> R"
    and auth_kept: "\<And>p p'. pf_users p' = pf_users p \<Longrightarrow> pf_members p' = pf_members p \<Longrightarrow> pf_invites p' = pf_invites p
        \<Longrightarrow> pf_db p' = pf_db p \<Longrightarrow> R p p'"
    and user_create_kept: "\<And>cp u p. R p (fst (user_create cp u p))"
begin

lemma keeps_Return: "keeps R (Return a)"
  by (simp add: keeps_def)

lemma keeps_bind: "keeps R m \<Longrightarrow> (\<And>a. keeps R (k a)) \<Longrightarrow> keeps R (io_bind m k)"
  unfolding keeps_def by (blast intro: company_bind)

lemma keeps_try: "keeps R m \<Longrightarrow> (\<And>a. keeps R (k a)) \<Longrightarrow> keeps R (io_try m k)"
  unfolding io_try_def by (rule keeps_bind) (simp_all split: sum.splits add: keeps_Return)

lemma keeps_call: "(\<And>p. R p (fst (f p))) \<Longrightarrow> keeps R (call f)"
  by (simp add: keeps_def call_def)

lemma keeps_run_call: "(\<And>p. R p (f p)) \<Longrightarrow> keeps R (run_call f)"
  unfolding run_call_def by (rule keeps_call) simp

lemma keeps_query: "keeps R (query f)"
  unfolding query_def by (rule keeps_call) (simp add: rely_refl)

text \<open>The rest of a request may depend on what a read has answered.\<close>

lemma keeps_try_query: "(\<And>p a. f p = Inr a \<Longrightarrow> keeps R (k a)) \<Longrightarrow> keeps R (io_try (query f) k)"
  by (auto simp: keeps_def intro!: company_try_query split: sum.splits)

lemma keeps_option: "(x = None \<Longrightarrow> keeps R m) \<Longrightarrow> (\<And>a. x = Some a \<Longrightarrow> keeps R (k a))
    \<Longrightarrow> keeps R (case x of None \<Rightarrow> m | Some a \<Rightarrow> k a)"
  by (cases x) simp_all

lemma keeps_prod: "(\<And>a b. keeps R (k a b)) \<Longrightarrow> keeps R (case x of (a, b) \<Rightarrow> k a b)"
  by (cases x) simp

lemma keeps_if: "(b \<Longrightarrow> keeps R m) \<Longrightarrow> (\<not> b \<Longrightarrow> keeps R n) \<Longrightarrow> keeps R (if b then m else n)"
  by simp

lemma keeps_answer: "keeps R m \<Longrightarrow> keeps R (answer_as g m)"
  unfolding answer_as_def io_map_def by (rule keeps_bind) (simp_all add: keeps_Return)

lemmas keeps_intros = keeps_bind keeps_try keeps_query keeps_call keeps_run_call keeps_option keeps_prod keeps_if keeps_Return

text \<open>The calls of the session services leave users, members and invites alone.\<close>

lemma session_calls_kept:
  "R p (revokeBySessionId i p)" "R p (session_revoke i p)" "R p (session_update s p)"
  "R p (fst (token_create cp t p))" "R p (fst (rotate cp c n p))" "R p (fst (session_create cp s p))"
  "R p (fst (draw g p))"
  by (auto intro!: auth_kept simp: revokeBySessionId_def session_revoke_def session_update_def token_create_def rotate_def
      session_create_def draw_def atomically_def and_then_Inr_iff Let_def duplicate_key_def foreign_key_def
      dest!: insert_token_Inr split: sum.splits if_splits)

lemma keeps_findHead: "keeps R (findHead cp t hops raw)"
  by (induction hops arbitrary: raw) (auto simp: Let_def intro!: keeps_intros)

lemma keeps_handle: "keeps R (handle cp req)"
proof -
  have issue: "keeps R (issueAuthSession cp c agent)" for c agent
    unfolding issueAuthSession_def createSession_def build_pair_def signAccessToken_def
    by (intro keeps_intros session_calls_kept)
  have resolve: "keeps R (resolveContext t s)" for t s
    unfolding resolveContext_def by (intro keeps_intros)
  have load: "keeps R (loadStoredSession cp raw)" for raw
    unfolding loadStoredSession_def by (intro keeps_intros)
  have recover: "keeps R (recoverReusedToken cp t s raw)" for t s raw
    unfolding recoverReusedToken_def revokeFamily_def signAccessToken_def
    by (intro keeps_intros keeps_findHead resolve session_calls_kept)
  have refresh: "keeps R (refreshToken cp presented)" for presented
    unfolding refreshToken_def rotate_token_def recoverAfterLostRace_def build_pair_def signAccessToken_def Let_def
    by (intro keeps_intros load recover resolve session_calls_kept)
  show ?thesis
    by (cases req)
       (auto simp: answering_def io_map_def loginUser_def validateCredentials_def logoutUser_def createUser_def switchWorkspace_def
         intro!: keeps_intros refresh issue session_calls_kept user_create_kept)
qed

text \<open>A read, while a fact that every move keeps still holds.\<close>

lemma try_query_stable:
  assumes "K s" "\<And>s t. K s \<Longrightarrow> R s t \<Longrightarrow> K t" "\<And>e s'. in_company R Q (Return (Inl e)) s'"
    "\<And>a s'. K s' \<Longrightarrow> f s' = Inr a \<Longrightarrow> in_company R Q (k a) s'"
  shows "in_company R Q (io_try (query f) k) s"
proof (rule company_try_query)
  fix s' assume "R s s'"
  with assms(1,2) have "K s'" by blast
  then show "case f s' of Inl e \<Rightarrow> in_company R Q (Return (Inl e)) s' | Inr a \<Rightarrow> in_company R Q (k a) s'"
    using assms(3)[of _ s'] assms(4)[of s'] by (simp del: in_company.simps split: sum.splits)
qed

text \<open>Requests that keep the relation, run in any pool, have moved the state by it.\<close>

lemma kept_interleaved:
  assumes "interleaved tick (ts, p) (ts', p')" "\<forall>m\<in>set ts. keeps R m"
  shows "R p p'"
  using company_interleaved[OF assms(1) tick_kept, of "\<lambda>_ _ _. True"] assms(2) by (auto simp: keeps_def)

end

section \<open>Memberships\<close>

text \<open>
  The unique indices of \<open>workspace_users\<close>, its reference to the users, and the rule
  the code keeps by itself: at most one membership of a user is the default.
\<close>

definition members_ok :: "platform \<Rightarrow> bool" where
  "members_ok p = (distinct_by wu_id (pf_members p)
     \<and> distinct_by (\<lambda>m. (wu_workspaceId m, wu_userId m)) (pf_members p)
     \<and> wu_userId ` set (pf_members p) \<subseteq> us_id ` set (pf_users p)
     \<and> distinct_by wu_userId (filter wu_isDefault (pf_members p)))"

abbreviation members_kept :: "platform \<Rightarrow> platform \<Rightarrow> bool" where
  "members_kept p p' \<equiv> members_ok p \<longrightarrow> members_ok p'"

lemma members_ok_same: "pf_members p' = pf_members p \<Longrightarrow> pf_users p' = pf_users p \<Longrightarrow> members_ok p' = members_ok p"
  by (simp add: members_ok_def)

lemma insert_member_Inr: "insert_member m p = Inr p' \<Longrightarrow>
    p' = p\<lparr>pf_members := pf_members p @ [m]\<rparr> \<and> \<not> member_conflict m p \<and> wu_userId m \<in> us_id ` set (pf_users p)
     \<and> wu_workspaceId m \<in> ws_id ` set (pf_workspaces p)"
  by (auto simp: insert_member_def duplicate_key_def foreign_key_def find_row_None_iff image_iff split: if_splits) metis+

lemma members_ok_snoc:
  assumes "members_ok p" "\<not> member_conflict m p" "wu_userId m \<in> us_id ` set (pf_users p')"
    "set (pf_users p) \<subseteq> set (pf_users p')" "pf_members p' = pf_members p @ [m]"
    "wu_isDefault m \<Longrightarrow> \<forall>r\<in>set (pf_members p). wu_userId r = wu_userId m \<longrightarrow> \<not> wu_isDefault r"
  shows "members_ok p'"
proof -
  have "us_id ` set (pf_users p) \<subseteq> us_id ` set (pf_users p')" using assms(4) by (rule image_mono)
  moreover have "distinct_by wu_userId (filter wu_isDefault (pf_members p'))"
    using assms(1,5,6) by (cases "wu_isDefault m") (auto simp: members_ok_def table_simps find_row_None_iff)
  ultimately show ?thesis
    using assms(1-5) unfolding members_ok_def
    by (simp add: member_conflict_def table_simps find_row_None_iff order.trans[of _ "us_id ` set (pf_users p)"])
qed

lemma members_ok_delete: "members_ok p \<Longrightarrow> pf_members p' = delete_rows q (pf_members p) \<Longrightarrow> pf_users p' = pf_users p
    \<Longrightarrow> members_ok p'"
  unfolding members_ok_def delete_rows_def by (auto simp: distinct_by_def distinct_map_filter inj_on_def distinct_map)

text \<open>Marking is an update of rows that keeps the keys.\<close>

lemma members_ok_marked:
  assumes "members_ok p" "pf_members p' = map f (pf_members p)" "pf_users p' = pf_users p"
    "\<And>m. wu_id (f m) = wu_id m" "\<And>m. wu_workspaceId (f m) = wu_workspaceId m" "\<And>m. wu_userId (f m) = wu_userId m"
    "distinct_by wu_userId (filter wu_isDefault (pf_members p'))"
  shows "members_ok p'"
proof -
  have "wu_id \<circ> f = wu_id" "(\<lambda>m. (wu_workspaceId m, wu_userId m)) \<circ> f = (\<lambda>m. (wu_workspaceId m, wu_userId m))"
    "wu_userId \<circ> f = wu_userId" using assms(4-6) by auto
  with assms(1,2,3,7) show ?thesis by (auto simp: members_ok_def distinct_by_def image_image assms(6))
qed

lemma removeDefault_fields [simp]:
  "wu_id (removeDefault m) = wu_id m" "wu_workspaceId (removeDefault m) = wu_workspaceId m"
  "wu_userId (removeDefault m) = wu_userId m" "\<not> wu_isDefault (removeDefault m)"
  by (simp_all add: removeDefault_def)

lemma defaults_cleared:
  "distinct_by wu_userId (filter wu_isDefault t) \<Longrightarrow>
     distinct_by wu_userId (filter wu_isDefault (update_rows (\<lambda>m. wu_userId m = u \<and> wu_isDefault m) removeDefault t))"
  by (induction t) (auto simp: distinct_by_def update_rows_def removeDefault_def)

lemma filter_unmarked: "\<forall>m\<in>set t. \<not> q m \<Longrightarrow> filter d (update_rows q f t) = filter d t"
  by (induction t) (auto simp: update_rows_def)

lemma default_marked:
  "distinct_by (\<lambda>m. (wu_workspaceId m, wu_userId m)) t \<Longrightarrow> distinct_by wu_userId (filter wu_isDefault t)
     \<Longrightarrow> \<forall>m\<in>set t. wu_userId m = u \<longrightarrow> \<not> wu_isDefault m
     \<Longrightarrow> distinct_by wu_userId (filter wu_isDefault (update_rows (\<lambda>m. wu_userId m = u \<and> wu_workspaceId m = ws) markAsDefault t))"
proof (induction t)
  case (Cons a t)
  let ?q = "\<lambda>m. wu_userId m = u \<and> wu_workspaceId m = ws"
  show ?case
  proof (cases "?q a")
    case True
    with Cons.prems(1) have "\<forall>m\<in>set t. \<not> ?q m" by (auto simp: distinct_by_def image_iff)
    from filter_unmarked[OF this] True Cons.prems show ?thesis
      by (auto simp: distinct_by_def markAsDefault_def update_rows_def)
  next
    case False
    have "wu_isDefault a \<Longrightarrow> wu_userId a \<notin> wu_userId ` set (filter wu_isDefault (update_rows ?q markAsDefault t))"
      using Cons.prems(2,3) by (force simp: distinct_by_def update_rows_def markAsDefault_def split: if_splits)
    moreover have "distinct_by wu_userId (filter wu_isDefault (update_rows ?q markAsDefault t))"
      using Cons.prems by (intro Cons.IH) (auto simp: distinct_by_def split: if_splits)
    moreover have "update_rows ?q markAsDefault (a # t) = a # update_rows ?q markAsDefault t"
      using False by (auto simp: update_rows_def)
    ultimately show ?thesis by (simp add: distinct_by_def)
  qed
qed (simp add: distinct_by_def update_rows_def)

lemma clear_defaults_ok: "members_ok p \<Longrightarrow> members_ok (clear_defaults userId p)"
  by (rule members_ok_marked[where f = "\<lambda>m. if wu_userId m = userId \<and> wu_isDefault m then removeDefault m else m"])
     (simp_all add: clear_defaults_def members_ok_def update_rows_def defaults_cleared[unfolded update_rows_def])

lemma clear_defaults_cleared:
  "m \<in> set (pf_members (clear_defaults userId p)) \<Longrightarrow> wu_userId m = userId \<Longrightarrow> \<not> wu_isDefault m"
  by (simp add: clear_defaults_def update_rows_def image_iff) (elim disjE bexE conjE, simp_all)

lemma clear_defaults_fields [simp]:
  "pf_users (clear_defaults userId p) = pf_users p" "pf_invites (clear_defaults userId p) = pf_invites p"
  "pf_workspaces (clear_defaults userId p) = pf_workspaces p"
  by (simp_all add: clear_defaults_def)

lemma insert_kept:
  "insert_workspace w p = Inr p' \<Longrightarrow> p' = p\<lparr>pf_workspaces := pf_workspaces p @ [w]\<rparr>"
  "insert_subscription b p = Inr p' \<Longrightarrow> p' = p\<lparr>pf_subscriptions := pf_subscriptions p @ [b]\<rparr>"
  "insert_categories cs p = Inr p' \<Longrightarrow> p' = p\<lparr>pf_categories := pf_categories p @ cs\<rparr>"
  "insert_default_account i ws z u p = Inr p' \<Longrightarrow> \<exists>d. p' = p\<lparr>pf_db := d\<rparr>"
  by (auto simp: insert_workspace_def insert_subscription_def insert_categories_def insert_default_account_def
      duplicate_key_def foreign_key_def and_then_Inr_iff split: if_splits)

lemma insert_user_Inr: "insert_user u p = Inr p' \<Longrightarrow>
    p' = p\<lparr>pf_users := pf_users p @ [u]\<rparr> \<and> us_id u \<notin> us_id ` set (pf_users p)
      \<and> us_email u \<notin> us_email ` set (pf_users p)"
  by (auto simp: insert_user_def duplicate_key_def find_row_None_iff split: if_splits)

text \<open>What registering adds to the tables of people.\<close>

lemma user_create_Inr:
  assumes "user_create cp u p = (p', Inr ())"
  obtains w m where "pf_users p' = pf_users p @ [u]" "us_id u \<notin> us_id ` set (pf_users p)"
    "us_email u \<notin> us_email ` set (pf_users p)"
    "pf_workspaces p' = pf_workspaces p @ [w]" "ws_id w \<notin> ws_id ` set (pf_workspaces p)"
    "pf_members p' = pf_members p @ [m]" "\<not> member_conflict m p" "wu_workspaceId m = ws_id w"
    "wu_userId m = us_id u" "wu_role m = OWNER" "wu_isDefault m"
    "ws_id w = cp_uuid cp (pf_drawn p)" "ws_name w = ''Espa'' @ [CHR 0xE7] @ ''o Pessoal''"
    "pf_invites p' = pf_invites p" "pf_sessions p' = pf_sessions p" "pf_tokens p' = pf_tokens p" "pf_now p' = pf_now p"
    "pf_drawn p' = pf_drawn p + 4 + default_category_count"
proof -
  from assms obtain p1 p2 p3 p4 p5 p6 cs where steps:
    "insert_user u (p\<lparr>pf_drawn := pf_drawn p + 4 + default_category_count\<rparr>) = Inr p1"
    "insert_workspace \<lparr>ws_id = cp_uuid cp (pf_drawn p), ws_name = ''Espa'' @ [CHR 0xE7] @ ''o Pessoal'',
        ws_currency = ''BRL'', ws_timezone = DEFAULT_TIMEZONE, ws_createdAt = pf_now p1\<rparr> p1 = Inr p2"
    "insert_subscription \<lparr>sb_id = cp_uuid cp (pf_drawn p + 1), sb_userId = us_id u, sb_planId = ''plan_trial'',
        sb_status = SUB_ACTIVE, sb_currentPeriodEnd = pf_now p2 + TRIAL_PERIOD_MS\<rparr> p2 = Inr p3"
    "insert_member \<lparr>wu_id = cp_uuid cp (pf_drawn p + 2), wu_workspaceId = cp_uuid cp (pf_drawn p), wu_userId = us_id u,
        wu_role = OWNER, wu_isDefault = True, wu_joinedAt = pf_now p3\<rparr> p3 = Inr p4"
    "insert_default_account (cp_uuid cp (pf_drawn p + 3)) (cp_uuid cp (pf_drawn p)) DEFAULT_TIMEZONE (us_id u) p4 = Inr p5"
    "insert_categories cs p5 = Inr p6" "p6 = p'"
    unfolding user_create_def atomically_Inr Let_def and_then_Inr_iff by auto
  from steps(2) have new: "cp_uuid cp (pf_drawn p) \<notin> ws_id ` set (pf_workspaces p1)"
    by (auto simp: insert_workspace_def duplicate_key_def find_row_None_iff split: if_splits)
  from insert_kept(4)[OF steps(5)] obtain d where d: "p5 = p4\<lparr>pf_db := d\<rparr>" ..
  from insert_user_Inr[OF steps(1)] insert_kept(1)[OF steps(2)] insert_kept(2)[OF steps(3)] insert_member_Inr[OF steps(4)]
    d insert_kept(3)[OF steps(6)] steps(7) new
  show thesis
    by (intro that[of "\<lparr>ws_id = cp_uuid cp (pf_drawn p), ws_name = ''Espa'' @ [CHR 0xE7] @ ''o Pessoal'',
        ws_currency = ''BRL'', ws_timezone = DEFAULT_TIMEZONE, ws_createdAt = pf_now p1\<rparr>"
        "\<lparr>wu_id = cp_uuid cp (pf_drawn p + 2), wu_workspaceId = cp_uuid cp (pf_drawn p), wu_userId = us_id u,
        wu_role = OWNER, wu_isDefault = True, wu_joinedAt = pf_now p3\<rparr>"])
       (auto simp: member_conflict_def)
qed

lemma user_create_Inl: "user_create cp u p = (p', Inl e) \<Longrightarrow> p' = p"
  unfolding user_create_def by (simp add: atomically_Inl)

lemma atomically_kept: "(\<And>p' a. f p = Inr (p', a) \<Longrightarrow> R p p') \<Longrightarrow> R p p \<Longrightarrow> R p (fst (atomically f p))"
  by (auto simp: atomically_def split: sum.splits)

lemma user_create_members: "members_kept p (fst (user_create cp u p))"
proof (cases "user_create cp u p")
  case (Pair p' r)
  show ?thesis
  proof (cases r)
    case (Inl e)
    with Pair user_create_Inl[of cp u p p' e] show ?thesis by simp
  next
    case (Inr x)
    show ?thesis
    proof
      assume ok: "members_ok p"
      from Pair Inr have "user_create cp u p = (p', Inr ())" by simp
      then show "members_ok (fst (user_create cp u p))"
      proof (rule user_create_Inr)
        fix w m
        assume m: "pf_users p' = pf_users p @ [u]" "us_id u \<notin> us_id ` set (pf_users p)" "pf_members p' = pf_members p @ [m]"
          "\<not> member_conflict m p" "wu_userId m = us_id u"
        from ok m(2) have "\<forall>r\<in>set (pf_members p). wu_userId r \<noteq> us_id u"
          by (metis members_ok_def imageI subsetD)
        with ok m have "members_ok p'" by (intro members_ok_snoc[of p m p']) auto
        with Pair show ?thesis by simp
      qed
    qed
  qed
qed

interpretation members: kept members_kept
proof
  show "members_kept p p'" if "pf_users p' = pf_users p" "pf_members p' = pf_members p" for p p'
    using members_ok_same[OF that(2,1)] by simp
  then show "tick \<le> members_kept" by (auto simp: tick_def)
  show "members_kept p (fst (user_create cp u p))" for p cp u by (rule user_create_members)
qed auto

lemma setDefaultWorkspace_members: "members_kept p (setDefaultWorkspace sub ws p)"
proof
  assume "members_ok p"
  then have q: "members_ok (clear_defaults sub p)" by (rule clear_defaults_ok)
  let ?q = "clear_defaults sub p"
  have "distinct_by wu_userId (filter wu_isDefault
     (update_rows (\<lambda>m. wu_userId m = sub \<and> wu_workspaceId m = ws) markAsDefault (pf_members ?q)))"
    using q clear_defaults_cleared by (intro default_marked) (auto simp: members_ok_def)
  then show "members_ok (setDefaultWorkspace sub ws p)"
    by (intro members_ok_marked[OF q, where f = "\<lambda>m. if wu_userId m = sub \<and> wu_workspaceId m = ws then markAsDefault m else m"])
       (simp_all add: setDefaultWorkspace_def update_rows_def markAsDefault_def Let_def)
qed

lemma createWithOwnerAndAccount_Inr:
  assumes "createWithOwnerAndAccount cp w owner cs p = (p', Inr ())"
  obtains d where "pf_users p' = pf_users p" "pf_invites p' = pf_invites p" "pf_workspaces p' = pf_workspaces p @ [w]"
    "pf_members p' = pf_members (if wu_isDefault owner then clear_defaults (wu_userId owner) p else p) @ [owner\<lparr>wu_workspaceId := ws_id w\<rparr>]"
    "\<not> member_conflict (owner\<lparr>wu_workspaceId := ws_id w\<rparr>) (if wu_isDefault owner then clear_defaults (wu_userId owner) p else p)"
    "wu_userId owner \<in> us_id ` set (pf_users p)" "ws_id w \<notin> ws_id ` set (pf_workspaces p)"
proof -
  let ?q = "if wu_isDefault owner then clear_defaults (wu_userId owner) p else p"
  from assms obtain p1 p2 p3 where steps:
    "insert_workspace w (?q\<lparr>pf_drawn := Suc (pf_drawn p)\<rparr>) = Inr p1" "insert_member (owner\<lparr>wu_workspaceId := ws_id w\<rparr>) p1 = Inr p2"
    "insert_default_account (cp_uuid cp (pf_drawn p)) (ws_id w) (ws_timezone w) (wu_userId owner) p2 = Inr p3"
    "insert_categories cs p3 = Inr p'"
    unfolding createWithOwnerAndAccount_def atomically_Inr Let_def and_then_Inr_iff by auto
  from insert_kept(4)[OF steps(3)] obtain d where d: "p3 = p2\<lparr>pf_db := d\<rparr>" ..
  from steps(1) have "ws_id w \<notin> ws_id ` set (pf_workspaces p)"
    by (auto simp: insert_workspace_def duplicate_key_def find_row_None_iff split: if_splits)
  with insert_kept(1)[OF steps(1)] insert_member_Inr[OF steps(2)] d insert_kept(3)[OF steps(4)] show thesis
    by (intro that) (auto simp: member_conflict_def split: if_splits)
qed

lemma createWithOwnerAndAccount_Inl: "createWithOwnerAndAccount cp w owner cs p = (p', Inl e) \<Longrightarrow> p' = p"
  unfolding createWithOwnerAndAccount_def by (simp add: atomically_Inl)

lemma createWithOwnerAndAccount_members: "members_kept p (fst (createWithOwnerAndAccount cp w owner cs p))"
proof (cases "createWithOwnerAndAccount cp w owner cs p")
  case (Pair p' r)
  show ?thesis
  proof (cases r)
    case (Inl e)
    with Pair createWithOwnerAndAccount_Inl[of cp w owner cs p p' e] show ?thesis by simp
  next
    case (Inr x)
    with Pair have "createWithOwnerAndAccount cp w owner cs p = (p', Inr ())" by simp
    then show ?thesis
    proof (rule createWithOwnerAndAccount_Inr)
      let ?q = "if wu_isDefault owner then clear_defaults (wu_userId owner) p else p"
      assume p': "pf_users p' = pf_users p" "pf_members p' = pf_members ?q @ [owner\<lparr>wu_workspaceId := ws_id w\<rparr>]"
        "\<not> member_conflict (owner\<lparr>wu_workspaceId := ws_id w\<rparr>) ?q" "wu_userId owner \<in> us_id ` set (pf_users p)"
      show ?thesis
      proof
        assume "members_ok p"
        then have "members_ok ?q" by (simp add: clear_defaults_ok)
        then have "members_ok p'"
          using p' clear_defaults_cleared[of _ "wu_userId owner" p] by (elim members_ok_snoc) (auto split: if_splits)
        with Pair show "members_ok (fst (createWithOwnerAndAccount cp w owner cs p))" by simp
      qed
    qed
  qed
qed

lemma insert_member_kept:
  assumes "insert_member m q = Inr p'" "\<not> wu_isDefault m" "pf_members q = pf_members p" "pf_users q = pf_users p"
  shows "members_kept p p'"
proof
  assume "members_ok p"
  with insert_member_Inr[OF assms(1)] assms(2-4) show "members_ok p'"
    by (elim members_ok_snoc) (auto simp: member_conflict_def)
qed

lemma member_calls_kept:
  "\<not> wu_isDefault m \<Longrightarrow> members_kept p (fst (addUserToWorkspace cp m p))"
  "\<not> wu_isDefault m \<Longrightarrow> members_kept p (fst (claimAndInsert cp v m p))"
  "members_kept p (removeUserFromWorkspace i p)" "members_kept p (fst (workspace_delete ws p))"
  by (auto simp: addUserToWorkspace_def claimAndInsert_def Let_def removeUserFromWorkspace_def workspace_delete_def
      atomically_def and_then_Inr_iff split: sum.splits if_splits
      intro: insert_member_kept[THEN mp] members_ok_delete)

lemma other_calls_kept:
  "members_kept p (fst (invite_create cp v p))" "members_kept p (fst (workspace_update w p))"
  by (auto simp: invite_create_def insert_invite_def workspace_update_def Let_def duplicate_key_def foreign_key_def
      split: if_splits sum.splits intro: members_ok_same[THEN iffD2, rotated 2])

text \<open>
  Every request keeps the memberships, except the change of a role: it writes back
  the default flag it has read one call earlier.
\<close>

fun updates_role :: "workspace_request \<Rightarrow> bool" where
  "updates_role (UpdateRole ws role sub) = True"
| "updates_role _ = False"

lemma WorkspaceUser_create_same: "WorkspaceUser_create props = Inr m \<Longrightarrow> m = props"
  by (auto simp: WorkspaceUser_create_def split: if_splits)

lemma keeps_members:
  assumes "\<not> updates_role req"
  shows "keeps members_kept (serve cp expiry req)"
proof -
  note intros = members.keeps_bind members.keeps_try_query members.keeps_try members.keeps_query members.keeps_call
    members.keeps_run_call members.keeps_option members.keeps_prod members.keeps_if members.keeps_Return
    members.session_calls_kept member_calls_kept other_calls_kept setDefaultWorkspace_members createWithOwnerAndAccount_members
  have accept: "keeps members_kept (acceptWorkspaceInvite cp code sub)" for code sub
    unfolding acceptWorkspaceInvite_def by (intro intros) (auto dest: WorkspaceUser_create_same)
  have invite: "keeps members_kept (createWorkspaceInvite cp expiry role sub ws)" for role sub ws
    unfolding createWorkspaceInvite_def by (intro intros)
  have new: "keeps members_kept (createWorkspace cp currency name isDefault sub)" for currency name isDefault sub
    unfolding createWorkspace_def by (intro intros) (simp add: members_ok_def)
  have rename: "keeps members_kept (updateWorkspace name ws currency)" for name ws currency
    unfolding updateWorkspace_def Let_def by (intro intros)
  have delete: "keeps members_kept (deleteWorkspace ws sub)" for ws sub
    unfolding deleteWorkspace_def by (intro intros)
  have default: "keeps members_kept (setDefaultWorkspace_service ws sub)" for ws sub
    unfolding setDefaultWorkspace_service_def by (intro intros)
  have add: "keeps members_kept (addUserToWorkspace_service cp ws userId role sub)" for ws userId role sub
    unfolding addUserToWorkspace_service_def by (intro intros) (auto dest: WorkspaceUser_create_same)
  have remove: "keeps members_kept (removeUserFromWorkspace_service userId ws sub)" for userId ws sub
    unfolding removeUserFromWorkspace_service_def by (intro intros)
  show ?thesis
    using assms by (cases req)
      (simp_all add: members.keeps_answer members.keeps_handle accept invite new rename delete default add remove)
qed

section \<open>Invites\<close>

definition invite_at :: "string \<Rightarrow> platform \<Rightarrow> invite option" where
  "invite_at code p = find_row (\<lambda>v. wi_code v = code) (pf_invites p)"

text \<open>An invite keeps what it offers, and one that has been used stays as it is.\<close>

definition invite_grows :: "invite \<Rightarrow> invite \<Rightarrow> bool" where
  "invite_grows v v' = (wi_id v' = wi_id v \<and> wi_code v' = wi_code v \<and> wi_workspaceId v' = wi_workspaceId v
     \<and> wi_role v' = wi_role v \<and> (wi_usedAt v \<noteq> None \<longrightarrow> v' = v))"

definition invites_kept :: "platform \<Rightarrow> platform \<Rightarrow> bool" where
  "invites_kept p p' = (distinct_by wi_id (pf_invites p) \<longrightarrow>
     distinct_by wi_id (pf_invites p') \<and> grows invite_grows (\<lambda>c. invite_at c p) (\<lambda>c. invite_at c p'))"

lemma invite_grows_refl [simp]: "invite_grows v v"
  by (simp add: invite_grows_def)

lemma invites_kept_same: "pf_invites p' = pf_invites p \<Longrightarrow> invites_kept p p'"
  by (auto simp: invites_kept_def invite_at_def intro: grows_refl)

lemma invites_kept_trans: "invites_kept p q \<Longrightarrow> invites_kept q r \<Longrightarrow> invites_kept p r"
  using grows_trans[of invite_grows "\<lambda>c. invite_at c p" "\<lambda>c. invite_at c q" "\<lambda>c. invite_at c r"]
  by (auto simp: invites_kept_def invite_grows_def)

lemma user_create_invites: "pf_invites (fst (user_create cp u p)) = pf_invites p"
proof (cases "user_create cp u p")
  case (Pair p' r)
  then show ?thesis by (cases r) (auto dest: user_create_Inl elim: user_create_Inr)
qed

interpretation invites: kept invites_kept
proof
  show "invites_kept s u" if "invites_kept s t" "invites_kept t u" for s t u
    using that by (rule invites_kept_trans)
qed (auto simp: tick_def user_create_invites intro!: invites_kept_same)

lemma createWithOwnerAndAccount_invites: "pf_invites (fst (createWithOwnerAndAccount cp w owner cs p)) = pf_invites p"
proof (cases "createWithOwnerAndAccount cp w owner cs p")
  case (Pair p' r)
  then show ?thesis by (cases r) (auto dest: createWithOwnerAndAccount_Inl elim: createWithOwnerAndAccount_Inr)
qed

lemma invites_kept_snoc:
  assumes "pf_invites q = pf_invites p @ [v]" "find_row (\<lambda>r. wi_id r = wi_id v) (pf_invites p) = None"
  shows "invites_kept p q"
  using assms(2) grows_append[of invite_grows wi_code "pf_invites p" "[v]"]
  by (simp add: invites_kept_def invite_at_def assms(1) distinct_by_snoc)

lemma invite_create_invites: "invites_kept p (fst (invite_create cp v p))"
  by (auto simp: invite_create_def Let_def insert_invite_def duplicate_key_def foreign_key_def invites_kept_same
      intro!: invites_kept_snoc split: sum.splits if_splits)

text \<open>The claim of an invite: it was unused, and is used by the user who joins.\<close>

lemma claimAndInsert_invites: "invites_kept p (fst (claimAndInsert cp v m p))"
proof -
  have "invites_kept p q" if "pf_invites q = update_rows (\<lambda>r. wi_id r = wi_id v \<and> wi_usedAt r = None)
      (\<lambda>r. r\<lparr>wi_usedAt := a, wi_usedBy := b\<rparr>) (pf_invites p)" for q a b
    unfolding invites_kept_def invite_at_def that
    by (auto simp: table_simps invite_grows_def intro!: grows_update)
  then show ?thesis
    by (auto simp: claimAndInsert_def Let_def insert_member_def duplicate_key_def foreign_key_def
        intro: invites_kept_same split: if_splits sum.splits)
qed

lemma claimAndInsert_accepted:
  assumes "claimAndInsert cp v m p = (p', Inr (accepted, m'))" "distinct_by wi_id (pf_invites p)"
    "invite_at c p = Some w" "wi_id w = wi_id v"
  shows "invite_at c p' = Some (w\<lparr>wi_usedAt := Some (pf_now p), wi_usedBy := Some (wu_userId m)\<rparr>)
    \<and> wu_userId m' = wu_userId m \<and> wu_workspaceId m' = wu_workspaceId m \<and> wu_role m' = wu_role m"
proof -
  let ?q = "\<lambda>r. wi_id r = wi_id v \<and> wi_usedAt r = None"
  from assms(1) have ex: "list_ex ?q (pf_invites p)" by (auto simp: claimAndInsert_def split: if_splits)
  from assms(3) have w: "w \<in> set (pf_invites p)" by (auto simp: invite_at_def dest: find_row_SomeD)
  have "?q w" using ex w assms(2,4) by (auto simp: list_ex_iff distinct_by_def distinct_map inj_on_def)
  moreover have "pf_invites p' = update_rows ?q (\<lambda>r. r\<lparr>wi_usedAt := Some (pf_now p), wi_usedBy := Some (wu_userId m)\<rparr>) (pf_invites p)"
    "wu_userId m' = wu_userId m" "wu_workspaceId m' = wu_workspaceId m" "wu_role m' = wu_role m"
    using assms(1) ex
    by (auto simp: claimAndInsert_def Let_def split: if_splits sum.splits dest!: insert_member_Inr)
  ultimately show ?thesis using assms(3) by (simp add: invite_at_def find_row_update_pred)
qed

fun deletes_workspace :: "workspace_request \<Rightarrow> bool" where
  "deletes_workspace (DeleteWorkspace ws sub) = True"
| "deletes_workspace _ = False"

lemma other_calls_invites:
  "invites_kept p (setDefaultWorkspace sub ws p)" "invites_kept p (fst (addUserToWorkspace cp m p))"
  "invites_kept p (removeUserFromWorkspace i p)" "invites_kept p (fst (member_updateUser m p))"
  "invites_kept p (fst (workspace_update w p))" "invites_kept p (fst (createWithOwnerAndAccount cp w owner cs p))"
  by (rule invites_kept_same, (auto simp: setDefaultWorkspace_def Let_def clear_defaults_def addUserToWorkspace_def
      removeUserFromWorkspace_def member_updateUser_def workspace_update_def createWithOwnerAndAccount_invites
      dest!: insert_member_Inr split: sum.splits)[1])+

lemma keeps_invites:
  assumes "\<not> deletes_workspace req"
  shows "keeps invites_kept (serve cp expiry req)"
proof -
  note intros = invites.keeps_intros invites.session_calls_kept other_calls_invites invite_create_invites claimAndInsert_invites
  have accept: "keeps invites_kept (acceptWorkspaceInvite cp code sub)" for code sub
    unfolding acceptWorkspaceInvite_def by (intro intros)
  have invite: "keeps invites_kept (createWorkspaceInvite cp expiry role sub ws)" for role sub ws
    unfolding createWorkspaceInvite_def by (intro intros)
  have new: "keeps invites_kept (createWorkspace cp currency name isDefault sub)" for currency name isDefault sub
    unfolding createWorkspace_def by (intro intros) (simp add: invites_kept_same)
  have rename: "keeps invites_kept (updateWorkspace name ws currency)" for name ws currency
    unfolding updateWorkspace_def Let_def by (intro intros)
  have default: "keeps invites_kept (setDefaultWorkspace_service ws sub)" for ws sub
    unfolding setDefaultWorkspace_service_def by (intro intros)
  have add: "keeps invites_kept (addUserToWorkspace_service cp ws userId role sub)" for ws userId role sub
    unfolding addUserToWorkspace_service_def by (intro intros)
  have remove: "keeps invites_kept (removeUserFromWorkspace_service userId ws sub)" for userId ws sub
    unfolding removeUserFromWorkspace_service_def by (intro intros)
  have role: "keeps invites_kept (updateWorkspaceUser ws role sub)" for ws role sub
    unfolding updateWorkspaceUser_def by (intro intros)
  show ?thesis
    using assms by (cases req)
      (simp_all add: invites.keeps_answer invites.keeps_handle accept invite new rename default add remove role)
qed

text \<open>What an accepted request promises: the invite is used, by this user, for what it offers.\<close>

definition admitted :: "string \<Rightarrow> string \<Rightarrow> workspace_user \<Rightarrow> platform \<Rightarrow> bool" where
  "admitted code sub m p = (distinct_by wi_id (pf_invites p) \<and> (\<exists>v. invite_at code p = Some v \<and> wi_usedAt v \<noteq> None
     \<and> wi_usedBy v = Some sub \<and> wu_userId m = sub \<and> wu_workspaceId m = wi_workspaceId v \<and> wu_role m = wi_role v))"

definition offered :: "string \<Rightarrow> invite \<Rightarrow> platform \<Rightarrow> bool" where
  "offered code w p = (distinct_by wi_id (pf_invites p) \<and> (\<exists>v. invite_at code p = Some v \<and> invite_grows w v))"

lemma admitted_stable: "admitted code sub m p \<Longrightarrow> invites_kept p p' \<Longrightarrow> admitted code sub m p'"
  by (fastforce simp: admitted_def invites_kept_def grows_def invite_grows_def)

lemma offered_stable: "offered code w p \<Longrightarrow> invites_kept p p' \<Longrightarrow> offered code w p'"
  by (fastforce simp: offered_def invites_kept_def grows_def invite_grows_def)

lemma findByCode_Some: "findByCode code p = Inr (Some v) \<Longrightarrow> invite_at code p = Some v"
  by (auto simp: findByCode_def found_Inr_Some invite_at_def WorkspaceInvite_create_def split: if_splits)

lemma claim_promise:
  assumes "offered code w p" "wu_userId m = sub" "wu_workspaceId m = wi_workspaceId w" "wu_role m = wi_role w"
    and "claimAndInsert cp w m p = (p', Inr (accepted, m'))"
  shows "admitted code sub m' p'"
proof -
  from assms(1) obtain v where v: "distinct_by wi_id (pf_invites p)" "invite_at code p = Some v" "invite_grows w v"
    by (auto simp: offered_def)
  have "invites_kept p p'" using claimAndInsert_invites[of p cp w m] assms(5) by simp
  with v(1) have "distinct_by wi_id (pf_invites p')" by (simp add: invites_kept_def)
  with claimAndInsert_accepted[OF assms(5) v(1,2)] v(3) assms(2-4) show ?thesis
    by (auto simp: admitted_def invite_grows_def)
qed

abbreviation promises :: "string \<Rightarrow> string \<Rightarrow> (platform, workspace_user either) io \<Rightarrow> platform \<Rightarrow> bool" where
  "promises code sub \<equiv> in_company invites_kept (\<lambda>q r. \<forall>m. r = Inr m \<longrightarrow> admitted code sub m q)"

lemma accept_claim:
  assumes "offered code w p" "wu_userId m = sub" "wu_workspaceId m = wi_workspaceId w" "wu_role m = wi_role w"
  shows "promises code sub (io_try (call (claimAndInsert cp w m)) (\<lambda>(outcome, m'). Return (case outcome of
      already_used \<Rightarrow> left_workspace InviteAlreadyUsedError
    | already_member \<Rightarrow> left_workspace ConflictWorkspaceUserError
    | accepted \<Rightarrow> Inr m'))) p"
proof (rule invites.company_try_call)
  fix q assume "invites_kept p q"
  with assms(1) have q: "offered code w q" by (rule offered_stable)
  have "admitted code sub m' (fst (claimAndInsert cp w m q))" if "snd (claimAndInsert cp w m q) = Inr (accepted, m')" for m'
    using that by (intro claim_promise[OF q assms(2-4), of cp]) (simp add: prod_eq_iff)
  then show "invites_kept q (fst (claimAndInsert cp w m q)) \<and>
    (case snd (claimAndInsert cp w m q) of
       Inl e \<Rightarrow> promises code sub (Return (Inl e)) (fst (claimAndInsert cp w m q))
     | Inr a \<Rightarrow> promises code sub ((\<lambda>(outcome, m'). Return (case outcome of
           already_used \<Rightarrow> left_workspace InviteAlreadyUsedError
         | already_member \<Rightarrow> left_workspace ConflictWorkspaceUserError
         | accepted \<Rightarrow> Inr m')) a) (fst (claimAndInsert cp w m q)))"
    by (auto simp: claimAndInsert_invites split: sum.splits AcceptInviteOutcome.splits elim: admitted_stable)
qed

lemma accept_promise:
  assumes "distinct_by wi_id (pf_invites p)"
  shows "promises (js_toUpperCase (js_trim code)) sub (acceptWorkspaceInvite cp code sub) p"
proof -
  let ?c = "js_toUpperCase (js_trim code)"
  let ?K = "\<lambda>w. offered ?c w"
  have none: "promises ?c sub (Return (Inl e)) r" for e r by simp
  note read = invites.company_query_stable[where K = "?K w" for w, OF _ offered_stable]
    invites.try_query_stable[where K = "?K w" for w, OF _ offered_stable none]
  have guard: "promises ?c sub (if b then Return (Inl e) else m) r" if "promises ?c sub m r" for b e m r
    using that none by simp
  have found: "offered ?c w q" if "invites_kept p q" "findByCode ?c q = Inr (Some w)" for w q
    using assms that by (auto simp: offered_def invites_kept_def dest: findByCode_Some)
  have claim: "promises ?c sub (io_try (call (claimAndInsert cp w m)) (\<lambda>(outcome, m'). Return (case outcome of
      already_used \<Rightarrow> left_workspace InviteAlreadyUsedError
    | already_member \<Rightarrow> left_workspace ConflictWorkspaceUserError
    | accepted \<Rightarrow> Inr m'))) q"
    if "offered ?c w q" "WorkspaceUser_create \<lparr>wu_id = [], wu_workspaceId = wi_workspaceId w, wu_userId = sub,
      wu_role = wi_role w, wu_isDefault = False, wu_joinedAt = n\<rparr> = Inr m" for w m n q
    using accept_claim[OF that(1), of m sub cp] WorkspaceUser_create_same[OF that(2)] by simp
  show ?thesis
    unfolding acceptWorkspaceInvite_def
    by (rule invites.company_try_query, simp del: in_company.simps split: sum.splits option.splits add: none,
        intro allI impI, rule read(1), erule (1) found, assumption+, rule guard, rule read(2), assumption+, rule guard,
        rule read(2), assumption+, erule (1) claim)
qed

end
