(* ===== verification/WorkspaceLedger.thy ===== *)
theory WorkspaceLedger
  imports WorkspaceContracts System
begin

text \<open>
  The requests on users and workspaces and the balance ledger: the account every
  workspace starts with is opened like any other, and a workspace that is deleted
  takes its own rows with it and nothing else.
\<close>

section \<open>The default account\<close>

definition default_account :: "string \<Rightarrow> string \<Rightarrow> string \<Rightarrow> account" where
  "default_account i ws timezone = CashAccount \<lparr>acc_id = i, acc_workspaceId = ws, acc_name = ''Carteira'',
     acc_timezone = timezone, acc_balance = 0\<rparr>"

lemma insert_default_account_opens:
  assumes "insert_default_account i ws z actor p = Inr p'"
  shows "createWithOpeningMovement i (default_account i ws z) actor (pf_db p) = Inr (pf_db p')"
  using assms
  by (auto simp: insert_default_account_def createWithOpeningMovement_def default_account_def default_account_row_def
      account_toDatabase_def ensureEntityId_def Let_def and_then_Inr_iff duplicate_key_def insertOpeningMovement_def
      insert_movement_def account_simps split: if_splits)

lemma insert_default_account_ok:
  assumes "insert_default_account i ws z actor p = Inr p'" "system_ok (pf_db p)"
  shows "system_ok (pf_db p')"
proof -
  note c = insert_default_account_opens[OF assms(1)]
  from assms(2) have ok: "tables_ok (pf_db p)" "tenant_ok (pf_db p)" by (simp_all add: system_ok_def)
  from repo_step_tables_ok[OF repo_step.open_account[OF c] ok(1)] open_confined[OF c refl ok(2)] show ?thesis
    by (simp add: system_ok_def confined_def)
qed

section \<open>Deleting a workspace\<close>

lemma ledger_ok_fewer_accounts:
  assumes "ledger_ok d" "accounts d' = delete_rows q (accounts d)" "movements d' = movements d"
  shows "ledger_ok d'"
proof -
  from assms(3) have mv: "movements_of d' = movements_of d" by (simp add: movements_of_def fun_eq_iff)
  show ?thesis
    using assms(1) unfolding ledger_ok_def assms(2) mv
    by (auto simp: distinct_by_delete_rows) (auto simp: delete_rows_def)
qed

definition lose_destinations :: "string set \<Rightarrow> transaction \<Rightarrow> transaction" where
  "lose_destinations A t = (case tx_destinationAccountId t of None \<Rightarrow> t
     | Some a \<Rightarrow> if a \<in> A then t\<lparr>tx_destinationAccountId := None\<rparr> else t)"

definition lose_rule_destinations :: "string set \<Rightarrow> recurring \<Rightarrow> recurring" where
  "lose_rule_destinations A r = (case rc_destinationAccountId r of None \<Rightarrow> r
     | Some a \<Rightarrow> if a \<in> A then r\<lparr>rc_destinationAccountId := None\<rparr> else r)"

definition accounts_in :: "string \<Rightarrow> db \<Rightarrow> string set" where
  "accounts_in ws d = row_id ` {r \<in> set (accounts d). row_workspaceId r = ws}"

lemma drop_workspace_fields:
  "accounts (drop_workspace ws d) = delete_rows (\<lambda>r. row_workspaceId r = ws) (accounts d)"
  "movements (drop_workspace ws d) = movements d"
  "transactions (drop_workspace ws d) = map (lose_destinations (accounts_in ws d))
     (delete_rows (\<lambda>t. tx_workspaceId t = ws \<or> tx_accountId t \<in> accounts_in ws d) (transactions d))"
  "recurrings (drop_workspace ws d) = map (lose_rule_destinations (accounts_in ws d))
     (delete_rows (\<lambda>r. rc_workspaceId r = ws \<or> rc_accountId r \<in> accounts_in ws d) (recurrings d))"
  by (simp_all add: drop_workspace_def clear_destinations_def lose_destinations_def[abs_def]
      lose_rule_destinations_def[abs_def] Let_def delete_rows_def accounts_in_def)

text \<open>In a state in order, a row of another workspace moves no money on the accounts that go.\<close>

lemma accounts_in_owned: "distinct_by row_id (accounts d) \<Longrightarrow> i \<in> accounts_in ws d \<Longrightarrow> owned d i ws"
  by (auto simp: accounts_in_def owned_def account_row_of_def find_row_key_Some_iff[THEN iffD2] split: option.splits)

lemma drop_workspace_row:
  assumes "distinct_by row_id (accounts d)"
  shows "account_row_of (drop_workspace ws d) i = (case account_row_of d i of None \<Rightarrow> None
     | Some r \<Rightarrow> if row_workspaceId r = ws then None else Some r)"
proof -
  have "distinct_by row_id t \<Longrightarrow> find_row (\<lambda>r. row_id r = i) (delete_rows (\<lambda>r. row_workspaceId r = ws) t)
      = (case find_row (\<lambda>r. row_id r = i) t of None \<Rightarrow> None | Some r \<Rightarrow> if row_workspaceId r = ws then None else Some r)" for t
    by (induction t) (auto simp: table_simps distinct_by_def delete_rows_def find_row_None_iff image_iff split: option.splits
        dest!: find_row_SomeD)
  from this[OF assms] show ?thesis by (simp add: account_row_of_def drop_workspace_fields)
qed

lemma lose_destinations_same:
  "tx_id (lose_destinations A t) = tx_id t" "tx_workspaceId (lose_destinations A t) = tx_workspaceId t"
  "tx_type (lose_destinations A t) = tx_type t" "tx_accountId (lose_destinations A t) = tx_accountId t"
  "tx_amount (lose_destinations A t) = tx_amount t"
  by (simp_all add: lose_destinations_def split: option.splits)

lemma lose_destinations_moves:
  assumes "moves (tx_type t) (tx_accountId t) (tx_destinationAccountId t) \<inter> A = {}"
  shows "balanceEffects (lose_destinations A t) = balanceEffects t"
    "tx_moves (lose_destinations A t) \<subseteq> tx_moves t"
  using assms
  by (auto simp: lose_destinations_def moves_def balanceEffects_def resolveBalanceEffects_def buildEffect_def
      split: if_splits option.splits)

lemma workspace_gone:
  assumes "system_ok d" "enforce (drop_workspace ws d) = Inr d'"
  shows "system_ok d'"
    and "v \<noteq> ws \<Longrightarrow> tenant_rows v d' = tenant_rows v d \<and> tenant_money v d' = tenant_money v d"
    and "tenant_rows ws d' = (\<lambda>_. None) \<and> tenant_txs ws d' = [] \<and> tenant_rules ws d' = []"
proof -
  let ?A = "accounts_in ws d"
  from assms(2) have d': "d' = drop_workspace ws d" "unique_ok d'" "references_ok d'" by (auto simp: enforce_Inr)
  note dist = system_okD(2)[OF assms(1)] and ten = system_okD(1)[OF assms(1)]
  note row = drop_workspace_row[OF dist, of ws, folded d'(1)]
  note fields = drop_workspace_fields[of ws d, folded d'(1)]
  have own: "owned d' i v" if "owned d i v" "v \<noteq> ws" for i v
    using that by (auto simp: owned_def row split: option.splits)
  have apart: "tx_moves t \<inter> ?A = {}" if "t \<in> set (transactions d)" "tx_workspaceId t \<noteq> ws" for t
  proof -
    have False if i: "i \<in> tx_moves t" "i \<in> ?A" for i
    proof -
      from ten \<open>t \<in> set (transactions d)\<close> i(1) have "owned d i (tx_workspaceId t)"
        unfolding tenant_ok_def owns_moves_def by blast
      with accounts_in_owned[OF dist i(2)] \<open>tx_workspaceId t \<noteq> ws\<close> show False
        by (simp add: owned_def split: option.splits)
    qed
    then show ?thesis by blast
  qed
  have "tx_fine d' t" if t: "t \<in> set (transactions d')" for t
  proof -
    from t obtain u where u: "t = lose_destinations ?A u" "u \<in> set (transactions d)" "tx_workspaceId u \<noteq> ws"
      by (auto simp: fields delete_rows_def)
    from ten u(2) have "tx_fine d u" by (simp add: tenant_ok_def)
    with u lose_destinations_moves(2)[OF apart[OF u(2,3)]] own show ?thesis
      by (auto simp: owns_moves_def lose_destinations_same)
  qed
  moreover have "rule_owned d' r" if r: "r \<in> set (recurrings d')" for r
  proof -
    from r obtain u where u: "r = lose_rule_destinations ?A u" "u \<in> set (recurrings d)" "rc_workspaceId u \<noteq> ws"
      by (auto simp: fields delete_rows_def)
    from ten u(2) have "rule_owned d u" by (simp add: tenant_ok_def)
    with u own show ?thesis
      by (auto simp: owns_moves_def lose_rule_destinations_def moves_def split: option.splits if_splits)
  qed
  moreover have "rows_parse d'" using ten by (auto simp: tenant_ok_def rows_parse_def row split: option.splits if_splits)
  moreover have "ledger_ok d'"
    by (rule ledger_ok_fewer_accounts[OF _ fields(1,2)]) (use assms(1) in \<open>simp add: system_ok_def tables_ok_def\<close>)
  ultimately show "system_ok d'" using d'(2,3) by (simp add: system_ok_def tables_ok_def tenant_ok_def)
  show "tenant_rows v d' = tenant_rows v d \<and> tenant_money v d' = tenant_money v d" if "v \<noteq> ws"
  proof
    show "tenant_rows v d' = tenant_rows v d"
      using that by (auto simp: fun_eq_iff tenant_rows_def row split: option.splits)
    have source: "tx_accountId t \<notin> ?A" if "t \<in> set (transactions d)" "tx_workspaceId t \<noteq> ws" for t
      using apart[OF that] by (auto simp: moves_def)
    show "tenant_money v d' = tenant_money v d"
      unfolding tenant_money_def tenant_txs_def fields using that source
      by (intro map_filter_cong) (auto simp: lose_destinations_same lose_destinations_moves(1)[OF apart])
  qed
  show "tenant_rows ws d' = (\<lambda>_. None) \<and> tenant_txs ws d' = [] \<and> tenant_rules ws d' = []"
    by (auto simp: fun_eq_iff tenant_rows_def row tenant_txs_def tenant_rules_def fields delete_rows_def filter_empty_conv
        lose_destinations_same lose_rule_destinations_def split: option.splits)
qed

section \<open>Every request keeps the ledger in order\<close>

abbreviation ledger_kept :: "platform \<Rightarrow> platform \<Rightarrow> bool" where
  "ledger_kept p p' \<equiv> system_ok (pf_db p) \<longrightarrow> system_ok (pf_db p')"

text \<open>Of a transaction that creates a workspace, only the default account writes to the ledger.\<close>

lemma creates_account:
  "user_create cp u p = (p', Inr ()) \<Longrightarrow>
     \<exists>i ws z a q q'. insert_default_account i ws z a q = Inr q' \<and> pf_db q = pf_db p \<and> pf_db p' = pf_db q'"
  "createWithOwnerAndAccount cp w owner cs p = (p', Inr ()) \<Longrightarrow>
     \<exists>i ws z a q q'. insert_default_account i ws z a q = Inr q' \<and> pf_db q = pf_db p \<and> pf_db p' = pf_db q'"
proof -
  assume "user_create cp u p = (p', Inr ())"
  then obtain p1 p2 p3 p4 p5 cs w b m where steps:
    "insert_user u (p\<lparr>pf_drawn := pf_drawn p + 4 + default_category_count\<rparr>) = Inr p1" "insert_workspace w p1 = Inr p2"
    "insert_subscription b p2 = Inr p3" "insert_member m p3 = Inr p4"
    "insert_default_account (cp_uuid cp (pf_drawn p + 3)) (cp_uuid cp (pf_drawn p)) DEFAULT_TIMEZONE (us_id u) p4 = Inr p5"
    "insert_categories cs p5 = Inr p'"
    unfolding user_create_def atomically_Inr Let_def and_then_Inr_iff by auto
  have "pf_db p4 = pf_db p"
    using insert_user_Inr[OF steps(1)] insert_kept(1)[OF steps(2)] insert_kept(2)[OF steps(3)] insert_member_Inr[OF steps(4)]
    by simp
  moreover have "pf_db p' = pf_db p5" using insert_kept(3)[OF steps(6)] by simp
  ultimately show "\<exists>i ws z a q q'. insert_default_account i ws z a q = Inr q' \<and> pf_db q = pf_db p \<and> pf_db p' = pf_db q'"
    using steps(5) by blast
next
  let ?q = "if wu_isDefault owner then clear_defaults (wu_userId owner) p else p"
  assume "createWithOwnerAndAccount cp w owner cs p = (p', Inr ())"
  then obtain p1 p2 p3 where steps:
    "insert_workspace w (?q\<lparr>pf_drawn := Suc (pf_drawn p)\<rparr>) = Inr p1" "insert_member (owner\<lparr>wu_workspaceId := ws_id w\<rparr>) p1 = Inr p2"
    "insert_default_account (cp_uuid cp (pf_drawn p)) (ws_id w) (ws_timezone w) (wu_userId owner) p2 = Inr p3"
    "insert_categories cs p3 = Inr p'"
    unfolding createWithOwnerAndAccount_def atomically_Inr Let_def and_then_Inr_iff by auto
  have "pf_db ?q = pf_db p" by (simp add: clear_defaults_def)
  then have "pf_db p2 = pf_db p" using insert_kept(1)[OF steps(1)] insert_member_Inr[OF steps(2)] by simp
  moreover have "pf_db p' = pf_db p3" using insert_kept(3)[OF steps(4)] by simp
  ultimately show "\<exists>i ws z a q q'. insert_default_account i ws z a q = Inr q' \<and> pf_db q = pf_db p \<and> pf_db p' = pf_db q'"
    using steps(3) by blast
qed

lemma creation_ledger_kept:
  "ledger_kept p (fst (user_create cp u p))" "ledger_kept p (fst (createWithOwnerAndAccount cp w owner cs p))"
proof -
  have ok: "ledger_kept p p'" if "\<exists>i ws z a q q'. insert_default_account i ws z a q = Inr q' \<and> pf_db q = pf_db p \<and> pf_db p' = pf_db q'" for p'
    using that insert_default_account_ok by fastforce
  show "ledger_kept p (fst (user_create cp u p))"
  proof (cases "user_create cp u p")
    case (Pair p' r)
    then show ?thesis using creates_account(1)[of cp u p p'] ok[of p'] user_create_Inl[of cp u p p'] by (cases r) auto
  qed
  show "ledger_kept p (fst (createWithOwnerAndAccount cp w owner cs p))"
  proof (cases "createWithOwnerAndAccount cp w owner cs p")
    case (Pair p' r)
    then show ?thesis
      using creates_account(2)[of cp w owner cs p p'] ok[of p'] createWithOwnerAndAccount_Inl[of cp w owner cs p p']
      by (cases r) auto
  qed
qed

interpretation books: kept ledger_kept
  by unfold_locales (auto simp: tick_def creation_ledger_kept(1)[THEN mp])

lemma quiet_calls_ledger:
  "pf_db (setDefaultWorkspace sub ws p) = pf_db p" "pf_db (fst (addUserToWorkspace cp m p)) = pf_db p"
  "pf_db (removeUserFromWorkspace i p) = pf_db p" "pf_db (fst (member_updateUser m p)) = pf_db p"
  "pf_db (fst (workspace_update w p)) = pf_db p" "pf_db (fst (invite_create cp v p)) = pf_db p"
  "pf_db (fst (claimAndInsert cp v m p)) = pf_db p"
  by (auto simp: setDefaultWorkspace_def clear_defaults_def addUserToWorkspace_def removeUserFromWorkspace_def
      member_updateUser_def workspace_update_def invite_create_def insert_invite_def claimAndInsert_def Let_def
      duplicate_key_def foreign_key_def dest!: insert_member_Inr split: sum.splits if_splits)

lemma workspace_delete_ledger: "ledger_kept p (fst (workspace_delete ws p))"
  by (auto simp: workspace_delete_def atomically_def and_then_Inr_iff dest: workspace_gone(1) split: sum.splits)

lemma keeps_ledger: "keeps ledger_kept (serve cp expiry req)"
proof -
  note intros = books.keeps_intros books.session_calls_kept creation_ledger_kept workspace_delete_ledger
  note quiet = quiet_calls_ledger
  have accept: "keeps ledger_kept (acceptWorkspaceInvite cp code sub)" for code sub
    unfolding acceptWorkspaceInvite_def by (intro intros) (simp add: quiet)
  have invite: "keeps ledger_kept (createWorkspaceInvite cp expiry role sub ws)" for role sub ws
    unfolding createWorkspaceInvite_def by (intro intros) (simp add: quiet)
  have new: "keeps ledger_kept (createWorkspace cp currency name isDefault sub)" for currency name isDefault sub
    unfolding createWorkspace_def by (intro intros) simp
  have rename: "keeps ledger_kept (updateWorkspace name ws currency)" for name ws currency
    unfolding updateWorkspace_def Let_def by (intro intros) (simp add: quiet)
  have delete: "keeps ledger_kept (deleteWorkspace ws sub)" for ws sub
    unfolding deleteWorkspace_def by (intro intros)
  have default: "keeps ledger_kept (setDefaultWorkspace_service ws sub)" for ws sub
    unfolding setDefaultWorkspace_service_def by (intro intros) (simp add: quiet)
  have add: "keeps ledger_kept (addUserToWorkspace_service cp ws userId role sub)" for ws userId role sub
    unfolding addUserToWorkspace_service_def by (intro intros) (simp add: quiet)
  have remove: "keeps ledger_kept (removeUserFromWorkspace_service userId ws sub)" for userId ws sub
    unfolding removeUserFromWorkspace_service_def by (intro intros) (simp add: quiet)
  have role: "keeps ledger_kept (updateWorkspaceUser ws role sub)" for ws role sub
    unfolding updateWorkspaceUser_def by (intro intros) (simp add: quiet)
  show ?thesis
    by (cases req)
      (simp_all add: books.keeps_answer books.keeps_handle accept invite new rename delete default add remove role)
qed

end
