(* ===== verification/WorkspaceProperties.thy ===== *)
theory WorkspaceProperties
  imports WorkspaceLedger SessionProperties SystemProperties
begin

text \<open>
  The properties of users, workspaces, members, invites and plan limits: what holds
  however the requests interleave, and what one request does.
\<close>

section \<open>A concrete house\<close>

text \<open>
  Ana owns workspace \<open>w\<close>; Bia is an ordinary member of it, her default, and owns \<open>v\<close>;
  Caio and Davi are users without a workspace, and \<open>K\<close> is an open invite to \<open>w\<close>.
\<close>

definition house_user :: "string \<Rightarrow> string \<Rightarrow> user" where
  "house_user i email = \<lparr>us_id = i, us_name = ''Nome'', us_email = email, us_passwordHash = ''pw'',
     us_phone = None, us_avatarUrl = None, us_createdAt = 0, us_updatedAt = None\<rparr>"

definition house_member :: "string \<Rightarrow> string \<Rightarrow> string \<Rightarrow> UserRole \<Rightarrow> bool \<Rightarrow> workspace_user" where
  "house_member i ws u role d = \<lparr>wu_id = i, wu_workspaceId = ws, wu_userId = u, wu_role = role,
     wu_isDefault = d, wu_joinedAt = 0\<rparr>"

definition house_invite :: invite where
  "house_invite = \<lparr>wi_id = ''i'', wi_code = ''K'', wi_workspaceId = ''w'', wi_role = USER, wi_createdBy = ''ana'',
     wi_expiresAt = 5000, wi_usedAt = None, wi_usedBy = None\<rparr>"

definition house :: platform where
  "house = \<lparr>pf_users = [house_user ''ana'' ''a@b.c'', house_user ''bia'' ''b@b.c'', house_user ''caio'' ''c@b.c'',
       house_user ''davi'' ''d@b.c''],
     pf_workspaces = [\<lparr>ws_id = ''w'', ws_name = ''Casa'', ws_currency = ''USD'', ws_timezone = ''UTC'', ws_createdAt = 0\<rparr>,
       \<lparr>ws_id = ''v'', ws_name = ''Loja'', ws_currency = ''BRL'', ws_timezone = ''UTC'', ws_createdAt = 0\<rparr>],
     pf_members = [house_member ''m1'' ''w'' ''ana'' OWNER True, house_member ''m2'' ''w'' ''bia'' USER True,
       house_member ''m3'' ''v'' ''bia'' OWNER False],
     pf_invites = [house_invite],
     pf_subscriptions = [\<lparr>sb_id = ''b'', sb_userId = ''bia'', sb_planId = ''plan_trial'', sb_status = SUB_ACTIVE,
       sb_currentPeriodEnd = 9000\<rparr>],
     pf_sessions = [], pf_tokens = [], pf_categories = [],
     pf_db = \<lparr>accounts = [], transactions = [], recurrings = [], movements = []\<rparr>,
     pf_increments = [], pf_now = 1000, pf_drawn = 100\<rparr>"

definition house_crypto :: crypto where
  "house_crypto = demo_crypto\<lparr>cp_uuid := (\<lambda>n. [char_of (n mod 256)])\<rparr>"

text \<open>A schedule names, call by call, the request that makes it.\<close>

fun schedule :: "nat list \<Rightarrow> ('s, 'a) io list \<times> 's \<Rightarrow> ('s, 'a) io list \<times> 's" where
  "schedule [] c = c"
| "schedule (i # is) (ts, s) =
     (if i < length ts then case ts ! i of Return a \<Rightarrow> schedule is (ts, s)
        | Atomic f \<Rightarrow> (case f s of (s', m) \<Rightarrow> schedule is (ts[i := m], s'))
      else schedule is (ts, s))"

fun answer_of :: "('s, 'a) io \<Rightarrow> 'a option" where
  "answer_of (Return a) = Some a"
| "answer_of (Atomic f) = None"


lemma schedule_interleaved: "interleaved E c (schedule is c)"
proof (induction "is" c rule: schedule.induct)
  case (2 i "is" ts s)
  show ?case
  proof (cases "i < length ts")
    case True
    show ?thesis
    proof (cases "ts ! i")
      case (Atomic f)
      obtain s' m where f: "f s = (s', m)" by (cases "f s")
      from 2(2)[OF True Atomic f[symmetric]] f True Atomic io_step.request[OF True Atomic f, where E = E]
      show ?thesis by (simp add: converse_rtranclp_into_rtranclp)
    qed (use 2(1) True in simp)
  qed (use 2 in simp)
qed simp

lemmas house_eval = house_def house_user_def house_member_def house_invite_def house_crypto_def demo_crypto_def table_simps






section \<open>Members and invites\<close>




lemma house_ok: "members_ok house"
  by (simp add: members_ok_def house_eval distinct_by_def)


text \<open>
  The change of a role writes back the default flag it has read: when its user makes
  another workspace his default meanwhile, he is left with two.
\<close>

lemma role_change_leaves_two_defaults:
  "\<exists>ts' p'. interleaved tick ([serve cp expiry (UpdateRole ''w'' ADMIN ''bia''), serve cp expiry (SetDefault ''v'' ''bia'')], house) (ts', p')
     \<and> list_all (\<lambda>t. answer_of t = Some (Inr Done)) ts' \<and> \<not> members_ok p'"
proof -
  let ?c = "schedule [0,1,1,0] ([serve cp expiry (UpdateRole ''w'' ADMIN ''bia''), serve cp expiry (SetDefault ''v'' ''bia'')], house)"
  have "list_all (\<lambda>t. answer_of t = Some (Inr Done)) (fst ?c)" "filter wu_isDefault (pf_members (snd ?c))
      = [house_member ''m1'' ''w'' ''ana'' OWNER True, house_member ''m2'' ''w'' ''bia'' ADMIN True,
         house_member ''m3'' ''v'' ''bia'' OWNER True]" by code_simp+
  then have "list_all (\<lambda>t. answer_of t = Some (Inr Done)) (fst ?c) \<and> \<not> members_ok (snd ?c)"
    by (simp add: members_ok_def distinct_by_def house_member_def)
  with schedule_interleaved[of tick "([serve cp expiry (UpdateRole ''w'' ADMIN ''bia''), serve cp expiry (SetDefault ''v'' ''bia'')], house)"
      "[0,1,1,0]"] show ?thesis by (metis prod.collapse)
qed

text \<open>
  Of an ordinary member removed from his default workspace no default is left, and his
  next login is refused although his credentials are right.
\<close>

lemma removal_locks_out:
  "snd (io_run (loginUser house_crypto ''b@b.c'' ''pw'' None)
      (fst (io_run (removeUserFromWorkspace_service ''bia'' ''w'' ''ana'') house)))
     = left_shared (UnauthorizedError ''Nao autorizado'')"
  "isRight (snd (io_run (loginUser house_crypto ''b@b.c'' ''pw'' None) house))"
  by code_simp+

text \<open>
  Renaming a workspace resets its time zone and, when none is given, its currency, for
  the mapper has read neither; a name the entity refuses changes no name and succeeds.
\<close>

lemma renaming_resets_timezone:
  "case io_run (updateWorkspace ''Casa Nova'' ''w'' None) house of (p, r) \<Rightarrow>
     isRight r \<and> map_option ws_timezone (find_row (\<lambda>w. ws_id w = ''w'') (pf_workspaces house)) = Some ''UTC''
     \<and> map_option ws_timezone (find_row (\<lambda>w. ws_id w = ''w'') (pf_workspaces p)) = Some ''America/Sao_Paulo''
     \<and> map_option ws_currency (find_row (\<lambda>w. ws_id w = ''w'') (pf_workspaces p)) = Some ''BRL''"
  "case io_run (updateWorkspace ''X'' ''w'' None) house of (p, r) \<Rightarrow>
     isRight r \<and> map_option ws_name (find_row (\<lambda>w. ws_id w = ''w'') (pf_workspaces p)) = Some ''Casa''"
  by code_simp+

section \<open>Workspaces and the ledger\<close>

text \<open>
  C34: However registrations, new workspaces, deletions of workspaces and every other
  request on users and workspaces interleave, the ledger stays in order: the
  constraints hold, no workspace moves the money of another, and the reconciliation
  covers every account, the default accounts included, and finds nothing.
\<close>

theorem workspace_requests_keep_books:
  assumes "interleaved tick (map (serve cp expiry) reqs, p) (ts', p')" "system_ok (pf_db p)"
  shows "system_ok (pf_db p') \<and> reconcile (pf_db p') =
    (\<lparr>rs_accountsChecked = length (accounts (pf_db p')), rs_uncovered = 0, rs_divergences = []\<rparr>, [])"
proof -
  have "system_ok (pf_db p')"
    using books.kept_interleaved[OF assms(1)] keeps_ledger[of cp expiry] assms(2) by auto
  moreover from this have "ledger_ok (pf_db p')" by (simp add: system_ok_def tables_ok_def)
  ultimately show ?thesis by (simp add: reconcile_clean)
qed

text \<open>The house with the accounts of a run of the financial requests.\<close>

definition house_books :: platform where
  "house_books = house\<lparr>pf_db := w_db demo_spent,
     pf_members := [house_member ''m1'' ''w'' ''ana'' OWNER False, house_member ''m3'' ''v'' ''bia'' OWNER False]\<rparr>"

lemma house_books_ok: "system_ok (pf_db house_books)"
  using served_system_ok[OF demo_served] by (simp add: house_books_def)

theorem workspace_requests_keep_books_witness:
  "rs_divergences (fst (reconcile (pf_db (fst (io_run (serve house_crypto id (Auth (Register ''e@b.c'' ''Nome'' ''pw''))) house_books))))) = []"
  using workspace_requests_keep_books[OF _ house_books_ok, of house_crypto id "[Auth (Register ''e@b.c'' ''Nome'' ''pw'')]"]
    run_interleaved[of 0 "map (serve house_crypto id) [Auth (Register ''e@b.c'' ''Nome'' ''pw'')]" _ house_books
      "fst (io_run (serve house_crypto id (Auth (Register ''e@b.c'' ''Nome'' ''pw''))) house_books)"
      "snd (io_run (serve house_crypto id (Auth (Register ''e@b.c'' ''Nome'' ''pw''))) house_books)" tick]
  by (simp del: serve.simps)



section \<open>Plan limits\<close>

text \<open>What a plan grants of each resource, and how much of it is in use.\<close>

fun granted :: "plan_limits \<Rightarrow> ResourceType \<Rightarrow> int" where
  "granted limits WORKSPACE = maxWorkspaces limits"
| "granted limits WORKSPACE_MEMBER = maxMembersPerWorkspace limits"
| "granted limits ACCOUNT_RESOURCE = maxAccountsPerWorkspace limits"
| "granted limits CATEGORY_RESOURCE = maxCategories limits"

fun in_use :: "platform \<Rightarrow> ResourceType \<Rightarrow> string \<Rightarrow> string \<Rightarrow> int" where
  "in_use p WORKSPACE billing ws = countOwnedByUserId billing p"
| "in_use p WORKSPACE_MEMBER billing ws = member_countByWorkspaceId ws p"
| "in_use p ACCOUNT_RESOURCE billing ws = account_countByWorkspaceId ws p"
| "in_use p CATEGORY_RESOURCE billing ws = category_countByWorkspaceId ws p"

definition plan_of :: "platform \<Rightarrow> string \<Rightarrow> plan_limits" where
  "plan_of p billing = getPlanLimits (case subscription_findByUserId billing p of None \<Rightarrow> ''plan_free'' | Some b \<Rightarrow> sb_planId b)"





text \<open>
  The members of a plan are counted when an invite is created and not when it is
  accepted: on a plan of three members, the two invites created while there were two
  members admit two more.
\<close>

definition invite_guarded :: "string \<Rightarrow> platform \<Rightarrow> platform \<times> invite either" where
  "invite_guarded sub = io_run (io_try (canActivate (Some WORKSPACE_MEMBER) (Some (sub, Some ''w''))) (\<lambda>_.
     createWorkspaceInvite house_crypto (\<lambda>n. n + 1000) ''USER'' sub ''w''))"

lemma invites_exceed_plan:
  "case invite_guarded ''ana'' house of (p1, r1) \<Rightarrow>
   case invite_guarded ''ana'' p1 of (p2, r2) \<Rightarrow>
   case io_run (acceptWorkspaceInvite house_crypto ''D'' ''caio'') p2 of (p3, r3) \<Rightarrow>
   case io_run (acceptWorkspaceInvite house_crypto ''F'' ''davi'') p3 of (p4, r4) \<Rightarrow>
     isRight r1 \<and> isRight r2 \<and> isRight r3 \<and> isRight r4 \<and> granted (plan_of p4 ''ana'') WORKSPACE_MEMBER = 3
     \<and> in_use p4 WORKSPACE_MEMBER ''ana'' ''w'' = 4"
  by code_simp

section \<open>From registration to login\<close>

lemma find_row_snoc_new: "\<forall>r\<in>set t. \<not> q r \<Longrightarrow> q a \<Longrightarrow> find_row q (t @ [a]) = Some a"
  by (induction t) (simp_all add: table_simps)

lemma createUser_Inr:
  assumes "io_run (createUser cp email name password) p = (p', Inr u)"
  obtains q where "user_create cp u q = (p', Inr ())" "pf_users q = pf_users p" "pf_members q = pf_members p"
    "pf_workspaces q = pf_workspaces p" "pf_now q = pf_now p" "us_email u = email"
    "us_passwordHash u = cp_hashPassword cp password (pf_drawn p)" "us_name u = name" "User_create u = Inr u"
    "us_id u = cp_uuid cp (Suc (pf_drawn p))" "pf_drawn q = Suc (Suc (pf_drawn p))"
    "pf_sessions q = pf_sessions p" "pf_tokens q = pf_tokens p"
proof -
  let ?q = "p\<lparr>pf_drawn := Suc (Suc (pf_drawn p))\<rparr>"
  from assms have "user_create cp u ?q = (p', Inr ()) \<and> us_email u = email \<and> us_passwordHash u = cp_hashPassword cp password (pf_drawn p)
      \<and> us_name u = name \<and> us_id u = cp_uuid cp (Suc (pf_drawn p)) \<and> User_create u = Inr u"
    by (auto simp: createUser_def draw_def User_create_def split: sum.splits if_splits prod.splits)
  then show thesis by (intro that[of ?q]) auto
qed

text \<open>
  C37: Whoever registers can log in with the password he chose, and gets tokens for the
  personal workspace the registration has made, as its owner; identifiers that are
  drawn are new, and a password matches its own hash.
\<close>

theorem registered_user_logs_in:
  assumes "io_run (createUser cp email name password) p = (p', Inr u)" "members_ok p"
    and "\<And>n. cp_uuid cp n \<noteq> []" "\<And>n. cp_comparePassword cp password (cp_hashPassword cp password n)"
    and "session_of (cp_uuid cp (pf_drawn p')) p' = None"
      "find_row (\<lambda>r. rt_id r = cp_uuid cp (pf_drawn p' + 2)) (pf_tokens p') = None"
      "token_of (cp_hash cp (cp_generate cp (Suc (pf_drawn p')))) p' = None" "cp_hash cp (cp_generate cp (Suc (pf_drawn p'))) \<noteq> []"
      "pf_now p' < cp_expiresAt cp (pf_now p')"
  shows "snd (io_run (loginUser cp email password None) p') = Inr
    \<lparr>iss_accessToken = cp_encrypt cp \<lparr>cl_sub = us_id u, cl_name = name, cl_workspaceId = cp_uuid cp (Suc (Suc (pf_drawn p))),
       cl_workspaceName = ''Espa'' @ [CHR 0xE7] @ ''o Pessoal'', cl_role = OWNER\<rparr> (pf_now p'),
     iss_refreshToken = cp_generate cp (Suc (pf_drawn p'))\<rparr>"
  using assms(1)
proof (rule createUser_Inr)
  fix q
  assume q: "user_create cp u q = (p', Inr ())" "pf_users q = pf_users p" "pf_members q = pf_members p"
    "pf_workspaces q = pf_workspaces p" "pf_now q = pf_now p" "us_email u = email"
    "us_passwordHash u = cp_hashPassword cp password (pf_drawn p)" "us_name u = name" "User_create u = Inr u"
    "us_id u = cp_uuid cp (Suc (pf_drawn p))" "pf_drawn q = Suc (Suc (pf_drawn p))"
  from q(1) show ?thesis
  proof (rule user_create_Inr)
    fix w m
    assume c: "pf_users p' = pf_users q @ [u]" "us_id u \<notin> us_id ` set (pf_users q)" "us_email u \<notin> us_email ` set (pf_users q)"
      "pf_workspaces p' = pf_workspaces q @ [w]" "ws_id w \<notin> ws_id ` set (pf_workspaces q)"
      "pf_members p' = pf_members q @ [m]" "wu_workspaceId m = ws_id w" "wu_userId m = us_id u" "wu_role m = OWNER" "wu_isDefault m"
      "ws_id w = cp_uuid cp (pf_drawn q)" "ws_name w = ''Espa'' @ [CHR 0xE7] @ ''o Pessoal''"
    have "find_row (\<lambda>r. us_email r = email) (pf_users p') = Some u"
      unfolding c(1) using c(3) q(6) by (intro find_row_snoc_new) (auto simp: image_iff)
    then have login: "user_findUniqueByEmail email p' = Inr (Some u)"
      using q(9) by (simp add: user_findUniqueByEmail_def found_def user_toDomain_def)
    have "wu_userId r \<noteq> us_id u" if "r \<in> set (pf_members q)" for r
      using that assms(2) c(2) q(2,3) by (metis members_ok_def imageI subsetD)
    then have "concat (map (\<lambda>m. if wu_userId m = us_id u \<and> wu_isDefault m
        then map (\<lambda>w. (m, ws_name w)) (filter (\<lambda>w. ws_id w = wu_workspaceId m) (pf_workspaces p')) else []) (pf_members p')) = [(m, ws_name w)]"
      using c(4-8,10) by (auto simp: filter_empty_conv concat_eq_Nil_conv image_iff)
    moreover have "member_toDomain m = Inr m"
      using c(7,8,11) q(10) assms(3) by (simp add: member_toDomain_def WorkspaceUser_create_def)
    ultimately have default: "findDefaultWorkspaceByUserId (us_id u) p' = Inr (Some (m, ws_name w))"
      by (simp add: findDefaultWorkspaceByUserId_def found_def table_simps)
    have user: "find_row (\<lambda>r. us_id r = us_id u) (pf_users p') = Some u"
      unfolding c(1) using c(2) by (intro find_row_snoc_new) (auto simp: image_iff)
    show ?thesis
      using login default user assms(3-) q(7,8,10,11) c(7-9,11,12)
      by (simp add: loginUser_def resolveUserAgent_def validateCredentials_def issueAuthSession_def createSession_def
          AuthSession_create_def session_create_def atomically_def Let_def build_pair_def RefreshToken_create_def signAccessToken_def
          draw_def token_create_def insert_token_def token_of_def session_of_def table_simps split: prod.splits)
  qed
qed

text \<open>Erica registers in the house.\<close>

definition house_erica :: user where
  "house_erica = (house_user ''e'' ''e@b.c'')\<lparr>us_createdAt := 1000\<rparr>"

definition house_categories :: "category list" where
  "house_categories = projr (buildDefaultCategories (cp_uuid house_crypto) 106 ''f'')"

lemma house_categories:
  "buildDefaultCategories (cp_uuid house_crypto) 106 ''f'' = Inr house_categories"
  "distinct_by cat_id house_categories" "distinct (category_slots house_categories)"
proof -
  have "isRight (buildDefaultCategories (cp_uuid house_crypto) 106 ''f'')" by code_simp
  then show "buildDefaultCategories (cp_uuid house_crypto) 106 ''f'' = Inr house_categories"
    by (auto simp: house_categories_def isRight_def split: sum.splits)
qed code_simp+

lemma house_registers:
  "\<exists>p'. io_run (createUser house_crypto ''e@b.c'' ''Nome'' ''pw'') house = (p', Inr house_erica)"
proof -
  have "User_create house_erica = Inr house_erica" by code_simp
  moreover have "cp_uuid house_crypto 101 = ''e''" "cp_uuid house_crypto 102 = ''f''" "cp_uuid house_crypto 103 = ''g''"
    "cp_uuid house_crypto 104 = ''h''" "cp_uuid house_crypto 105 = ''i''" by code_simp+
  moreover have "\<exists>p'. user_create house_crypto house_erica (house\<lparr>pf_drawn := 102\<rparr>) = (p', Inr ())"
    using calculation house_categories
    by (simp add: user_create_def atomically_def Let_def insert_user_def insert_workspace_def insert_subscription_def insert_member_def
        member_conflict_def insert_default_account_def insertOpeningMovement_def insert_movement_def insert_categories_def
        house_erica_def house_def house_user_def house_member_def table_simps account_row_of_def)
  moreover have "user_findUniqueByEmail ''e@b.c'' house = Inr None"
    by (simp add: user_findUniqueByEmail_def found_def house_def house_user_def table_simps)
  moreover have "pf_drawn house = 100" "pf_now house = 1000" by (simp_all add: house_def)
  ultimately show ?thesis
    by (auto simp: createUser_def draw_def house_erica_def house_user_def house_crypto_def demo_crypto_def)
qed

theorem registered_user_logs_in_witness:
  "isRight (snd (io_run (loginUser house_crypto ''e@b.c'' ''pw'' None)
     (fst (io_run (createUser house_crypto ''e@b.c'' ''Nome'' ''pw'') house))))"
proof -
  from house_registers obtain p' where p': "io_run (createUser house_crypto ''e@b.c'' ''Nome'' ''pw'') house = (p', Inr house_erica)" ..
  then have "pf_sessions p' = [] \<and> pf_tokens p' = []"
    by (rule createUser_Inr) (erule user_create_Inr, simp add: house_def)
  with registered_user_logs_in[OF p' house_ok] p' show ?thesis
    by (simp add: house_crypto_def demo_crypto_def session_of_def token_of_def table_simps)
qed

end
