(* ===== verification/Projection.thy ===== *)
theory Projection
  imports Invoice Schedule
begin

text \<open>
  The projection of the end of the month (src/src/modules/report/valueObjects):
  fixed bills recognised in past months, the usual variable expense, and the
  occurrences of recurring rules that have not been generated yet. Amounts are
  integers of cents, medians and ratios rationals; \<open>Math.round\<close> rounds halves up.
\<close>

section \<open>ProjectionRules\<close>

definition MIN_BASIS_MONTHS :: nat where "MIN_BASIS_MONTHS = 3"
definition MAX_BASIS_MONTHS :: nat where "MAX_BASIS_MONTHS = 6"
definition LOOKBACK_MONTHS :: int where "LOOKBACK_MONTHS = 12"
definition MIN_ACTIVE_DAYS :: nat where "MIN_ACTIVE_DAYS = 5"
definition BILL_DETECTION_MONTHS :: nat where "BILL_DETECTION_MONTHS = 3"
definition MAX_BILL_ENTRIES_PER_CATEGORY_MONTH :: nat where "MAX_BILL_ENTRIES_PER_CATEGORY_MONTH = 2"
definition SIMILAR_AMOUNT_RATIO :: rat where "SIMILAR_AMOUNT_RATIO = 3 / 2"

record PlainExpense =
  pe_day :: int
  pe_categoryId :: string
  pe_amount :: int
  pe_pending :: bool

record PeriodTotals =
  totalIncome :: int
  totalExpense :: int

record LedgerMonth =
  lm_key :: string
  lm_totalExpense :: int
  lm_pending :: PeriodTotals
  lm_plainExpenses :: "PlainExpense list"

section \<open>Median\<close>

text \<open>Of a list with at least one value: of none the code computes \<open>NaN\<close>; no caller passes none.\<close>

definition median :: "rat list \<Rightarrow> rat" where
  "median values = (let sorted = sort values; middle = length sorted div 2
     in if length sorted mod 2 = 1 then sorted ! middle else (sorted ! (middle - 1) + sorted ! middle) / 2)"

section \<open>FixedBills\<close>

record FixedBill =
  fb_categoryId :: string
  fb_amount :: int

definition isSimilarAmount :: "int \<Rightarrow> int \<Rightarrow> bool" where
  "isSimilarAmount a b = (let smallest = min a b in
     if smallest \<le> 0 then False else rat_of_int (max a b) / rat_of_int smallest \<le> SIMILAR_AMOUNT_RATIO)"

definition isSimilarToAnyBill :: "PlainExpense \<Rightarrow> FixedBill list \<Rightarrow> bool" where
  "isSimilarToAnyBill row bills =
     list_ex (\<lambda>b. fb_categoryId b = pe_categoryId row \<and> isSimilarAmount (fb_amount b) (pe_amount row)) bills"

text \<open>The index and the gap of the closest row so far; of equal gaps the first stays.\<close>

fun closest_loop :: "FixedBill \<Rightarrow> nat \<Rightarrow> PlainExpense list \<Rightarrow> (nat \<times> int) option \<Rightarrow> (nat \<times> int) option" where
  "closest_loop target i [] best = best"
| "closest_loop target i (row # rows) best = closest_loop target (Suc i) rows
     (if pe_categoryId row \<noteq> fb_categoryId target then best
      else if \<not> isSimilarAmount (pe_amount row) (fb_amount target) then best
      else let gap = \<bar>pe_amount row - fb_amount target\<bar> in
        case best of None \<Rightarrow> Some (i, gap) | Some (_, g) \<Rightarrow> if g \<le> gap then best else Some (i, gap))"

text \<open>The row taken and the pool without it (\<open>pool.splice(closestIndex, 1)\<close>).\<close>

definition takeClosestSimilar :: "PlainExpense list \<Rightarrow> FixedBill \<Rightarrow> (PlainExpense \<times> PlainExpense list) option" where
  "takeClosestSimilar pool target = (case closest_loop target 0 pool None of
       None \<Rightarrow> None | Some (i, _) \<Rightarrow> Some (pool ! i, take i pool @ drop (Suc i) pool))"

definition completedRows :: "LedgerMonth \<Rightarrow> PlainExpense list" where
  "completedRows month = filter (\<lambda>row. \<not> pe_pending row) (lm_plainExpenses month)"

definition eligibleRows :: "LedgerMonth \<Rightarrow> PlainExpense list" where
  "eligibleRows month = (let completed = completedRows month in
     filter (\<lambda>row. length (filter (\<lambda>r. pe_categoryId r = pe_categoryId row) completed)
        \<le> MAX_BILL_ENTRIES_PER_CATEGORY_MONTH) completed)"

fun detect_loop :: "PlainExpense list \<Rightarrow> PlainExpense list list \<Rightarrow> FixedBill list" where
  "detect_loop [] pools = []"
| "detect_loop (row # rows) pools =
     (let target = \<lparr>fb_categoryId = pe_categoryId row, fb_amount = pe_amount row\<rparr>;
          taken = map (\<lambda>pool. takeClosestSimilar pool target) pools;
          pools' = map2 (\<lambda>pool t. case t of None \<Rightarrow> pool | Some (_, rest) \<Rightarrow> rest) pools taken;
          matches = List.map_filter (map_option fst) taken
      in if matches = [] then detect_loop rows pools'
         else \<lparr>fb_categoryId = pe_categoryId row,
                fb_amount = js_round (median (rat_of_int (pe_amount row) # map (rat_of_int \<circ> pe_amount) matches))\<rparr>
              # detect_loop rows pools')"

definition detectFixedBills :: "LedgerMonth list \<Rightarrow> FixedBill list" where
  "detectFixedBills basis = (case take BILL_DETECTION_MONTHS basis of
       [] \<Rightarrow> []
     | newest # older \<Rightarrow> detect_loop (sort_key (\<lambda>row. - pe_amount row) (eligibleRows newest)) (map eligibleRows older))"

fun due_loop :: "FixedBill list \<Rightarrow> PlainExpense list \<Rightarrow> int" where
  "due_loop [] pool = 0"
| "due_loop (bill # bills) pool = (case takeClosestSimilar pool bill of
       None \<Rightarrow> fb_amount bill + due_loop bills pool
     | Some (_, rest) \<Rightarrow> due_loop bills rest)"

definition sumFixedBillsDue :: "FixedBill list \<Rightarrow> PlainExpense list \<Rightarrow> int" where
  "sumFixedBillsDue bills currentMonthExpenses = due_loop bills currentMonthExpenses"

section \<open>The variable expense\<close>

definition monthIndex :: "string \<Rightarrow> int" where
  "monthIndex key = (case parseKey key of (year, month) \<Rightarrow> year * 12 + month - 1)"

definition daysInKeyedMonth :: "string \<Rightarrow> int" where
  "daysInKeyedMonth key = (case parseKey key of (year, month) \<Rightarrow> daysInMonth year month)"

definition isActiveMonth :: "LedgerMonth \<Rightarrow> bool" where
  "isActiveMonth month = (MIN_ACTIVE_DAYS \<le> length (remdups (map pe_day (completedRows month))))"

definition selectBasisMonths :: "LedgerMonth list \<Rightarrow> string \<Rightarrow> LedgerMonth list" where
  "selectBasisMonths ledger currentKey =
     take MAX_BASIS_MONTHS (sort_key (\<lambda>m. - monthIndex (lm_key m)) (filter (\<lambda>m.
       let age = monthIndex currentKey - monthIndex (lm_key m)
       in 1 \<le> age \<and> age \<le> LOOKBACK_MONTHS \<and> isActiveMonth m) ledger))"

definition sumVariableBetween :: "PlainExpense list \<Rightarrow> int \<Rightarrow> int \<Rightarrow> int" where
  "sumVariableBetween rows firstDay lastDay =
     sum_list (map pe_amount (filter (\<lambda>row. firstDay \<le> pe_day row \<and> pe_day row \<le> lastDay) rows))"

definition estimateVariableWindow ::
  "LedgerMonth list \<Rightarrow> FixedBill list \<Rightarrow> PlainExpense list \<Rightarrow> int \<Rightarrow> int \<Rightarrow> int" where
  "estimateVariableWindow basis bills currentRows dayOfMonth daysAfterToday =
     (let notFixed = filter (\<lambda>row. \<not> isSimilarToAnyBill row bills);
          windows = map (\<lambda>m.
            let rows = notFixed (completedRows m); days = daysInKeyedMonth (lm_key m);
                sliceDay = min dayOfMonth days; lastDay = min days (sliceDay + daysAfterToday)
            in (sumVariableBetween rows sliceDay sliceDay, sumVariableBetween rows (sliceDay + 1) lastDay)) basis;
          todayVariable = sumVariableBetween (notFixed currentRows) dayOfMonth dayOfMonth;
          sliceRemainder = max 0 (median (map (rat_of_int \<circ> fst) windows) - rat_of_int todayVariable)
      in js_round (median (map (rat_of_int \<circ> snd) windows) + sliceRemainder))"

definition usualMonthlyExpense :: "LedgerMonth list \<Rightarrow> int \<Rightarrow> int" where
  "usualMonthlyExpense basis monthDays =
     js_round (median (map (\<lambda>m. rat_of_int (lm_totalExpense m) / rat_of_int (daysInKeyedMonth (lm_key m))) basis)
       * rat_of_int monthDays)"

section \<open>Occurrences that are not generated yet\<close>

record RecurringRuleSnapshot =
  rr_type :: TransactionType
  rr_amount :: int
  rr_frequency :: RecurrenceFrequency
  rr_interval :: int
  rr_startDate :: int
  rr_endDate :: "int option"
  rr_lastGenerated :: "int option"
  rr_materializedDates :: "int list"

record projection_month =
  pm_key :: string
  pm_start :: int
  pm_end :: int
  pm_days :: int

definition MAX_OCCURRENCE_STEPS :: nat where "MAX_OCCURRENCE_STEPS = 1000"

definition isMaterialized :: "RecurringRuleSnapshot \<Rightarrow> int \<Rightarrow> bool" where
  "isMaterialized rule date = (date \<in> set (rr_materializedDates rule))"

definition isPendingOccurrence :: "RecurringRuleSnapshot \<Rightarrow> int \<Rightarrow> int \<Rightarrow> bool" where
  "isPendingOccurrence rule cursor monthStart = (monthStart \<le> cursor \<and> \<not> isMaterialized rule cursor)"

definition isBeyondRuleEnd :: "RecurringRuleSnapshot \<Rightarrow> int \<Rightarrow> bool" where
  "isBeyondRuleEnd rule cursor = (case rr_endDate rule of None \<Rightarrow> False | Some e \<Rightarrow> e < cursor)"

fun occurrence_loop :: "nat \<Rightarrow> RecurringRuleSnapshot \<Rightarrow> projection_month \<Rightarrow> (int \<Rightarrow> int) \<Rightarrow> int \<Rightarrow> int \<Rightarrow> int" where
  "occurrence_loop 0 rule month step cursor amount = amount"
| "occurrence_loop (Suc n) rule month step cursor amount =
     (if pm_end month < cursor then amount
      else if isBeyondRuleEnd rule cursor then amount
      else occurrence_loop n rule month step (step cursor)
             (if isPendingOccurrence rule cursor (pm_start month) then amount + rr_amount rule else amount))"

definition first_cursor :: "RecurringRuleSnapshot \<Rightarrow> (int \<Rightarrow> int) \<Rightarrow> int" where
  "first_cursor rule step = (case rr_lastGenerated rule of None \<Rightarrow> rr_startDate rule | Some d \<Rightarrow> step d)"

definition sumRuleOccurrences ::
  "RecurringRuleSnapshot \<Rightarrow> projection_month \<Rightarrow> (int \<Rightarrow> RecurringRuleSnapshot \<Rightarrow> int) \<Rightarrow> int" where
  "sumRuleOccurrences rule month nextOf =
     (let step = (\<lambda>d. nextOf d rule)
      in occurrence_loop MAX_OCCURRENCE_STEPS rule month step (first_cursor rule step) 0)"

definition sumNotYetGeneratedOccurrences ::
  "projection_month \<Rightarrow> RecurringRuleSnapshot list \<Rightarrow> (int \<Rightarrow> RecurringRuleSnapshot \<Rightarrow> int) \<Rightarrow> PeriodTotals" where
  "sumNotYetGeneratedOccurrences month rules nextOf = fold (\<lambda>rule totals.
     let amount = sumRuleOccurrences rule month nextOf;
         totals = (if rr_type rule = INCOME then totals\<lparr>totalIncome := totalIncome totals + amount\<rparr> else totals)
     in if rr_type rule = EXPENSE then totals\<lparr>totalExpense := totalExpense totals + amount\<rparr> else totals)
     rules \<lparr>totalIncome = 0, totalExpense = 0\<rparr>"

section \<open>projectMonthEnd\<close>

record MonthProjection =
  expectedIncome :: int
  expectedExpense :: int
  expectedBalance :: int
  mp_realized :: PeriodTotals
  mp_scheduled :: PeriodTotals
  recurringNotYetGenerated :: PeriodTotals
  variableEstimate :: int
  usualExpense :: "int option"
  basisMonths :: nat
  hasHistory :: bool

definition projectMonthEnd ::
  "projection_month \<Rightarrow> int \<Rightarrow> LedgerMonth list \<Rightarrow> PeriodTotals \<Rightarrow> RecurringRuleSnapshot list
     \<Rightarrow> (int \<Rightarrow> RecurringRuleSnapshot \<Rightarrow> int) \<Rightarrow> MonthProjection" where
  "projectMonthEnd month dayOfMonth ledger realized recurringRules nextOf =
     (let currentLedger = find_row (\<lambda>entry. lm_key entry = pm_key month) ledger;
          scheduled = (case currentLedger of None \<Rightarrow> \<lparr>totalIncome = 0, totalExpense = 0\<rparr> | Some l \<Rightarrow> lm_pending l);
          currentRows = (case currentLedger of None \<Rightarrow> [] | Some l \<Rightarrow> lm_plainExpenses l);
          recurring = sumNotYetGeneratedOccurrences month recurringRules nextOf;
          basis = selectBasisMonths ledger (pm_key month);
          history = (MIN_BASIS_MONTHS \<le> length basis);
          bills = (if history then detectFixedBills basis else []);
          estimate = (if history then sumFixedBillsDue bills currentRows
              + estimateVariableWindow basis bills (filter (\<lambda>row. \<not> pe_pending row) currentRows) dayOfMonth
                  (pm_days month - dayOfMonth) else 0);
          income = totalIncome realized + totalIncome scheduled + totalIncome recurring;
          expense = totalExpense realized + totalExpense scheduled + totalExpense recurring + estimate
      in \<lparr>expectedIncome = income, expectedExpense = expense, expectedBalance = income - expense,
          mp_realized = realized, mp_scheduled = scheduled, recurringNotYetGenerated = recurring,
          variableEstimate = estimate,
          usualExpense = (if history then Some (usualMonthlyExpense basis (pm_days month)) else None),
          basisMonths = length basis, hasHistory = history\<rparr>)"

section \<open>Every remaining occurrence counts once\<close>

text \<open>The occurrences of a rule, from the one after the last generated on.\<close>

fun occurrence :: "(int \<Rightarrow> int) \<Rightarrow> int \<Rightarrow> nat \<Rightarrow> int" where
  "occurrence step cursor 0 = cursor"
| "occurrence step cursor (Suc k) = occurrence step (step cursor) k"

definition due_in_month :: "RecurringRuleSnapshot \<Rightarrow> projection_month \<Rightarrow> int \<Rightarrow> bool" where
  "due_in_month rule month d = (pm_start month \<le> d \<and> d \<le> pm_end month \<and> \<not> isBeyondRuleEnd rule d \<and> \<not> isMaterialized rule d)"

lemma occurrence_grows:
  assumes "\<And>d. d < step d"
  shows "cursor \<le> occurrence step cursor k"
proof (induction k arbitrary: cursor)
  case (Suc k)
  from Suc[of "step cursor"] assms[of cursor] show ?case by simp
qed simp

lemma occurrence_less:
  assumes "\<And>d. d < step d" "j < k"
  shows "occurrence step cursor j < occurrence step cursor k"
  using assms(2)
proof (induction j arbitrary: cursor k)
  case 0
  then obtain m where "k = Suc m" by (cases k) auto
  with occurrence_grows[of step "step cursor" m, OF assms(1)] assms(1)[of cursor] show ?case by simp
next
  case (Suc j)
  then show ?case by (cases k) auto
qed

lemma occurrence_loop_counts:
  assumes "\<And>d. d < step d"
  shows "occurrence_loop n rule month step cursor amount = amount + rr_amount rule *
    int (length (filter (due_in_month rule month) (map (occurrence step cursor) [0..<n])))"
proof (induction n arbitrary: cursor amount)
  case (Suc n)
  have list: "map (occurrence step cursor) [0..<Suc n] = cursor # map (occurrence step (step cursor)) [0..<n]"
    by (simp add: upt_conv_Cons map_Suc_upt[symmetric] comp_def del: upt_Suc)
  show ?case
  proof (cases "pm_end month < cursor \<or> isBeyondRuleEnd rule cursor")
    case True
    have "\<not> due_in_month rule month d" if "cursor \<le> d" for d
      using True that by (auto simp: due_in_month_def isBeyondRuleEnd_def split: option.splits)
    then have "filter (due_in_month rule month) (map (occurrence step cursor) [0..<Suc n]) = []"
      using occurrence_grows[OF assms, of cursor] by (auto simp: filter_empty_conv)
    with True show ?thesis by auto
  next
    case False
    then have "due_in_month rule month cursor \<longleftrightarrow> isPendingOccurrence rule cursor (pm_start month)"
      by (auto simp: due_in_month_def isPendingOccurrence_def)
    with False Suc[of "step cursor"] show ?thesis unfolding list by (simp add: algebra_simps)
  qed
qed simp

text \<open>The remaining dates of a rule in the month, each once.\<close>

definition remaining_dates :: "RecurringRuleSnapshot \<Rightarrow> projection_month \<Rightarrow> (int \<Rightarrow> int) \<Rightarrow> int set" where
  "remaining_dates rule month step = {d \<in> range (occurrence step (first_cursor rule step)). due_in_month rule month d}"

lemma sumRuleOccurrences_counts:
  assumes "\<And>d. d < nextOf d rule" "pm_end month < occurrence (\<lambda>d. nextOf d rule) (first_cursor rule (\<lambda>d. nextOf d rule)) MAX_OCCURRENCE_STEPS"
  shows "sumRuleOccurrences rule month nextOf = rr_amount rule * int (card (remaining_dates rule month (\<lambda>d. nextOf d rule)))"
proof -
  let ?step = "\<lambda>d. nextOf d rule"
  let ?c = "occurrence ?step (first_cursor rule ?step)"
  let ?ds = "filter (due_in_month rule month) (map ?c [0..<MAX_OCCURRENCE_STEPS])"
  have less: "?c j < ?c k" if "j < k" for j k using occurrence_less[of ?step, OF assms(1) that] .
  have inj: "inj ?c"
  proof (rule injI)
    fix j k assume "?c j = ?c k"
    with less[of j k] less[of k j] show "j = k" by (cases j k rule: linorder_cases) auto
  qed
  then have "inj_on ?c (set [0..<MAX_OCCURRENCE_STEPS])" by (rule inj_on_subset) simp
  then have "distinct ?ds" by (simp add: distinct_map)
  moreover have "set ?ds = remaining_dates rule month ?step"
  proof -
    have "k < MAX_OCCURRENCE_STEPS" if "due_in_month rule month (?c k)" for k
    proof (rule ccontr)
      assume "\<not> k < MAX_OCCURRENCE_STEPS"
      then have "?c MAX_OCCURRENCE_STEPS \<le> ?c k" using less[of MAX_OCCURRENCE_STEPS k] by (cases "k = MAX_OCCURRENCE_STEPS") auto
      with assms(2) that show False by (simp add: due_in_month_def)
    qed
    then show ?thesis by (auto simp: remaining_dates_def)
  qed
  ultimately have "length ?ds = card (remaining_dates rule month ?step)" by (metis distinct_card)
  then show ?thesis
    using occurrence_loop_counts[of ?step MAX_OCCURRENCE_STEPS rule month "first_cursor rule ?step" 0] assms(1)
    by (simp add: sumRuleOccurrences_def Let_def)
qed

end
