(* ===== verification/Reports.thy ===== *)
theory Reports
  imports Projection
begin

text \<open>
  The reports of src/src/modules/report: the evolution of balances
  (get-balance-evolution.handler.ts) and the summary of the month
  (get-month-summary.service.ts). The SQL queries are functions of the tables; sums of
  cents are integers and amounts in the answer rationals. What the date provider adds
  to the operations of the other modules is a second record.
\<close>

section \<open>MoneyUtils\<close>

definition centsToDecimal :: "int \<Rightarrow> rat" where
  "centsToDecimal cents = rat_of_int cents / 100"

section \<open>Queries of the balance evolution\<close>

record OpeningRow =
  or_type :: TransactionType
  or_sourceType :: string
  or_destType :: "string option"
  or_amount :: int

record PeriodRow = OpeningRow +
  pr_date :: int

type_synonym TypeResolver = "TransactionType \<Rightarrow> string \<Rightarrow> string option \<Rightarrow> TransactionType"
type_synonym row_filter = "TransactionType \<Rightarrow> string \<Rightarrow> string option \<Rightarrow> bool"

text \<open>The filters; a comparison with the type of a missing destination is not true.\<close>

definition isCreditCardPayment :: row_filter where
  "isCreditCardPayment ty source dest = (ty = TRANSFER \<and> dest = Some (AccountType_value CREDIT_CARD))"

definition isInvestmentBoundary :: row_filter where
  "isInvestmentBoundary ty source dest =
     (ty = TRANSFER \<and> (source = AccountType_value INVESTMENT \<or> dest = Some (AccountType_value INVESTMENT)))"

definition generalFilter :: row_filter where
  "generalFilter ty source dest =
     (ty \<in> {INCOME, EXPENSE} \<and> source \<noteq> AccountType_value CREDIT_CARD \<and> source \<noteq> AccountType_value INVESTMENT
      \<or> isCreditCardPayment ty source dest \<or> isInvestmentBoundary ty source dest)"

definition investmentBaseFilter :: row_filter where
  "investmentBaseFilter ty source dest = (ty \<in> {INCOME, EXPENSE} \<and> source = AccountType_value INVESTMENT)"

definition investmentTransferFilter :: row_filter where
  "investmentTransferFilter ty source dest =
     (ty = TRANSFER \<and> (dest = Some (AccountType_value INVESTMENT) \<or> source = AccountType_value INVESTMENT))"

definition investmentFilter :: row_filter where
  "investmentFilter ty source dest = (investmentBaseFilter ty source dest \<or> investmentTransferFilter ty source dest)"

definition netWorthFilter :: row_filter where
  "netWorthFilter ty source dest = (ty \<in> {INCOME, EXPENSE})"

definition resolveNetWorthType :: TypeResolver where
  "resolveNetWorthType ty source dest = ty"

definition resolveGeneralType :: TypeResolver where
  "resolveGeneralType ty source dest =
     (if ty = TRANSFER \<and> dest = Some (AccountType_value CREDIT_CARD) then EXPENSE
      else if ty = TRANSFER \<and> dest = Some (AccountType_value INVESTMENT) then EXPENSE
      else if ty = TRANSFER \<and> source = AccountType_value INVESTMENT then INCOME
      else ty)"

definition resolveInvestmentType :: TypeResolver where
  "resolveInvestmentType ty source dest =
     (if ty = TRANSFER \<and> dest = Some (AccountType_value INVESTMENT) then INCOME
      else if ty = TRANSFER \<and> source = AccountType_value INVESTMENT then EXPENSE
      else ty)"

text \<open>
  The transactions of a workspace that are completed, with the types of their accounts
  (an inner join with the source, a left join with the destination).
\<close>

definition joined :: "string \<Rightarrow> db \<Rightarrow> PeriodRow list" where
  "joined ws d = List.map_filter (\<lambda>t. case account_row_of d (tx_accountId t) of None \<Rightarrow> None
     | Some a \<Rightarrow> if tx_workspaceId t = ws \<and> tx_status t = COMPLETED
         then Some \<lparr>or_type = tx_type t, or_sourceType = row_type a,
           or_destType = (case tx_destinationAccountId t of None \<Rightarrow> None
              | Some i \<Rightarrow> map_option row_type (account_row_of d i)),
           or_amount = tx_amount t, pr_date = tx_date t\<rparr>
         else None) (transactions d)"

definition passes :: "row_filter \<Rightarrow> PeriodRow \<Rightarrow> bool" where
  "passes flt r = flt (or_type r) (or_sourceType r) (or_destType r)"

text \<open>GROUP BY: one row per key, with the sum of the amounts.\<close>

definition grouped :: "(PeriodRow \<Rightarrow> 'k) \<Rightarrow> PeriodRow list \<Rightarrow> PeriodRow list" where
  "grouped key rows = map (\<lambda>k. let rs = filter (\<lambda>r. key r = k) rows
     in (hd rs)\<lparr>or_amount := sum_list (map or_amount rs)\<rparr>) (remdups (map key rows))"

definition queryOpening :: "string \<Rightarrow> int \<Rightarrow> row_filter \<Rightarrow> db \<Rightarrow> OpeningRow list" where
  "queryOpening ws startDate flt d = map OpeningRow.truncate (grouped (\<lambda>r. (or_type r, or_sourceType r, or_destType r))
     (filter (\<lambda>r. pr_date r < startDate \<and> passes flt r) (joined ws d)))"

definition queryPeriod :: "string \<Rightarrow> int \<Rightarrow> int \<Rightarrow> row_filter \<Rightarrow> db \<Rightarrow> PeriodRow list" where
  "queryPeriod ws startDate endDate flt d = grouped (\<lambda>r. (pr_date r, or_type r, or_sourceType r, or_destType r))
     (filter (\<lambda>r. startDate \<le> pr_date r \<and> pr_date r \<le> endDate \<and> passes flt r) (joined ws d))"

definition balances_where :: "(account_row \<Rightarrow> bool) \<Rightarrow> string \<Rightarrow> db \<Rightarrow> account_row list" where
  "balances_where p ws d = filter (\<lambda>r. row_workspaceId r = ws \<and> p r) (accounts d)"

definition queryTotalInvested :: "string \<Rightarrow> db \<Rightarrow> int" where
  "queryTotalInvested ws d =
     sum_list (map row_balance (balances_where (\<lambda>r. row_type r = AccountType_value INVESTMENT) ws d))"

definition queryCurrentNetWorth :: "string \<Rightarrow> db \<Rightarrow> int" where
  "queryCurrentNetWorth ws d = sum_list (map (\<lambda>r.
     if row_type r = AccountType_value CREDIT_CARD then - row_balance r else row_balance r) (balances_where (\<lambda>_. True) ws d))"

definition queryTotalGeneralBalance :: "string \<Rightarrow> db \<Rightarrow> int" where
  "queryTotalGeneralBalance ws d = sum_list (map row_balance (balances_where
     (\<lambda>r. row_type r \<in> {AccountType_value CHECKING, AccountType_value CASH}) ws d))"

section \<open>Daily summaries\<close>

text \<open>The part of a row that counts under a resolver: signed, or as income and as expense.\<close>

definition signed :: "TypeResolver \<Rightarrow> 'a OpeningRow_scheme \<Rightarrow> int" where
  "signed resolve row = (case resolve (or_type row) (or_sourceType row) (or_destType row) of
      INCOME \<Rightarrow> or_amount row | EXPENSE \<Rightarrow> - or_amount row | TRANSFER \<Rightarrow> 0)"

definition calculateNetPeriodEffect :: "PeriodRow list \<Rightarrow> TypeResolver \<Rightarrow> int" where
  "calculateNetPeriodEffect period resolve = fold (\<lambda>row net. net + signed resolve row) period 0"

definition applyOpeningBalance :: "OpeningRow list \<Rightarrow> TypeResolver \<Rightarrow> int" where
  "applyOpeningBalance opening resolve = fold (\<lambda>row bal. bal + signed resolve row) opening 0"

record DailyBucket =
  db_income :: int
  db_expense :: int

text \<open>A \<open>Map\<close> keeps the order in which keys are set first.\<close>

fun map_set :: "string \<Rightarrow> 'v \<Rightarrow> (string \<times> 'v) list \<Rightarrow> (string \<times> 'v) list" where
  "map_set k v [] = [(k, v)]"
| "map_set k v ((j, u) # m) = (if j = k then (k, v) # m else (j, u) # map_set k v m)"

definition dayKey :: "date_provider \<Rightarrow> string \<Rightarrow> int \<Rightarrow> string" where
  "dayKey dp tz date = dp_format dp date LOCAL_DATE_FORMAT tz"

text \<open>The loop of \<open>buildDailyBuckets\<close> has no bound of its own: \<open>None\<close> is that it never ends.\<close>

partial_function (option) bucket_loop ::
  "date_provider \<Rightarrow> string \<Rightarrow> int \<Rightarrow> int \<Rightarrow> int \<Rightarrow> (string \<times> DailyBucket) list \<Rightarrow> (string \<times> DailyBucket) list option" where
  "bucket_loop dp tz startDate endDate dayOffset dailyMap =
     (let day = dp_add dp startDate dayOffset Day tz in
      if endDate < day then Some dailyMap
      else bucket_loop dp tz startDate endDate (dayOffset + 1)
             (map_set (dayKey dp tz day) \<lparr>db_income = 0, db_expense = 0\<rparr> dailyMap))"

definition buildDailyBuckets :: "date_provider \<Rightarrow> string \<Rightarrow> int \<Rightarrow> int \<Rightarrow> (string \<times> DailyBucket) list option" where
  "buildDailyBuckets dp tz startDate endDate = bucket_loop dp tz startDate endDate 0 []"

definition accumulate_row :: "TypeResolver \<Rightarrow> PeriodRow \<Rightarrow> DailyBucket \<Rightarrow> DailyBucket" where
  "accumulate_row resolve row day = (case resolve (or_type row) (or_sourceType row) (or_destType row) of
      INCOME \<Rightarrow> day\<lparr>db_income := db_income day + or_amount row\<rparr>
    | EXPENSE \<Rightarrow> day\<lparr>db_expense := db_expense day + or_amount row\<rparr>
    | TRANSFER \<Rightarrow> day)"

definition accumulatePeriod :: "date_provider \<Rightarrow> string \<Rightarrow> TypeResolver \<Rightarrow> PeriodRow list
    \<Rightarrow> (string \<times> DailyBucket) list \<Rightarrow> (string \<times> DailyBucket) list" where
  "accumulatePeriod dp tz resolve period dailyMap = fold (\<lambda>row m. case map_of m (dayKey dp tz (pr_date row)) of
       None \<Rightarrow> m | Some day \<Rightarrow> map_set (dayKey dp tz (pr_date row)) (accumulate_row resolve row day) m) period dailyMap"

record DaySummary =
  ds_date :: string
  ds_income :: rat
  ds_expense :: rat
  ds_balance :: rat

fun toDaySummaries :: "(string \<times> DailyBucket) list \<Rightarrow> int \<Rightarrow> DaySummary list" where
  "toDaySummaries [] accumulatedBalance = []"
| "toDaySummaries ((dateKey, day) # m) accumulatedBalance =
     (let bal = accumulatedBalance + (db_income day - db_expense day)
      in \<lparr>ds_date = dateKey, ds_income = centsToDecimal (db_income day), ds_expense = centsToDecimal (db_expense day),
          ds_balance = centsToDecimal bal\<rparr> # toDaySummaries m bal)"

definition buildDailySummary :: "date_provider \<Rightarrow> string \<Rightarrow> int \<Rightarrow> int \<Rightarrow> OpeningRow list \<Rightarrow> PeriodRow list
    \<Rightarrow> TypeResolver \<Rightarrow> int option \<Rightarrow> DaySummary list option" where
  "buildDailySummary dp tz startDate endDate opening period resolve explicitStartBalance =
     map_option (\<lambda>m. toDaySummaries (accumulatePeriod dp tz resolve period m)
         (case explicitStartBalance of Some b \<Rightarrow> b | None \<Rightarrow> applyOpeningBalance opening resolve))
       (buildDailyBuckets dp tz startDate endDate)"

definition buildNetWorthEvolution :: "date_provider \<Rightarrow> string \<Rightarrow> int \<Rightarrow> int \<Rightarrow> PeriodRow list \<Rightarrow> int \<Rightarrow> DaySummary list option" where
  "buildNetWorthEvolution dp tz startDate endDate period currentNetWorth =
     buildDailySummary dp tz startDate endDate [] period resolveNetWorthType
       (Some (currentNetWorth - calculateNetPeriodEffect period resolveNetWorthType))"

section \<open>BalanceEvolutionService\<close>

text \<open>What the reports use of the date provider besides the operations of the other modules;
  the last three take a calendar date.\<close>

record period_provider =
  pp_dates :: date_provider
  pp_endOfDay :: "int \<Rightarrow> string \<Rightarrow> int"
  pp_startOfMonth :: "int \<Rightarrow> string \<Rightarrow> int"
  pp_endOfMonth :: "int \<Rightarrow> string \<Rightarrow> int"
  pp_endOfDate :: "string \<Rightarrow> string \<Rightarrow> int"
  pp_startOfMonthOf :: "string \<Rightarrow> string \<Rightarrow> int"
  pp_endOfMonthOf :: "string \<Rightarrow> string \<Rightarrow> int"

record balance_evolution =
  be_evolution :: "DaySummary list"
  be_investments :: "DaySummary list"
  be_netWorth :: "DaySummary list"
  be_totalInvested :: rat

definition period_days :: "string \<Rightarrow> int" where
  "period_days period = (if period = ''7d'' then 7 else 30)"

text \<open>The report computed from the tables, on the local day of \<open>now\<close>.\<close>

definition computeBalanceEvolution ::
  "period_provider \<Rightarrow> string \<Rightarrow> int \<Rightarrow> string \<Rightarrow> string \<Rightarrow> db \<Rightarrow> balance_evolution option" where
  "computeBalanceEvolution pp tz now ws period d =
     (let dp = pp_dates pp;
          startDate = dp_startOfDayAt dp (dp_add dp now (- period_days period) Day tz) tz;
          endDate = pp_endOfDay pp now tz;
          generalPeriod = queryPeriod ws startDate endDate generalFilter d;
          investmentOpening = queryOpening ws startDate investmentFilter d;
          investmentPeriod = queryPeriod ws startDate endDate investmentFilter d;
          invested = queryTotalInvested ws d;
          netWorthPeriod = queryPeriod ws startDate endDate netWorthFilter d
      in Option.bind (buildDailySummary dp tz startDate endDate [] generalPeriod resolveGeneralType
            (Some (queryTotalGeneralBalance ws d - calculateNetPeriodEffect generalPeriod resolveGeneralType))) (\<lambda>evolution.
         Option.bind (buildDailySummary dp tz startDate endDate investmentOpening investmentPeriod resolveInvestmentType
            (Some (invested - calculateNetPeriodEffect investmentPeriod resolveInvestmentType))) (\<lambda>investments.
         Option.bind (buildNetWorthEvolution dp tz startDate endDate netWorthPeriod (queryCurrentNetWorth ws d)) (\<lambda>netWorth.
         Some \<lparr>be_evolution = evolution, be_investments = investments, be_netWorth = netWorth,
               be_totalInvested = centsToDecimal invested\<rparr>))))"

end
