(* ===== verification/ReportServices.thy ===== *)
theory ReportServices
  imports Reports Jobs Directory
begin

text \<open>
  The report services of src/src/modules/report/features with their queries
  (report.repository.ts, month-projection.repository.ts, \<open>getTopExpensesByCategory\<close>),
  the cache in front of them (shared/cache/report-cache.ts) and
  GetWorkspaceTimezoneService. PostgreSQL's local day of an instant is the parameter
  \<open>sql_day\<close>: the number of the day in a zone.
\<close>

section \<open>The summary of the month: queries\<close>

record DateRange =
  rg_start :: int
  rg_end :: int

record SummaryRanges =
  currentStart :: int
  currentEnd :: int
  prevStart :: int
  prevEnd :: int
  prevMtdEnd :: int

record SummaryMetrics =
  currentMonthData :: PeriodTotals
  previousMonthData :: PeriodTotals
  previousMonthToDateData :: PeriodTotals

definition sumAmountBy :: "(transaction \<Rightarrow> bool) \<Rightarrow> transaction list \<Rightarrow> int" where
  "sumAmountBy condition rows = sum_list (map tx_amount (filter condition rows))"

definition dated :: "int \<Rightarrow> int \<Rightarrow> transaction \<Rightarrow> bool" where
  "dated from till t = (from \<le> tx_date t \<and> tx_date t \<le> till)"

definition totals_between :: "int \<Rightarrow> int \<Rightarrow> transaction list \<Rightarrow> PeriodTotals" where
  "totals_between from till rows =
     \<lparr>totalIncome = sumAmountBy (\<lambda>t. tx_type t = INCOME \<and> dated from till t) rows,
      totalExpense = sumAmountBy (\<lambda>t. tx_type t = EXPENSE \<and> dated from till t) rows\<rparr>"

definition findMonthSummaryMetrics :: "string \<Rightarrow> SummaryRanges \<Rightarrow> db \<Rightarrow> SummaryMetrics" where
  "findMonthSummaryMetrics ws ranges d =
     (let rows = filter (\<lambda>t. tx_workspaceId t = ws \<and> tx_status t = COMPLETED
            \<and> dated (prevStart ranges) (currentEnd ranges) t) (transactions d)
      in \<lparr>currentMonthData = totals_between (currentStart ranges) (currentEnd ranges) rows,
          previousMonthData = totals_between (prevStart ranges) (prevEnd ranges) rows,
          previousMonthToDateData = totals_between (prevStart ranges) (prevMtdEnd ranges) rows\<rparr>)"

definition SYSTEM_CATEGORY_IDS :: "string list" where
  "SYSTEM_CATEGORY_IDS = [SYSTEM_CATEGORY_TRANSFER, SYSTEM_CATEGORY_CREDIT_CARD_PAYMENT]"

definition isPlain :: "int \<Rightarrow> transaction \<Rightarrow> bool" where
  "isPlain currentMonthStart t = (tx_type t = EXPENSE \<and> tx_recurringId t = None \<and> tx_installmentGroupId t = None
     \<and> tx_categoryId t \<notin> set SYSTEM_CATEGORY_IDS \<and> (tx_status t = COMPLETED \<or> currentMonthStart \<le> tx_date t))"

definition month_key :: "int \<Rightarrow> string" where
  "month_key day = keyOf (yearFromDay day) (monthFromDay day + 1)"

text \<open>One row per local month that has a transaction, in the order of the keys.\<close>

definition findMonthLedger ::
  "(string \<Rightarrow> int \<Rightarrow> int) \<Rightarrow> string \<Rightarrow> string \<Rightarrow> DateRange \<Rightarrow> int \<Rightarrow> db \<Rightarrow> LedgerMonth list" where
  "findMonthLedger sql_day ws timezone window currentMonthStart d =
     (let rows = filter (\<lambda>t. tx_workspaceId t = ws \<and> dated (rg_start window) (rg_end window) t) (transactions d);
          localDay = (\<lambda>t. sql_day timezone (tx_date t));
          key = (\<lambda>t. month_key (localDay t))
      in map (\<lambda>k. let mine = filter (\<lambda>t. key t = k) rows
           in \<lparr>lm_key = k,
               lm_totalExpense = sumAmountBy (\<lambda>t. tx_status t = COMPLETED \<and> tx_type t = EXPENSE) mine,
               lm_pending = \<lparr>totalIncome = sumAmountBy (\<lambda>t. tx_status t = PENDING \<and> tx_type t = INCOME) mine,
                 totalExpense = sumAmountBy (\<lambda>t. tx_status t = PENDING \<and> tx_type t = EXPENSE) mine\<rparr>,
               lm_plainExpenses = map (\<lambda>t. \<lparr>pe_day = dateFromDay (localDay t), pe_categoryId = tx_categoryId t,
                   pe_amount = tx_amount t, pe_pending = (tx_status t = PENDING)\<rparr>)
                 (sort_key localDay (sort_key tx_id (filter (isPlain currentMonthStart) mine)))\<rparr>)
         (sort (remdups (map key rows))))"

definition findActiveRecurringRules :: "string \<Rightarrow> DateRange \<Rightarrow> db \<Rightarrow> RecurringRuleSnapshot list" where
  "findActiveRecurringRules ws month d = map (\<lambda>r.
     \<lparr>rr_type = rc_type r, rr_amount = rc_amount r, rr_frequency = rc_frequency r, rr_interval = rc_interval r,
      rr_startDate = rc_startDate r, rr_endDate = rc_endDate r, rr_lastGenerated = rc_lastGenerated r,
      rr_materializedDates = sort (map tx_date (filter (\<lambda>t. tx_recurringId t = Some (rc_id r)
        \<and> dated (rg_start month) (rg_end month) t) (transactions d)))\<rparr>)
     (filter (\<lambda>r. rc_workspaceId r = ws \<and> rc_active r \<and> rc_type r \<in> {INCOME, EXPENSE} \<and> rc_startDate r \<le> rg_end month
        \<and> (case rc_endDate r of None \<Rightarrow> True | Some e \<Rightarrow> rg_start month \<le> e)) (recurrings d))"

definition findAllByWorkspaceId :: "string \<Rightarrow> db \<Rightarrow> account list either" where
  "findAllByWorkspaceId ws d = traverse account_toDomain (filter (\<lambda>r. row_workspaceId r = ws) (accounts d))"

section \<open>FindMonthSummaryService\<close>

record AccountBalances =
  totalCheckingBalance :: int
  totalInvestmentBalance :: int
  totalCreditCardBalance :: int

fun add_account :: "account \<Rightarrow> AccountBalances \<Rightarrow> AccountBalances" where
  "add_account (CheckingAccount p) b = b\<lparr>totalCheckingBalance := totalCheckingBalance b + acc_balance p\<rparr>"
| "add_account (CashAccount p) b = b\<lparr>totalCheckingBalance := totalCheckingBalance b + acc_balance p\<rparr>"
| "add_account (InvestmentAccount p) b = b\<lparr>totalInvestmentBalance := totalInvestmentBalance b + acc_balance p\<rparr>"
| "add_account (CreditCard p c) b = b\<lparr>totalCreditCardBalance := totalCreditCardBalance b + acc_balance p\<rparr>"

definition aggregateAccountBalances :: "account list \<Rightarrow> AccountBalances" where
  "aggregateAccountBalances accts = fold add_account accts
     \<lparr>totalCheckingBalance = 0, totalInvestmentBalance = 0, totalCreditCardBalance = 0\<rparr>"

definition calculatePercentageChange :: "int \<Rightarrow> int \<Rightarrow> rat" where
  "calculatePercentageChange now_total previous =
     (if previous = 0 then if 0 < now_total then 100 else 0
      else rat_of_int (now_total - previous) / rat_of_int previous * 100)"

definition calculateSavingRate :: "int \<Rightarrow> int \<Rightarrow> int" where
  "calculateSavingRate earned spent =
     (if earned \<le> 0 then 0 else js_round (rat_of_int (earned - spent) / rat_of_int earned * 100))"

record MonthSummary =
  ms_month :: int
  ms_totals :: PeriodTotals
  ms_balances :: AccountBalances
  currentMonthSaving :: int
  previousMonthCompareSaving :: rat
  previousMonthToDate :: PeriodTotals
  projection :: MonthProjection

text \<open>The formats of dayjs that the service turns into numbers.\<close>

definition day_number :: "date_provider \<Rightarrow> int \<Rightarrow> string \<Rightarrow> int" where
  "day_number dp t timezone = js_number (dp_format dp t ''D'' timezone)"

definition previousMonthToDateEnd :: "period_provider \<Rightarrow> int \<Rightarrow> int \<Rightarrow> int \<Rightarrow> string \<Rightarrow> int" where
  "previousMonthToDateEnd pp now previousMonthStart previousMonthEnd timezone =
     (let dp = pp_dates pp;
          sameDay = dp_add dp previousMonthStart (day_number dp now timezone - 1) Day timezone;
          sameDayEnd = pp_endOfDay pp sameDay timezone
      in if previousMonthEnd < sameDayEnd then previousMonthEnd else sameDayEnd)"

definition summary_ranges :: "period_provider \<Rightarrow> int \<Rightarrow> string \<Rightarrow> SummaryRanges" where
  "summary_ranges pp now timezone =
     (let start = pp_startOfMonth pp now timezone;
          previous = dp_add (pp_dates pp) start (- 1) Month timezone;
          prev_start = pp_startOfMonth pp previous timezone;
          prev_end = pp_endOfMonth pp previous timezone
      in \<lparr>currentStart = start, currentEnd = pp_endOfMonth pp now timezone, prevStart = prev_start, prevEnd = prev_end,
          prevMtdEnd = previousMonthToDateEnd pp now prev_start prev_end timezone\<rparr>)"

definition projection_range :: "period_provider \<Rightarrow> DateRange \<Rightarrow> string \<Rightarrow> DateRange" where
  "projection_range pp month timezone =
     (let lookback = dp_add (pp_dates pp) (rg_start month) (- LOOKBACK_MONTHS) Month timezone
      in \<lparr>rg_start = pp_startOfMonth pp lookback timezone, rg_end = rg_end month\<rparr>)"

definition next_of_rule :: "date_provider \<Rightarrow> int \<Rightarrow> RecurringRuleSnapshot \<Rightarrow> int" where
  "next_of_rule dp date rule = nextOccurrence dp \<lparr>sc_startDate = date, sc_frequency = rr_frequency rule,
     sc_interval = rr_interval rule, sc_timezone = RECURRING_GENERATION_TIMEZONE\<rparr>"

definition computeMonthSummary ::
  "period_provider \<Rightarrow> (string \<Rightarrow> int \<Rightarrow> int) \<Rightarrow> string \<Rightarrow> int \<Rightarrow> string \<Rightarrow> db \<Rightarrow> MonthSummary either" where
  "computeMonthSummary pp sql_day timezone now ws d =
     (let dp = pp_dates pp;
          ranges = summary_ranges pp now timezone;
          month = \<lparr>rg_start = currentStart ranges, rg_end = currentEnd ranges\<rparr>;
          metrics = findMonthSummaryMetrics ws ranges d;
          totals = currentMonthData metrics;
          previous = previousMonthData metrics
      in and_then (findAllByWorkspaceId ws d) (\<lambda>accts. Inr
         \<lparr>ms_month = currentStart ranges,
          ms_totals = totals,
          ms_balances = aggregateAccountBalances accts,
          currentMonthSaving = calculateSavingRate (totalIncome totals) (totalExpense totals),
          previousMonthCompareSaving = calculatePercentageChange (totalIncome totals - totalExpense totals)
            (totalIncome previous - totalExpense previous),
          previousMonthToDate = previousMonthToDateData metrics,
          projection = projectMonthEnd
            \<lparr>pm_key = dp_format dp (rg_start month) ''YYYY-MM'' timezone, pm_start = rg_start month, pm_end = rg_end month,
             pm_days = day_number dp (rg_end month) timezone\<rparr>
            (day_number dp now timezone)
            (findMonthLedger sql_day ws timezone (projection_range pp month timezone) (rg_start month) d)
            totals (findActiveRecurringRules ws month d) (next_of_rule dp)\<rparr>))"

section \<open>CashFlowEvolutionService: the query\<close>

definition cash_effectiveType :: TypeResolver where
  "cash_effectiveType ty source dest =
     (if ty = TRANSFER \<and> dest = Some (AccountType_value CREDIT_CARD) then EXPENSE else ty)"

definition cash_reportFilter :: row_filter where
  "cash_reportFilter ty source dest =
     (ty \<in> {INCOME, EXPENSE} \<and> source \<noteq> AccountType_value CREDIT_CARD
      \<or> ty = TRANSFER \<and> dest = Some (AccountType_value CREDIT_CARD))"

definition sum_of_type :: "TransactionType \<Rightarrow> PeriodRow list \<Rightarrow> int" where
  "sum_of_type ty rows = sum_list (map (\<lambda>r.
     if cash_effectiveType (or_type r) (or_sourceType r) (or_destType r) = ty then or_amount r else 0) rows)"

definition computeCashFlow ::
  "period_provider \<Rightarrow> (string \<Rightarrow> int \<Rightarrow> int) \<Rightarrow> string \<Rightarrow> string \<Rightarrow> string \<Rightarrow> string \<Rightarrow> db \<Rightarrow> DaySummary list" where
  "computeCashFlow pp sql_day timezone ws startDate endDate d =
     (let from = dp_startOfDay (pp_dates pp) startDate timezone;
          till = pp_endOfDate pp endDate timezone;
          day = (\<lambda>r. plain (sql_day timezone (pr_date r)));
          rows = filter (\<lambda>r. from \<le> pr_date r \<and> pr_date r \<le> till \<and> passes cash_reportFilter r) (joined ws d)
      in map (\<lambda>k. let mine = filter (\<lambda>r. day r = k) rows; incomes = sum_of_type INCOME mine; expenses = sum_of_type EXPENSE mine
           in \<lparr>ds_date = k, ds_income = centsToDecimal incomes, ds_expense = centsToDecimal expenses,
               ds_balance = centsToDecimal (incomes - expenses)\<rparr>)
         (rev (sort (remdups (map day rows)))))"

section \<open>GetExpensesByCategoryService: the query\<close>

definition TOP_CATEGORIES_LIMIT :: nat where "TOP_CATEGORIES_LIMIT = 5"

record TopExpenses =
  te_expenses :: "(string \<times> string \<times> int) list"
  te_totalExpense :: int

text \<open>
  Categories of equal totals come in the order of their first transaction; PostgreSQL
  does not say in which.
\<close>

definition getTopExpensesByCategory ::
  "string \<Rightarrow> int \<Rightarrow> int \<Rightarrow> nat \<Rightarrow> category list \<Rightarrow> db \<Rightarrow> TopExpenses" where
  "getTopExpensesByCategory ws startDate endDate pageSize categories d =
     (let rows = filter (\<lambda>t. tx_workspaceId t = ws \<and> tx_type t = EXPENSE \<and> tx_status t = COMPLETED
            \<and> dated startDate endDate t) (transactions d);
          named = List.map_filter (\<lambda>t. map_option (\<lambda>c. ((cat_id c, cat_name c), tx_amount t))
            (find_row (\<lambda>c. cat_id c = tx_categoryId t) categories)) rows;
          groups = map (\<lambda>k. (fst k, snd k, sum_list (map snd (filter (\<lambda>r. fst r = k) named)))) (remdups (map fst named))
      in \<lparr>te_expenses = take pageSize (sort_key (\<lambda>(_, _, amount). - amount) groups),
          te_totalExpense = sum_list (map tx_amount rows)\<rparr>)"

definition computeExpensesByCategory ::
  "period_provider \<Rightarrow> string \<Rightarrow> string \<Rightarrow> int \<Rightarrow> int \<Rightarrow> platform \<Rightarrow> TopExpenses" where
  "computeExpensesByCategory pp timezone ws month year p =
     (let referenceDate = js_string year @ ''-'' @ pad month @ ''-01''
      in getTopExpensesByCategory ws (pp_startOfMonthOf pp referenceDate timezone) (pp_endOfMonthOf pp referenceDate timezone)
           TOP_CATEGORIES_LIMIT (pf_categories p) (pf_db p))"

section \<open>The cache of the reports\<close>

definition REPORT_CACHE_TTL_SECONDS :: int where "REPORT_CACHE_TTL_SECONDS = 6 * 60 * 60"

text \<open>\<open>millis\<close> is \<open>Date.now()\<close>, which the service turns into the string that seeds a missing counter.\<close>

definition readReportGeneration :: "'s redis_server \<Rightarrow> string \<Rightarrow> int \<Rightarrow> 's redis \<Rightarrow> 's redis \<times> int option" where
  "readReportGeneration sv ws millis r = readCounter sv (reportGenerationKey ws) (js_string millis) r"

definition bumpReportGeneration_redis :: "'s redis_server \<Rightarrow> string \<Rightarrow> int \<Rightarrow> 's redis \<Rightarrow> 's redis" where
  "bumpReportGeneration_redis sv ws millis r = fst (incrementCounter sv (reportGenerationKey ws) (js_string millis) r)"

text \<open>\<open>JSON.stringify\<close> and \<open>JSON.parse\<close> of a report are a pair of functions.\<close>

record 'v json =
  stringify :: "'v \<Rightarrow> string"
  parse :: "string \<Rightarrow> 'v"

text \<open>The key is null when there is no generation; an empty string is not a hit.\<close>

definition cached_report :: "'s redis_server \<Rightarrow> 'v json \<Rightarrow> string option \<Rightarrow> 's redis \<Rightarrow> 'v option" where
  "cached_report sv j cacheKey r = (case cacheKey of None \<Rightarrow> None
     | Some key \<Rightarrow> (case redis_get sv key r of None \<Rightarrow> None | Some s \<Rightarrow> if s = [] then None else Some (parse j s)))"

definition store_report :: "'s redis_server \<Rightarrow> 'v json \<Rightarrow> string option \<Rightarrow> 'v \<Rightarrow> 's redis \<Rightarrow> 's redis" where
  "store_report sv j cacheKey v r = (case cacheKey of None \<Rightarrow> r
     | Some key \<Rightarrow> fst (redis_set sv key (stringify j v) (Some REPORT_CACHE_TTL_SECONDS) r))"

definition generation_key :: "string \<Rightarrow> string \<Rightarrow> string \<Rightarrow> int \<Rightarrow> string" where
  "generation_key family ws suffix generation = family @ '':'' @ ws @ '':g'' @ js_string generation @ '':'' @ suffix"

section \<open>GetWorkspaceTimezoneService\<close>

definition WORKSPACE_TIMEZONE_CACHE_TTL_SECONDS :: int where
  "WORKSPACE_TIMEZONE_CACHE_TTL_SECONDS = 30 * 24 * 60 * 60"

definition workspaceTimezoneCacheKey :: "string \<Rightarrow> string" where
  "workspaceTimezoneCacheKey workspaceId = ''workspace:timezone:'' @ workspaceId"

text \<open>The memo of the process and the Redis of all; an empty string is as good as none.\<close>

type_synonym 's caches = "(string \<rightharpoonup> string) \<times> 's redis"

definition timezone_execute :: "'s redis_server \<Rightarrow> platform \<Rightarrow> string \<Rightarrow> 's caches \<Rightarrow> 's caches \<times> string" where
  "timezone_execute sv p workspaceId c = (case c of (memo, r) \<Rightarrow>
     if \<not> falsy (memo workspaceId) then (c, the (memo workspaceId))
     else let key = workspaceTimezoneCacheKey workspaceId; cached = redis_get sv key r in
       if \<not> falsy cached then ((memo(workspaceId := cached), r), the cached)
       else let stored = findTimezoneById workspaceId p in
         if falsy stored then (c, DEFAULT_TIMEZONE)
         else ((memo(workspaceId := stored), fst (redis_set sv key (the stored) (Some WORKSPACE_TIMEZONE_CACHE_TTL_SECONDS) r)),
               the stored))"

section \<open>The services\<close>

text \<open>\<open>None\<close> is a request that never ends (the loop over the days).\<close>

definition BalanceEvolution_execute ::
  "'s redis_server \<Rightarrow> balance_evolution json \<Rightarrow> period_provider \<Rightarrow> platform \<Rightarrow> string \<Rightarrow> string \<Rightarrow> 's caches
     \<Rightarrow> ('s caches \<times> balance_evolution) option" where
  "BalanceEvolution_execute sv j pp p ws period c = (case c of (memo, r) \<Rightarrow>
     case readReportGeneration sv ws (pf_now p) r of (r1, generation) \<Rightarrow>
     case timezone_execute sv p ws (memo, r1) of ((memo2, r2), timezone) \<Rightarrow>
     let now = pf_now p;
         localDay = dp_format (pp_dates pp) now LOCAL_DATE_FORMAT timezone;
         cacheKey = map_option (generation_key ''report:balance-evolution:v4'' ws (period @ '':'' @ localDay)) generation
     in case cached_report sv j cacheKey r2 of
          Some v \<Rightarrow> Some ((memo2, r2), v)
        | None \<Rightarrow> map_option (\<lambda>v. ((memo2, store_report sv j cacheKey v r2), v))
            (computeBalanceEvolution pp timezone now ws period (pf_db p)))"

definition FindMonthSummary_execute ::
  "'s redis_server \<Rightarrow> MonthSummary json \<Rightarrow> period_provider \<Rightarrow> (string \<Rightarrow> int \<Rightarrow> int) \<Rightarrow> platform \<Rightarrow> string \<Rightarrow> 's caches
     \<Rightarrow> 's caches \<times> MonthSummary either" where
  "FindMonthSummary_execute sv j pp sql_day p ws c = (case c of (memo, r) \<Rightarrow>
     case readReportGeneration sv ws (pf_now p) r of (r1, generation) \<Rightarrow>
     case timezone_execute sv p ws (memo, r1) of ((memo2, r2), timezone) \<Rightarrow>
     let now = pf_now p;
         today = dp_format (pp_dates pp) now LOCAL_DATE_FORMAT timezone;
         cacheKey = map_option (generation_key ''report:month-summary:v5'' ws today) generation
     in case cached_report sv j cacheKey r2 of
          Some v \<Rightarrow> ((memo2, r2), Inr v)
        | None \<Rightarrow> (case computeMonthSummary pp sql_day timezone now ws (pf_db p) of
            Inl e \<Rightarrow> ((memo2, r2), Inl e)
          | Inr v \<Rightarrow> ((memo2, store_report sv j cacheKey v r2), Inr v)))"

definition CashFlowEvolution_execute ::
  "'s redis_server \<Rightarrow> DaySummary list json \<Rightarrow> period_provider \<Rightarrow> (string \<Rightarrow> int \<Rightarrow> int) \<Rightarrow> platform \<Rightarrow> string \<Rightarrow> string \<Rightarrow> string
     \<Rightarrow> 's caches \<Rightarrow> 's caches \<times> DaySummary list" where
  "CashFlowEvolution_execute sv j pp sql_day p ws startDate endDate c = (case c of (memo, r) \<Rightarrow>
     case readReportGeneration sv ws (pf_now p) r of (r1, generation) \<Rightarrow>
     let cacheKey = map_option (generation_key ''report:cash-flow-evolution:v2'' ws (startDate @ '':'' @ endDate)) generation
     in case cached_report sv j cacheKey r1 of
          Some v \<Rightarrow> ((memo, r1), v)
        | None \<Rightarrow> (case timezone_execute sv p ws (memo, r1) of ((memo2, r2), timezone) \<Rightarrow>
            let v = computeCashFlow pp sql_day timezone ws startDate endDate (pf_db p)
            in ((memo2, store_report sv j cacheKey v r2), v)))"

definition GetExpensesByCategory_execute ::
  "'s redis_server \<Rightarrow> TopExpenses json \<Rightarrow> period_provider \<Rightarrow> platform \<Rightarrow> string \<Rightarrow> int \<Rightarrow> int
     \<Rightarrow> 's caches \<Rightarrow> 's caches \<times> TopExpenses" where
  "GetExpensesByCategory_execute sv j pp p ws month year c = (case c of (memo, r) \<Rightarrow>
     case readReportGeneration sv ws (pf_now p) r of (r1, generation) \<Rightarrow>
     let cacheKey = map_option (generation_key ''report:expenses-by-category:v3'' ws (js_string year @ ''-'' @ js_string month)) generation
     in case cached_report sv j cacheKey r1 of
          Some v \<Rightarrow> ((memo, r1), v)
        | None \<Rightarrow> (case timezone_execute sv p ws (memo, r1) of ((memo2, r2), timezone) \<Rightarrow>
            let v = computeExpensesByCategory pp timezone ws month year p
            in ((memo2, store_report sv j cacheKey v r2), v)))"

section \<open>Presenters\<close>

definition periodTotalsToHTTP :: "PeriodTotals \<Rightarrow> rat \<times> rat" where
  "periodTotalsToHTTP totals = (centsToDecimal (totalIncome totals), centsToDecimal (totalExpense totals))"

record MonthProjectionHTTP =
  ph_expectedIncome :: rat
  ph_expectedExpense :: rat
  ph_expectedBalance :: rat
  ph_realized :: "rat \<times> rat"
  ph_scheduled :: "rat \<times> rat"
  ph_recurringNotYetGenerated :: "rat \<times> rat"
  ph_variableEstimate :: rat
  ph_usualExpense :: "rat option"
  ph_basisMonths :: nat
  ph_hasHistory :: bool

record MonthSummaryHTTP =
  mh_month :: int
  mh_totals :: "rat \<times> rat"
  mh_checking :: rat
  mh_investment :: rat
  mh_creditCard :: rat
  mh_currentMonthSaving :: int
  mh_previousMonthCompareSaving :: rat
  mh_previousMonthToDate :: "rat \<times> rat"
  mh_projection :: MonthProjectionHTTP

definition MonthSummary_toHTTP :: "MonthSummary \<Rightarrow> MonthSummaryHTTP" where
  "MonthSummary_toHTTP s = (let p = projection s; b = ms_balances s in
     \<lparr>mh_month = ms_month s, mh_totals = periodTotalsToHTTP (ms_totals s),
      mh_checking = centsToDecimal (totalCheckingBalance b), mh_investment = centsToDecimal (totalInvestmentBalance b),
      mh_creditCard = centsToDecimal (totalCreditCardBalance b),
      mh_currentMonthSaving = currentMonthSaving s, mh_previousMonthCompareSaving = previousMonthCompareSaving s,
      mh_previousMonthToDate = periodTotalsToHTTP (previousMonthToDate s),
      mh_projection = \<lparr>ph_expectedIncome = centsToDecimal (expectedIncome p), ph_expectedExpense = centsToDecimal (expectedExpense p),
        ph_expectedBalance = centsToDecimal (expectedBalance p), ph_realized = periodTotalsToHTTP (mp_realized p),
        ph_scheduled = periodTotalsToHTTP (mp_scheduled p),
        ph_recurringNotYetGenerated = periodTotalsToHTTP (recurringNotYetGenerated p),
        ph_variableEstimate = centsToDecimal (variableEstimate p), ph_usualExpense = map_option centsToDecimal (usualExpense p),
        ph_basisMonths = basisMonths p, ph_hasHistory = hasHistory p\<rparr>\<rparr>)"

text \<open>\<open>Number(x.toFixed(2))\<close>: two decimals, halves rounded up (the values are not negative).\<close>

definition percentageOf :: "int \<Rightarrow> int \<Rightarrow> rat" where
  "percentageOf amount whole = rat_of_int (js_round (rat_of_int amount / rat_of_int whole * 100 * 100)) / 100"

record TopExpenseHTTP =
  th_categoryId :: string
  th_categoryName :: string
  th_totalAmount :: rat
  th_percentage :: rat

definition TopExpenses_toHTTP :: "TopExpenses \<Rightarrow> TopExpenseHTTP list" where
  "TopExpenses_toHTTP result =
     (let whole = te_totalExpense result in
      if whole = 0 then []
      else let row = (\<lambda>(i, name, amount). \<lparr>th_categoryId = i, th_categoryName = name,
                 th_totalAmount = centsToDecimal amount, th_percentage = percentageOf amount whole\<rparr>);
               othersAmount = whole - sum_list (map (\<lambda>(_, _, amount). amount) (te_expenses result))
           in map row (te_expenses result) @ (if 0 < othersAmount then [row (''others'', ''Outros'', othersAmount)] else []))"

end
