(* ===== verification/ReportSeries.thy ===== *)
theory ReportSeries
  imports Reports
begin

text \<open>
  What the daily series of the reports contain: the loop over the days ends, grouping
  the rows of a query keeps every sum, and each balance of a series is today's balance
  without what came after that day.
\<close>

section \<open>Grouping keeps sums\<close>

lemma sum_by_key:
  assumes "finite K" "key ` set rows \<subseteq> K"
  shows "(\<Sum>k\<in>K. sum_list (map g (filter (\<lambda>r. key r = k) rows))) = (sum_list (map g rows) :: int)"
  using assms(2)
proof (induction rows)
  case (Cons r rows)
  have "(\<Sum>k\<in>K. sum_list (map g (filter (\<lambda>r. key r = k) (r # rows))))
      = (\<Sum>k\<in>K. (if k = key r then g r else 0) + sum_list (map g (filter (\<lambda>r. key r = k) rows)))"
    by (intro sum.cong) auto
  also have "\<dots> = g r + sum_list (map g rows)"
    using Cons assms(1) by (simp add: sum.distrib sum.delta)
  finally show ?case by simp
qed simp

lemma grouped_sum:
  assumes "\<And>r s. key r = key s \<Longrightarrow> q r = q s" "\<And>r x. q (r\<lparr>or_amount := x\<rparr>) = q r"
    and "\<And>r. f r = c (key r) * or_amount r" "\<And>r x. key (r\<lparr>or_amount := x\<rparr>) = key r"
  shows "sum_list (map f (filter q (grouped key rows))) = (sum_list (map f (filter q rows)) :: int)"
proof -
  let ?rs = "\<lambda>k. filter (\<lambda>r. key r = k) rows"
  let ?g = "\<lambda>r. if q r then f r else 0"
  have one: "?g ((hd (?rs k))\<lparr>or_amount := sum_list (map or_amount (?rs k))\<rparr>) = sum_list (map ?g (?rs k))"
    if "k \<in> key ` set rows" for k
  proof -
    from that have "?rs k \<noteq> []" by (auto simp: filter_empty_conv)
    then have hd: "hd (?rs k) \<in> set (?rs k)" by (rule hd_in_set)
    have "sum_list (map ?g (?rs k)) = sum_list (map (\<lambda>r. if q (hd (?rs k)) then c k * or_amount r else 0) (?rs k))"
      using hd assms(1,3) by (intro arg_cong[of _ _ sum_list] map_cong) auto
    also have "\<dots> = (if q (hd (?rs k)) then c k * sum_list (map or_amount (?rs k)) else 0)"
      by (simp add: sum_list_const_mult)
    finally show ?thesis using hd assms(2-4) by simp
  qed
  have "sum_list (map f (filter q (grouped key rows))) = sum_list (map ?g (grouped key rows))"
    by (simp add: sum_list_map_filter')
  also have "\<dots> = (\<Sum>k\<in>key ` set rows. ?g ((hd (?rs k))\<lparr>or_amount := sum_list (map or_amount (?rs k))\<rparr>))"
    by (simp add: grouped_def comp_def Let_def sum_list_distinct_conv_sum_set)
  also have "\<dots> = (\<Sum>k\<in>key ` set rows. sum_list (map ?g (?rs k)))" using one by (intro sum.cong) auto
  also have "\<dots> = sum_list (map ?g rows)" by (rule sum_by_key) auto
  finally show ?thesis by (simp add: sum_list_map_filter')
qed

section \<open>Buckets\<close>

text \<open>
  What the code relies on of the calendar between two instants: the \<open>n\<close> days from the
  first on start before the end, the day after them does not, they have keys of their
  own, and every instant in between falls on one of them.
\<close>

definition day_at :: "date_provider \<Rightarrow> string \<Rightarrow> int \<Rightarrow> nat \<Rightarrow> string" where
  "day_at dp tz startDate k = dayKey dp tz (dp_add dp startDate (int k) Day tz)"

definition day_range :: "date_provider \<Rightarrow> string \<Rightarrow> int \<Rightarrow> int \<Rightarrow> nat \<Rightarrow> bool" where
  "day_range dp tz startDate endDate n = ((\<forall>k<n. dp_add dp startDate (int k) Day tz \<le> endDate)
     \<and> endDate < dp_add dp startDate (int n) Day tz \<and> distinct (map (day_at dp tz startDate) [0..<n])
     \<and> (\<forall>x. startDate \<le> x \<and> x \<le> endDate \<longrightarrow> dayKey dp tz x \<in> set (map (day_at dp tz startDate) [0..<n])))"

lemma map_set_new: "k \<notin> fst ` set m \<Longrightarrow> map_set k v m = m @ [(k, v)]"
  by (induction m) auto

lemma bucket_loop_steps:
  assumes "day_range dp tz startDate endDate n" "j \<le> n"
  shows "bucket_loop dp tz startDate endDate (int j)
      (map (\<lambda>k. (day_at dp tz startDate k, \<lparr>db_income = 0, db_expense = 0\<rparr>)) [0..<j])
    = Some (map (\<lambda>k. (day_at dp tz startDate k, \<lparr>db_income = 0, db_expense = 0\<rparr>)) [0..<n])"
  using assms(2)
proof (induction "n - j" arbitrary: j)
  case 0
  then have "j = n" by simp
  with assms(1) show ?case by (subst bucket_loop.simps) (simp add: day_range_def Let_def)
next
  case (Suc x)
  then have j: "j < n" by simp
  let ?m = "\<lambda>j. map (\<lambda>k. (day_at dp tz startDate k, \<lparr>db_income = 0, db_expense = 0\<rparr>)) [0..<j]"
  from assms(1) have "distinct (map (day_at dp tz startDate) [0..<n])" by (simp add: day_range_def)
  then have inj: "inj_on (day_at dp tz startDate) {0..<n}" by (simp add: distinct_map)
  have "day_at dp tz startDate j \<noteq> day_at dp tz startDate x" if "x < j" for x
    using inj_onD[OF inj, of j x] j that by auto
  then have "day_at dp tz startDate j \<notin> fst ` set (?m j)" by force
  then have "map_set (day_at dp tz startDate j) \<lparr>db_income = 0, db_expense = 0\<rparr> (?m j) = ?m (Suc j)"
    by (simp add: map_set_new)
  moreover have "dp_add dp startDate (int j) Day tz \<le> endDate" using assms(1) j by (simp add: day_range_def)
  moreover have "bucket_loop dp tz startDate endDate (int (Suc j)) (?m (Suc j)) = Some (?m n)"
    using Suc j by (intro Suc(1)) auto
  ultimately show ?case
    by (subst bucket_loop.simps) (simp add: Let_def day_at_def add.commute)
qed

lemma buckets:
  "day_range dp tz startDate endDate n \<Longrightarrow> buildDailyBuckets dp tz startDate endDate
     = Some (map (\<lambda>k. (day_at dp tz startDate k, \<lparr>db_income = 0, db_expense = 0\<rparr>)) [0..<n])"
  using bucket_loop_steps[of dp tz startDate endDate n 0] by (simp add: buildDailyBuckets_def)

text \<open>Every row lands in the bucket of its day.\<close>

definition filled :: "date_provider \<Rightarrow> string \<Rightarrow> TypeResolver \<Rightarrow> PeriodRow list \<Rightarrow> string \<Rightarrow> DailyBucket \<Rightarrow> DailyBucket" where
  "filled dp tz resolve rows k = fold (accumulate_row resolve) (filter (\<lambda>r. dayKey dp tz (pr_date r) = k) rows)"

lemma map_set_update:
  "distinct (map fst m) \<Longrightarrow> map_of m k = Some v \<Longrightarrow> map_set k w m = map (\<lambda>(j, u). (j, if j = k then w else u)) m"
proof (induction m)
  case (Cons p m)
  obtain j u where p: "p = (j, u)" by (cases p)
  show ?case
  proof (cases "j = k")
    case True
    then have "i \<noteq> k" if "(i, x) \<in> set m" for i x using Cons.prems(1) p that by force
    then have "map (\<lambda>(j, u). (j, if j = k then w else u)) m = m" by (intro map_idI) auto
    with True p show ?thesis by simp
  qed (use Cons p in auto)
qed simp

lemma accumulatePeriod_filled:
  "distinct (map fst m) \<Longrightarrow> accumulatePeriod dp tz resolve rows m = map (\<lambda>(k, b). (k, filled dp tz resolve rows k b)) m"
proof (induction rows arbitrary: m)
  case Nil
  then show ?case by (simp add: accumulatePeriod_def filled_def)
next
  case (Cons r rows)
  let ?k = "dayKey dp tz (pr_date r)"
  have step: "accumulatePeriod dp tz resolve (r # rows) m = accumulatePeriod dp tz resolve rows
      (case map_of m ?k of None \<Rightarrow> m | Some day \<Rightarrow> map_set ?k (accumulate_row resolve r day) m)"
    by (simp add: accumulatePeriod_def)
  show ?case
  proof (cases "map_of m ?k")
    case None
    then have "\<forall>(j, b)\<in>set m. j \<noteq> ?k" by (force simp: map_of_eq_None_iff)
    with None Cons show ?thesis by (auto simp: step filled_def intro!: map_cong)
  next
    case (Some day)
    let ?m = "map (\<lambda>(j, u). (j, if j = ?k then accumulate_row resolve r day else u)) m"
    have same: "b = day" if "(?k, b) \<in> set m" for b
      using that Some Cons.prems by (metis map_of_is_SomeI option.inject)
    have "map fst ?m = map fst m" by (simp add: comp_def case_prod_beta')
    then have "distinct (map fst ?m)" by (simp only: Cons.prems)
    then have "accumulatePeriod dp tz resolve rows ?m = map (\<lambda>(k, b). (k, filled dp tz resolve rows k b)) ?m" by (rule Cons.IH)
    moreover have "map_set ?k (accumulate_row resolve r day) m = ?m" by (rule map_set_update[OF Cons.prems Some])
    ultimately show ?thesis using Some same by (auto simp: step filled_def intro!: map_cong)
  qed
qed

lemma filled_net:
  "db_income (filled dp tz resolve rows k b) - db_expense (filled dp tz resolve rows k b)
     = db_income b - db_expense b + sum_list (map (signed resolve) (filter (\<lambda>r. dayKey dp tz (pr_date r) = k) rows))"
proof -
  have "db_income (fold (accumulate_row resolve) rs b) - db_expense (fold (accumulate_row resolve) rs b)
      = db_income b - db_expense b + sum_list (map (signed resolve) rs)" for rs
    by (induction rs arbitrary: b) (simp_all add: accumulate_row_def signed_def split: TransactionType.split)
  then show ?thesis by (simp add: filled_def)
qed

section \<open>The balance of a day\<close>

text \<open>Its day keys and its balances, day after day.\<close>

lemma toDaySummaries_nth:
  "k < length m \<Longrightarrow> toDaySummaries m b ! k = \<lparr>ds_date = fst (m ! k),
     ds_income = centsToDecimal (db_income (snd (m ! k))), ds_expense = centsToDecimal (db_expense (snd (m ! k))),
     ds_balance = centsToDecimal (b + (\<Sum>i\<le>k. db_income (snd (m ! i)) - db_expense (snd (m ! i))))\<rparr>"
proof (induction m b arbitrary: k rule: toDaySummaries.induct)
  case (2 key day m b)
  show ?case
  proof (cases k)
    case (Suc j)
    with 2 show ?thesis by (simp add: Let_def sum.atMost_Suc_shift add.assoc del: sum.atMost_Suc)
  qed (simp add: Let_def)
qed simp

lemma length_toDaySummaries [simp]: "length (toDaySummaries m b) = length m"
  by (induction m b rule: toDaySummaries.induct) (simp_all add: Let_def)

text \<open>The rows that fall on a set of days, for days with keys of their own.\<close>

lemma sum_over_days:
  assumes "inj_on day A" "finite A"
  shows "(\<Sum>i\<in>A. sum_list (map g (filter (\<lambda>r. key r = day i) rows)))
    = (sum_list (map g (filter (\<lambda>r. key r \<in> day ` A) rows)) :: int)"
proof -
  let ?rows = "filter (\<lambda>r. key r \<in> day ` A) rows"
  have "(\<Sum>i\<in>A. sum_list (map g (filter (\<lambda>r. key r = day i) rows)))
      = (\<Sum>k\<in>day ` A. sum_list (map g (filter (\<lambda>r. key r = k) rows)))"
    by (simp add: sum.reindex[OF assms(1)] comp_def)
  also have "\<dots> = (\<Sum>k\<in>day ` A. sum_list (map g (filter (\<lambda>r. key r = k) ?rows)))"
    by (intro sum.cong arg_cong[of _ _ sum_list] arg_cong[of _ _ "map g"] refl) (auto intro: filter_cong)
  also have "\<dots> = sum_list (map g ?rows)" by (rule sum_by_key) (use assms(2) in auto)
  finally show ?thesis .
qed

lemma fold_net: "fold (\<lambda>row net. net + f row) rows (b :: int) = b + sum_list (map f rows)"
  by (induction rows arbitrary: b) simp_all

lemma calculateNetPeriodEffect_sum: "calculateNetPeriodEffect rows resolve = sum_list (map (signed resolve) rows)"
  by (simp add: calculateNetPeriodEffect_def fold_net)

text \<open>Today's balance without the rows of the days after day \<open>k\<close>.\<close>

definition balance_at :: "date_provider \<Rightarrow> string \<Rightarrow> int \<Rightarrow> nat \<Rightarrow> TypeResolver \<Rightarrow> PeriodRow list \<Rightarrow> int \<Rightarrow> nat \<Rightarrow> rat" where
  "balance_at dp tz startDate n resolve rows now_balance k = centsToDecimal (now_balance
     - sum_list (map (signed resolve) (filter (\<lambda>r. dayKey dp tz (pr_date r) \<in> day_at dp tz startDate ` {k<..<n}) rows)))"

lemma series_of_period:
  assumes range: "day_range dp tz startDate endDate n"
    and rows: "\<forall>r\<in>set rows. startDate \<le> pr_date r \<and> pr_date r \<le> endDate"
  shows "\<exists>s. buildDailySummary dp tz startDate endDate opening rows resolve
        (Some (now_balance - calculateNetPeriodEffect rows resolve)) = Some s
     \<and> map ds_date s = map (day_at dp tz startDate) [0..<n]
     \<and> map ds_balance s = map (balance_at dp tz startDate n resolve rows now_balance) [0..<n]"
proof -
  let ?day = "day_at dp tz startDate" and ?key = "\<lambda>r. dayKey dp tz (pr_date r)"
  let ?z = "\<lparr>db_income = 0, db_expense = 0\<rparr>"
  let ?S = "\<lambda>i. sum_list (map (signed resolve) (filter (\<lambda>r. ?key r = ?day i) rows))"
  let ?m = "map (\<lambda>k. (?day k, filled dp tz resolve rows (?day k) ?z)) [0..<n]"
  let ?s = "toDaySummaries ?m (now_balance - calculateNetPeriodEffect rows resolve)"
  from range have dist: "distinct (map ?day [0..<n])" by (simp add: day_range_def)
  then have inj: "inj_on ?day {..<n}" by (simp add: distinct_map atLeast0LessThan)
  have all: "\<forall>r\<in>set rows. ?key r \<in> ?day ` {..<n}"
    using range rows by (auto simp: day_range_def atLeast0LessThan)
  have total: "calculateNetPeriodEffect rows resolve = (\<Sum>i<n. ?S i)"
    using sum_over_days[OF inj finite_lessThan, of "signed resolve" ?key rows] all
    by (simp add: calculateNetPeriodEffect_sum filter_True)
  have bal: "now_balance - (\<Sum>i<n. ?S i) + (\<Sum>i\<le>k. ?S i) = now_balance - (\<Sum>i\<in>{k<..<n}. ?S i)" if "k < n" for k
  proof -
    have "{..<n} = {..k} \<union> {k<..<n}" using that by auto
    then have "(\<Sum>i<n. ?S i) = (\<Sum>i\<in>{..k} \<union> {k<..<n}. ?S i)" by (rule arg_cong)
    also have "\<dots> = (\<Sum>i\<le>k. ?S i) + (\<Sum>i\<in>{k<..<n}. ?S i)" by (rule sum.union_disjoint) auto
    finally have "(\<Sum>i<n. ?S i) = (\<Sum>i\<le>k. ?S i) + (\<Sum>i\<in>{k<..<n}. ?S i)" .
    then show ?thesis by simp
  qed
  have later: "(\<Sum>i\<in>{k<..<n}. ?S i)
      = sum_list (map (signed resolve) (filter (\<lambda>r. ?key r \<in> ?day ` {k<..<n}) rows))" for k
    by (rule sum_over_days) (auto intro: inj_on_subset[OF inj])
  have nth: "ds_balance (?s ! k) = balance_at dp tz startDate n resolve rows now_balance k"
    "ds_date (?s ! k) = ?day k" if "k < n" for k
  proof -
    have "(\<Sum>i\<le>k. db_income (snd (?m ! i)) - db_expense (snd (?m ! i))) = (\<Sum>i\<le>k. ?S i)"
      using that by (intro sum.cong) (simp_all add: filled_net)
    with that show "ds_balance (?s ! k) = balance_at dp tz startDate n resolve rows now_balance k"
      by (simp add: toDaySummaries_nth total bal later balance_at_def)
    from that show "ds_date (?s ! k) = ?day k" by (simp add: toDaySummaries_nth)
  qed
  have "accumulatePeriod dp tz resolve rows (map (\<lambda>k. (?day k, ?z)) [0..<n]) = ?m"
    using dist by (subst accumulatePeriod_filled) (simp_all add: comp_def)
  then have "buildDailySummary dp tz startDate endDate opening rows resolve
      (Some (now_balance - calculateNetPeriodEffect rows resolve)) = Some ?s"
    by (simp add: buildDailySummary_def buckets[OF range])
  moreover have "map ds_date ?s = map ?day [0..<n]" by (rule nth_equalityI) (simp_all add: nth)
  moreover have "map ds_balance ?s = map (balance_at dp tz startDate n resolve rows now_balance) [0..<n]"
    by (rule nth_equalityI) (simp_all add: nth)
  ultimately show ?thesis by blast
qed

section \<open>From the rows of the query to the transactions\<close>

definition rows_between :: "string \<Rightarrow> int \<Rightarrow> int \<Rightarrow> row_filter \<Rightarrow> db \<Rightarrow> PeriodRow list" where
  "rows_between ws startDate endDate flt d =
     filter (\<lambda>r. startDate \<le> pr_date r \<and> pr_date r \<le> endDate \<and> passes flt r) (joined ws d)"

lemma set_grouped:
  assumes "r \<in> set (grouped key rows)"
  shows "\<exists>r'\<in>set rows. \<exists>x. r = r'\<lparr>or_amount := x\<rparr>"
proof -
  from assms obtain k where k: "k \<in> key ` set rows"
    "r = (hd (filter (\<lambda>r. key r = k) rows))\<lparr>or_amount := sum_list (map or_amount (filter (\<lambda>r. key r = k) rows))\<rparr>"
    by (auto simp: grouped_def Let_def)
  then have "filter (\<lambda>r. key r = k) rows \<noteq> []" by (auto simp: filter_empty_conv)
  then have "hd (filter (\<lambda>r. key r = k) rows) \<in> set rows" using hd_in_set by fastforce
  with k(2) show ?thesis by blast
qed

lemma queryPeriod_dates:
  "r \<in> set (queryPeriod ws startDate endDate flt d) \<Longrightarrow> startDate \<le> pr_date r \<and> pr_date r \<le> endDate"
  unfolding queryPeriod_def by (drule set_grouped) auto

text \<open>The coefficient with which an amount of a type counts.\<close>

definition coefficient :: "TypeResolver \<Rightarrow> TransactionType \<Rightarrow> string \<Rightarrow> string option \<Rightarrow> int" where
  "coefficient resolve ty source dest = (case resolve ty source dest of INCOME \<Rightarrow> 1 | EXPENSE \<Rightarrow> - 1 | TRANSFER \<Rightarrow> 0)"

lemma signed_coefficient:
  "signed resolve r = coefficient resolve (or_type r) (or_sourceType r) (or_destType r) * or_amount r"
  by (simp add: signed_def coefficient_def split: TransactionType.split)

lemma balance_at_query:
  "balance_at dp tz startDate n resolve (queryPeriod ws startDate endDate flt d) now_balance
     = balance_at dp tz startDate n resolve (rows_between ws startDate endDate flt d) now_balance"
proof -
  let ?key = "\<lambda>r. (pr_date r, or_type r, or_sourceType r, or_destType r)"
  have "sum_list (map (signed resolve) (filter (\<lambda>r. dayKey dp tz (pr_date r) \<in> K) (grouped ?key rows)))
      = sum_list (map (signed resolve) (filter (\<lambda>r. dayKey dp tz (pr_date r) \<in> K) rows))" for K rows
    by (rule grouped_sum[where c = "\<lambda>(_, ty, source, dest). coefficient resolve ty source dest"])
       (auto simp: signed_coefficient)
  then show ?thesis by (simp add: fun_eq_iff balance_at_def queryPeriod_def rows_between_def)
qed

lemma series_of_query:
  assumes "day_range dp tz startDate endDate n"
  shows "\<exists>s. buildDailySummary dp tz startDate endDate opening (queryPeriod ws startDate endDate flt d) resolve
        (Some (now_balance - calculateNetPeriodEffect (queryPeriod ws startDate endDate flt d) resolve)) = Some s
     \<and> map ds_date s = map (day_at dp tz startDate) [0..<n]
     \<and> map ds_balance s
       = map (balance_at dp tz startDate n resolve (rows_between ws startDate endDate flt d) now_balance) [0..<n]"
  using series_of_period[OF assms, of "queryPeriod ws startDate endDate flt d"]
  by (simp add: queryPeriod_dates balance_at_query)

section \<open>A calendar of fixed offsets\<close>

definition month_start :: "int \<Rightarrow> int" where
  "month_start day = (case civil_of day of (y, m, _) \<Rightarrow> MakeDay y (m - 1) 1)"

definition month_after :: "int \<Rightarrow> int" where
  "month_after day = (case civil_of day of (y, m, _) \<Rightarrow> MakeDay y m 1)"

definition fixed_formats :: "(string \<Rightarrow> int) \<Rightarrow> date_provider" where
  "fixed_formats off = (fixed_offsets off)\<lparr>dp_format := \<lambda>t fmt tz. let day = zone_day (off tz) t in
     if fmt = LOCAL_DATE_FORMAT then plain day
     else if fmt = ''YYYY-MM'' then keyOf (yearFromDay day) (monthFromDay day + 1) else js_string (dateFromDay day)\<rparr>"

interpretation formats: exact_calendar "fixed_formats off" tz "zone_day (off tz)"
proof
  fix t n u d k
  show "dp_format (fixed_formats off) t LOCAL_DATE_FORMAT tz = plain (zone_day (off tz) t)" by (simp add: fixed_formats_def)
  show "dp_add (fixed_formats off) t n u tz = t + (cal_add (zone_day (off tz) t) n u - zone_day (off tz) t) * DAY_MS"
    using fixed.add_exact[of off t n u tz] by (simp add: fixed_formats_def)
  show "\<bar>zone_day (off tz) (dp_add (fixed_formats off) t n u tz) - cal_add (zone_day (off tz) t) n u\<bar> \<le> 1"
    using fixed.add_day[of off tz t n u] by (simp add: fixed_formats_def)
  show "zone_day (off tz) (t + k * DAY_MS) = zone_day (off tz) t + k" by (rule zone_day_shift)
  show "in_range d \<Longrightarrow> zone_day (off tz) (dp_startOfDay (fixed_formats off) (plain d) tz + HALF_DAY_IN_MS) = d"
    using fixed.noon_day[of d off tz] by (simp add: fixed_formats_def)
qed

definition day_of_date :: "string \<Rightarrow> int" where
  "day_of_date s = (case parseDate s of (y, m, d) \<Rightarrow> MakeDay y (m - 1) d)"

definition fixed_periods :: "(string \<Rightarrow> int) \<Rightarrow> period_provider" where
  "fixed_periods off = \<lparr>pp_dates = fixed_formats off,
     pp_endOfDay = (\<lambda>t tz. (zone_day (off tz) t + 1) * DAY_MS - off tz - 1),
     pp_startOfMonth = (\<lambda>t tz. month_start (zone_day (off tz) t) * DAY_MS - off tz),
     pp_endOfMonth = (\<lambda>t tz. month_after (zone_day (off tz) t) * DAY_MS - off tz - 1),
     pp_endOfDate = (\<lambda>s tz. (day_of_date s + 1) * DAY_MS - off tz - 1),
     pp_startOfMonthOf = (\<lambda>s tz. month_start (day_of_date s) * DAY_MS - off tz),
     pp_endOfMonthOf = (\<lambda>s tz. month_after (day_of_date s) * DAY_MS - off tz - 1)\<rparr>"

lemma fixed_day_at: "day_at (fixed_formats off) tz (a * DAY_MS - off tz) = (\<lambda>k. plain (a + int k))"
  using zone_day_shift[of "off tz" "a * DAY_MS - off tz"]
  by (simp add: fun_eq_iff day_at_def dayKey_def fixed_formats_def fixed_offsets_def zone_day_def DAY_MS_def)

lemma fixed_key: "dayKey (fixed_formats off) tz t = plain (zone_day (off tz) t)"
  by (simp add: dayKey_def fixed_formats_def)

text \<open>There the days are compared as numbers.\<close>

lemma fixed_balance_at:
  assumes "in_range a" "in_range (a + int n)" "\<forall>r\<in>set rows. in_range (zone_day (off tz) (pr_date r))"
  shows "balance_at (fixed_formats off) tz (a * DAY_MS - off tz) n resolve rows now_balance k = centsToDecimal (now_balance
    - sum_list (map (signed resolve) (filter (\<lambda>r. zone_day (off tz) (pr_date r) \<in> {a + int k<..<a + int n}) rows)))"
proof -
  have "plain x \<in> (\<lambda>i. plain (a + int i)) ` {k<..<n} \<longleftrightarrow> x \<in> {a + int k<..<a + int n}" if x: "in_range x" for x
  proof
    assume "plain x \<in> (\<lambda>i. plain (a + int i)) ` {k<..<n}"
    then obtain i where i: "k < i" "i < n" "plain x = plain (a + int i)" by auto
    have "in_range (a + int i)" using in_range_between[OF assms(1,2), of "a + int i"] i by simp
    with i x have "x = a + int i" by (simp add: plain_eq_iff)
    with i show "x \<in> {a + int k<..<a + int n}" by simp
  next
    assume "x \<in> {a + int k<..<a + int n}"
    then show "plain x \<in> (\<lambda>i. plain (a + int i)) ` {k<..<n}" by (intro image_eqI[of _ _ "nat (x - a)"]) auto
  qed
  with assms(3) show ?thesis
    unfolding balance_at_def fixed_day_at fixed_key by (simp cong: filter_cong)
qed

lemma fixed_day_range:
  assumes "in_range a" "in_range (a + int n)"
  shows "day_range (fixed_formats off) tz (a * DAY_MS - off tz) ((a + int n) * DAY_MS - off tz - 1) n"
proof -
  let ?start = "a * DAY_MS - off tz"
  have add: "dp_add (fixed_formats off) ?start (int k) Day tz = ?start + int k * DAY_MS" for k
    by (simp add: fixed_formats_def fixed_offsets_def)
  have r: "in_range (a + int k)" if "k < n" for k
    using in_range_between[OF assms, of "a + int k"] that by simp
  have "inj_on (\<lambda>k. plain (a + int k)) {..<n}"
  proof (rule inj_onI)
    fix j k assume jk: "j \<in> {..<n}" "k \<in> {..<n}" "plain (a + int j) = plain (a + int k)"
    then show "j = k"
      using plain_less_iff[of "a + int j" "a + int k"] plain_less_iff[of "a + int k" "a + int j"] r[of j] r[of k]
      by (cases j k rule: linorder_cases) auto
  qed
  moreover have "dayKey (fixed_formats off) tz x \<in> (\<lambda>k. plain (a + int k)) ` {..<n}"
    if "?start \<le> x" "x \<le> (a + int n) * DAY_MS - off tz - 1" for x
  proof -
    have "a \<le> zone_day (off tz) x" using zone_day_mono[OF that(1), of "off tz"] by (simp add: zone_day_def DAY_MS_def)
    moreover have "zone_day (off tz) x < a + int n"
      using that(2) by (simp add: zone_day_def DAY_MS_def algebra_simps)
    ultimately have "zone_day (off tz) x = a + int (nat (zone_day (off tz) x - a))" "nat (zone_day (off tz) x - a) < n"
      by simp_all
    then show ?thesis by (auto simp: fixed_key intro!: image_eqI[of _ _ "nat (zone_day (off tz) x - a)"])
  qed
  moreover have "?start + int k * DAY_MS \<le> (a + int n) * DAY_MS - off tz - 1" if "k < n" for k
    using that by (simp add: DAY_MS_def algebra_simps)
  moreover have "(a + int n) * DAY_MS - off tz - 1 < ?start + int n * DAY_MS" by (simp add: DAY_MS_def algebra_simps)
  ultimately show ?thesis by (simp add: day_range_def add fixed_day_at distinct_map atLeast0LessThan)
qed

end
