(* ===== verification/ReportMonth.thy ===== *)
theory ReportMonth
  imports ReportServices ReportSeries
begin

text \<open>
  What the projection of the month adds up: the occurrences of a rule are weeks apart,
  the ledger of a month is the transactions of its days, and so every transaction of the
  month and every occurrence that has not been generated yet count once.
\<close>

section \<open>Occurrences are weeks apart\<close>

lemma occurrence_far:
  assumes "\<And>d. d + c \<le> step d"
  shows "cursor + int k * c \<le> occurrence step cursor k"
proof (induction k arbitrary: cursor)
  case (Suc k)
  from Suc[of "step cursor"] assms[of cursor] show ?case by (simp add: algebra_simps)
qed simp

lemma next_of_rule_gap:
  assumes "exact_calendar dp RECURRING_GENERATION_TIMEZONE dayof" "0 < rr_interval r"
  shows "d + 7 * DAY_MS \<le> next_of_rule dp d r"
proof -
  let ?s = "\<lparr>sc_startDate = d, sc_frequency = rr_frequency r, sc_interval = rr_interval r,
     sc_timezone = RECURRING_GENERATION_TIMEZONE\<rparr>"
  let ?o = "occurrence_day (dayof d) (rr_frequency r) (rr_interval r)"
  have "next_of_rule dp d r = d + (?o 1 - dayof d) * DAY_MS"
    using exact_calendar.end_exact[OF assms(1), of ?s 2]
    by (simp add: next_of_rule_def nextOccurrence_def calculateInstallmentEndDate_def)
  moreover have "?o 0 = dayof d" by (cases "rr_frequency r") (simp_all add: occurrence_day_def add_months_0)
  moreover have "?o 0 + 7 \<le> ?o 1" by (rule occurrence_gap[OF assms(2)]) simp
  ultimately show ?thesis by (simp add: DAY_MS_def)
qed

text \<open>A thousand steps of a week or more cross any month within nineteen years.\<close>

definition near_month :: "date_provider \<Rightarrow> projection_month \<Rightarrow> RecurringRuleSnapshot \<Rightarrow> bool" where
  "near_month dp month r = (0 < rr_interval r
     \<and> pm_end month < first_cursor r (\<lambda>d. next_of_rule dp d r) + 7000 * DAY_MS)"

lemma rule_counts:
  assumes "exact_calendar dp RECURRING_GENERATION_TIMEZONE dayof" "near_month dp month r"
  shows "sumRuleOccurrences r month (next_of_rule dp)
    = rr_amount r * int (card (remaining_dates r month (\<lambda>d. next_of_rule dp d r)))"
proof (rule sumRuleOccurrences_counts)
  note gap = next_of_rule_gap[OF assms(1)]
  from assms(2) have r: "0 < rr_interval r" "pm_end month < first_cursor r (\<lambda>d. next_of_rule dp d r) + 7000 * DAY_MS"
    by (simp_all add: near_month_def)
  show "d < next_of_rule dp d r" for d using gap[OF r(1), of d] by (simp add: DAY_MS_def)
  show "pm_end month < occurrence (\<lambda>d. next_of_rule dp d r) (first_cursor r (\<lambda>d. next_of_rule dp d r)) MAX_OCCURRENCE_STEPS"
    using occurrence_far[of "7 * DAY_MS" "\<lambda>d. next_of_rule dp d r" "first_cursor r (\<lambda>d. next_of_rule dp d r)" MAX_OCCURRENCE_STEPS,
        OF gap[OF r(1)]] r(2) by (simp add: MAX_OCCURRENCE_STEPS_def)
qed

text \<open>What the rules of one type still bring in the month.\<close>

definition remaining_amount :: "date_provider \<Rightarrow> projection_month \<Rightarrow> TransactionType \<Rightarrow> RecurringRuleSnapshot list \<Rightarrow> int" where
  "remaining_amount dp month ty rules = sum_list (map (\<lambda>r. rr_amount r * int (card (remaining_dates r month (\<lambda>d. next_of_rule dp d r))))
     (filter (\<lambda>r. rr_type r = ty) rules))"

lemma rules_count:
  assumes cal: "exact_calendar dp RECURRING_GENERATION_TIMEZONE dayof" and "\<forall>r\<in>set rules. near_month dp month r"
  shows "sumNotYetGeneratedOccurrences month rules (next_of_rule dp)
    = \<lparr>totalIncome = remaining_amount dp month INCOME rules, totalExpense = remaining_amount dp month EXPENSE rules\<rparr>"
proof -
  let ?f = "\<lambda>rule totals. let amount = sumRuleOccurrences rule month (next_of_rule dp);
     totals = (if rr_type rule = INCOME then totals\<lparr>totalIncome := totalIncome totals + amount\<rparr> else totals)
     in if rr_type rule = EXPENSE then totals\<lparr>totalExpense := totalExpense totals + amount\<rparr> else totals"
  have "fold ?f rules \<lparr>totalIncome = a, totalExpense = b\<rparr>
    = \<lparr>totalIncome = a + remaining_amount dp month INCOME rules, totalExpense = b + remaining_amount dp month EXPENSE rules\<rparr>" for a b
    using assms(2)
  proof (induction rules arbitrary: a b)
    case (Cons r rules)
    then show ?case by (cases "rr_type r") (simp_all add: remaining_amount_def rule_counts[OF cal] Let_def)
  qed (simp add: remaining_amount_def)
  then show ?thesis by (simp add: sumNotYetGeneratedOccurrences_def)
qed

section \<open>The ledger of a month\<close>

lemma sumAmountBy_filter: "sumAmountBy p (filter q rows) = sumAmountBy (\<lambda>t. q t \<and> p t) rows"
  by (simp add: sumAmountBy_def)

lemma sumAmountBy_split:
  "(\<And>t. t \<in> set rows \<Longrightarrow> \<not> (p t \<and> q t)) \<Longrightarrow> sumAmountBy p rows + sumAmountBy q rows = sumAmountBy (\<lambda>t. p t \<or> q t) rows"
  by (induction rows) (auto simp: sumAmountBy_def)

lemma sumAmountBy_cong: "(\<And>t. t \<in> set rows \<Longrightarrow> p t = q t) \<Longrightarrow> sumAmountBy p rows = sumAmountBy q rows"
  unfolding sumAmountBy_def by (metis (mono_tags, lifting) filter_cong)

lemma find_row_map:
  "(\<And>k. key (f k) = k) \<Longrightarrow> find_row (\<lambda>x. key x = k) (map f ks) = (if k \<in> set ks then Some (f k) else None)"
  by (induction ks) (auto simp: find_row_def)

lemma scheduled_totals:
  fixes ws timezone window d
  defines "pending \<equiv> \<lambda>ty k sql_day. sumAmountBy (\<lambda>t. tx_workspaceId t = ws \<and> dated (rg_start window) (rg_end window) t
      \<and> month_key (sql_day timezone (tx_date t)) = k \<and> tx_status t = PENDING \<and> tx_type t = ty) (transactions d)"
  shows "(case find_row (\<lambda>entry. lm_key entry = k) (findMonthLedger sql_day ws timezone window start d) of
      None \<Rightarrow> \<lparr>totalIncome = 0, totalExpense = 0\<rparr> | Some l \<Rightarrow> lm_pending l)
    = \<lparr>totalIncome = pending INCOME k sql_day, totalExpense = pending EXPENSE k sql_day\<rparr>"
proof -
  let ?rows = "filter (\<lambda>t. tx_workspaceId t = ws \<and> dated (rg_start window) (rg_end window) t) (transactions d)"
  let ?key = "\<lambda>t. month_key (sql_day timezone (tx_date t))"
  have none: "sumAmountBy (\<lambda>t. tx_workspaceId t = ws \<and> dated (rg_start window) (rg_end window) t \<and> ?key t = k \<and> p t)
      (transactions d) = 0" if "k \<notin> ?key ` set ?rows" for p
  proof -
    from that have "filter (\<lambda>t. tx_workspaceId t = ws \<and> dated (rg_start window) (rg_end window) t \<and> ?key t = k \<and> p t)
        (transactions d) = []" by (auto simp: filter_empty_conv)
    then show ?thesis by (simp add: sumAmountBy_def)
  qed
  show ?thesis
    unfolding findMonthLedger_def Let_def pending_def
    by (subst find_row_map) (simp_all add: sumAmountBy_filter none conj_assoc)
qed

end
