(* ===== verification/ReportFreshness.thy ===== *)
theory ReportFreshness
  imports ReportServices
begin

text \<open>
  The cache of the reports among concurrent requests. A request for a report reads the
  generation of its workspace, looks its key up, queries the tables and stores the
  answer, with anything in between: writes of the tables, bumps of the generation,
  other requests, expiry of keys, outages of Redis. What the machine adds to the code
  is ghost state: the history of the tables and how much of it each generation has seen.
\<close>

section \<open>Keys\<close>

definition REPORT_FAMILIES :: "string list" where
  "REPORT_FAMILIES = [''report:balance-evolution:v4'', ''report:month-summary:v5'',
     ''report:cash-flow-evolution:v2'', ''report:expenses-by-category:v3'']"

lemma js_string_eq_iff: "js_string a = js_string b \<longleftrightarrow> a = b"
proof -
  have minus: "CHR ''-'' # s \<noteq> show_nat n" for s n
  proof
    assume eq: "CHR ''-'' # s = show_nat n"
    have "digits (CHR ''-'' # s)" unfolding eq by (rule digits_show_nat)
    then show False by simp
  qed
  have same: "m = n" if "show_nat m = show_nat n" for m n
    using arg_cong[OF that, of js_number] unfolding js_number_show_nat by simp
  show ?thesis
    using minus minus[THEN not_sym] same[of "nat a" "nat b"] same[of "nat (- a)" "nat (- b)"]
    by (auto simp: js_string_def split: if_splits)
qed

lemma generation_key_eq_iff: "generation_key family ws suffix g = generation_key family ws suffix h \<longleftrightarrow> g = h"
  by (simp add: generation_key_def js_string_eq_iff)

lemma generation_key_counter:
  "family \<in> set REPORT_FAMILIES \<Longrightarrow> generation_key family ws suffix g \<noteq> reportGenerationKey vs"
  by (auto simp: generation_key_def reportGenerationKey_def REPORT_FAMILIES_def)

section \<open>The machine\<close>

text \<open>
  A request has read the generation (or none), then missed the cache, then queried the
  tables, then answers; the number is the ghost that says how much of the history the
  generation it read had seen.
\<close>

datatype 'v reader = Idle | Keyed nat "int option" | Missed nat "int option" | Computed nat "int option" 'v | Answered nat 'v

record ('s, 'v) report_run =
  cs_redis :: "'s redis"
  cs_readers :: "nat \<Rightarrow> 'v reader"
  cs_history :: "platform list"
  cs_flushed :: nat
  cs_since :: "int \<Rightarrow> nat"

definition last_state :: "('s, 'v) report_run \<Rightarrow> nat" where
  "last_state s = length (cs_history s) - 1"

definition after_bump :: "'s redis_server \<Rightarrow> string \<Rightarrow> int \<Rightarrow> ('s, 'v) report_run \<Rightarrow> ('s, 'v) report_run" where
  "after_bump sv ws millis s = (case snd (incrementCounter sv (reportGenerationKey ws) (js_string millis) (cs_redis s)) of
       None \<Rightarrow> s\<lparr>cs_redis := bumpReportGeneration_redis sv ws millis (cs_redis s)\<rparr>
     | Some g \<Rightarrow> s\<lparr>cs_redis := bumpReportGeneration_redis sv ws millis (cs_redis s), cs_flushed := last_state s,
         cs_since := (cs_since s)(g := last_state s)\<rparr>)"

definition after_begin :: "'s redis_server \<Rightarrow> string \<Rightarrow> int \<Rightarrow> nat \<Rightarrow> ('s, 'v) report_run \<Rightarrow> ('s, 'v) report_run" where
  "after_begin sv ws millis i s = (case readReportGeneration sv ws millis (cs_redis s) of (r, generation) \<Rightarrow>
     s\<lparr>cs_redis := r, cs_readers := (cs_readers s)(i := Keyed (cs_flushed s) generation),
       cs_since := (case generation of None \<Rightarrow> cs_since s | Some g \<Rightarrow> (cs_since s)(g := cs_flushed s))\<rparr>)"

abbreviation key_of :: "string \<Rightarrow> string \<Rightarrow> string \<Rightarrow> int option \<Rightarrow> string option" where
  "key_of family ws suffix \<equiv> map_option (generation_key family ws suffix)"

definition unrelated_key :: "string \<Rightarrow> string \<Rightarrow> string \<Rightarrow> string \<Rightarrow> bool" where
  "unrelated_key family ws suffix key = (key \<noteq> reportGenerationKey ws \<and> (\<forall>g. key \<noteq> generation_key family ws suffix g))"

inductive cache_step :: "'s redis_server \<Rightarrow> 'v json \<Rightarrow> string \<Rightarrow> string \<Rightarrow> string \<Rightarrow> (platform \<Rightarrow> 'v)
    \<Rightarrow> ('s, 'v) report_run \<Rightarrow> ('s, 'v) report_run \<Rightarrow> bool" for sv j family ws suffix report where
  commit: "cache_step sv j family ws suffix report s (s\<lparr>cs_history := cs_history s @ [p]\<rparr>)"
| bump: "cache_step sv j family ws suffix report s (after_bump sv ws millis s)"
| begin_read: "cs_readers s i = Idle \<Longrightarrow> cache_step sv j family ws suffix report s (after_begin sv ws millis i s)"
| hit: "cs_readers s i = Keyed b gen \<Longrightarrow> cached_report sv j (key_of family ws suffix gen) (cs_redis s) = Some v \<Longrightarrow>
    cache_step sv j family ws suffix report s (s\<lparr>cs_readers := (cs_readers s)(i := Answered b v)\<rparr>)"
| miss: "cs_readers s i = Keyed b gen \<Longrightarrow> cached_report sv j (key_of family ws suffix gen) (cs_redis s) = None \<Longrightarrow>
    cache_step sv j family ws suffix report s (s\<lparr>cs_readers := (cs_readers s)(i := Missed b gen)\<rparr>)"
| query: "cs_readers s i = Missed b gen \<Longrightarrow> cache_step sv j family ws suffix report s
    (s\<lparr>cs_readers := (cs_readers s)(i := Computed b gen (report (last (cs_history s))))\<rparr>)"
| store: "cs_readers s i = Computed b gen v \<Longrightarrow> cache_step sv j family ws suffix report s
    (s\<lparr>cs_redis := store_report sv j (key_of family ws suffix gen) v (cs_redis s),
       cs_readers := (cs_readers s)(i := Answered b v)\<rparr>)"
| finish: "cs_readers s i = Answered b v \<Longrightarrow>
    cache_step sv j family ws suffix report s (s\<lparr>cs_readers := (cs_readers s)(i := Idle)\<rparr>)"
| expire: "key \<noteq> reportGenerationKey ws \<Longrightarrow> cache_step sv j family ws suffix report s
    (s\<lparr>cs_redis := (cs_redis s)\<lparr>rd_store := sv_del sv (rd_store (cs_redis s)) key\<rparr>\<rparr>)"
| other: "unrelated_key family ws suffix key \<Longrightarrow> cache_step sv j family ws suffix report s
    (s\<lparr>cs_redis := fst (redis_set sv key content ttl (cs_redis s))\<rparr>)"
| outage: "cache_step sv j family ws suffix report s
    (s\<lparr>cs_redis := (cs_redis s)\<lparr>rd_client := up, rd_answers := answers\<rparr>\<rparr>)"

definition cache_run :: "'s redis_server \<Rightarrow> 'v json \<Rightarrow> string \<Rightarrow> string \<Rightarrow> string \<Rightarrow> (platform \<Rightarrow> 'v)
    \<Rightarrow> ('s, 'v) report_run \<Rightarrow> ('s, 'v) report_run \<Rightarrow> bool" where
  "cache_run sv j family ws suffix report = (cache_step sv j family ws suffix report)\<^sup>*\<^sup>*"

text \<open>The start: no request, nothing of this report in the cache, one state of the tables.\<close>

definition cache_start :: "'s redis_server \<Rightarrow> string \<Rightarrow> string \<Rightarrow> string \<Rightarrow> ('s, 'v) report_run \<Rightarrow> bool" where
  "cache_start sv family ws suffix s = (cs_readers s = (\<lambda>_. Idle) \<and> length (cs_history s) = 1 \<and> cs_flushed s = 0
     \<and> cs_since s = (\<lambda>_. 0) \<and> (\<forall>g. sv_get sv (rd_store (cs_redis s)) (generation_key family ws suffix g) = None))"

section \<open>What a cached report may be\<close>

text \<open>A value is the report of a state of the tables that is no older than state \<open>b\<close>.\<close>

definition vouched :: "(platform \<Rightarrow> 'v) \<Rightarrow> platform list \<Rightarrow> nat \<Rightarrow> 'v \<Rightarrow> bool" where
  "vouched report history b v = (\<exists>k. b \<le> k \<and> k < length history \<and> v = report (history ! k))"

definition known :: "'s redis_server \<Rightarrow> string \<Rightarrow> 's redis \<Rightarrow> int \<Rightarrow> bool" where
  "known sv ws r g = (\<exists>w. sv_get sv (rd_store r) (reportGenerationKey ws) = Some w \<and> g \<le> sv_number sv (Some w))"

definition gen_ok :: "'s redis_server \<Rightarrow> string \<Rightarrow> ('s, 'v) report_run \<Rightarrow> nat \<Rightarrow> int option \<Rightarrow> bool" where
  "gen_ok sv ws s b gen = (b < length (cs_history s)
     \<and> (case gen of None \<Rightarrow> True | Some g \<Rightarrow> known sv ws (cs_redis s) g \<and> cs_since s g = b))"

fun reader_ok :: "'s redis_server \<Rightarrow> string \<Rightarrow> (platform \<Rightarrow> 'v) \<Rightarrow> ('s, 'v) report_run \<Rightarrow> 'v reader \<Rightarrow> bool" where
  "reader_ok sv ws report s Idle = True"
| "reader_ok sv ws report s (Keyed b gen) = gen_ok sv ws s b gen"
| "reader_ok sv ws report s (Missed b gen) = gen_ok sv ws s b gen"
| "reader_ok sv ws report s (Computed b gen v) = (gen_ok sv ws s b gen \<and> vouched report (cs_history s) b v)"
| "reader_ok sv ws report s (Answered b v) = vouched report (cs_history s) b v"

definition entries_ok :: "'s redis_server \<Rightarrow> 'v json \<Rightarrow> string \<Rightarrow> string \<Rightarrow> string \<Rightarrow> (platform \<Rightarrow> 'v)
    \<Rightarrow> ('s, 'v) report_run \<Rightarrow> bool" where
  "entries_ok sv j family ws suffix report s = (\<forall>g w. sv_get sv (rd_store (cs_redis s)) (generation_key family ws suffix g) = Some w
     \<longrightarrow> known sv ws (cs_redis s) g \<and> vouched report (cs_history s) (cs_since s g) (parse j w))"

definition counter_ok :: "'s redis_server \<Rightarrow> string \<Rightarrow> ('s, 'v) report_run \<Rightarrow> bool" where
  "counter_ok sv ws s = (cs_flushed s < length (cs_history s)
     \<and> (\<forall>w. sv_get sv (rd_store (cs_redis s)) (reportGenerationKey ws) = Some w \<longrightarrow> cs_since s (sv_number sv (Some w)) = cs_flushed s))"

definition coherent :: "'s redis_server \<Rightarrow> 'v json \<Rightarrow> string \<Rightarrow> string \<Rightarrow> string \<Rightarrow> (platform \<Rightarrow> 'v)
    \<Rightarrow> ('s, 'v) report_run \<Rightarrow> bool" where
  "coherent sv j family ws suffix report s = (counter_ok sv ws s \<and> entries_ok sv j family ws suffix report s
     \<and> (\<forall>i. reader_ok sv ws report s (cs_readers s i)))"

lemma coherent_start: "cache_start sv family ws suffix s \<Longrightarrow> coherent sv j family ws suffix report s"
  by (simp add: cache_start_def coherent_def counter_ok_def entries_ok_def)

lemma vouched_append: "vouched report history b v \<Longrightarrow> vouched report (history @ later) b v"
  unfolding vouched_def by (metis length_append nth_append trans_less_add1)

section \<open>Every step keeps it\<close>

text \<open>What a reader was promised stays true while generations are only added.\<close>

definition grows :: "'s redis_server \<Rightarrow> string \<Rightarrow> ('s, 'v) report_run \<Rightarrow> ('s, 'v) report_run \<Rightarrow> bool" where
  "grows sv ws s s' = ((\<exists>later. cs_history s' = cs_history s @ later)
     \<and> (\<forall>g. known sv ws (cs_redis s) g \<longrightarrow> known sv ws (cs_redis s') g \<and> cs_since s' g = cs_since s g))"

lemma grows_gen_ok: "grows sv ws s s' \<Longrightarrow> gen_ok sv ws s b gen \<Longrightarrow> gen_ok sv ws s' b gen"
  by (auto simp: grows_def gen_ok_def split: option.splits)

lemma grows_vouched: "grows sv ws s s' \<Longrightarrow> vouched report (cs_history s) b v \<Longrightarrow> vouched report (cs_history s') b v"
  by (auto simp: grows_def vouched_append)

lemma grows_reader_ok: "grows sv ws s s' \<Longrightarrow> reader_ok sv ws report s rd \<Longrightarrow> reader_ok sv ws report s' rd"
  by (cases rd) (auto intro: grows_gen_ok grows_vouched)

lemma grows_entries_ok:
  assumes "grows sv ws s s'" "entries_ok sv j family ws suffix report s"
    and "\<And>g w. sv_get sv (rd_store (cs_redis s')) (generation_key family ws suffix g) = Some w \<Longrightarrow>
      sv_get sv (rd_store (cs_redis s)) (generation_key family ws suffix g) = Some w"
  shows "entries_ok sv j family ws suffix report s'"
  unfolding entries_ok_def
proof (intro allI impI)
  fix g w
  assume "sv_get sv (rd_store (cs_redis s')) (generation_key family ws suffix g) = Some w"
  from assms(3)[OF this] assms(2) have k: "known sv ws (cs_redis s) g"
    and v: "vouched report (cs_history s) (cs_since s g) (parse j w)" by (auto simp: entries_ok_def)
  from k assms(1) have "known sv ws (cs_redis s') g \<and> cs_since s' g = cs_since s g" by (auto simp: grows_def)
  with grows_vouched[OF assms(1) v] show "known sv ws (cs_redis s') g \<and> vouched report (cs_history s') (cs_since s' g) (parse j w)"
    by simp
qed

lemma grows_coherent:
  assumes "grows sv ws s s'" "coherent sv j family ws suffix report s" "counter_ok sv ws s'"
    and "\<And>g w. sv_get sv (rd_store (cs_redis s')) (generation_key family ws suffix g) = Some w \<Longrightarrow>
      sv_get sv (rd_store (cs_redis s)) (generation_key family ws suffix g) = Some w"
    and "\<And>i. cs_readers s' i = cs_readers s i \<or> reader_ok sv ws report s' (cs_readers s' i)"
  shows "coherent sv j family ws suffix report s'"
  using assms(3,5) grows_entries_ok[OF assms(1) _ assms(4)] grows_reader_ok[OF assms(1)] assms(2)
  unfolding coherent_def by metis

context redis_laws begin

lemma read_generation:
  assumes "readReportGeneration sv ws millis r = (r', gen)"
  shows "(gen = None \<and> r' = r) \<or> (\<exists>w. gen = Some (sv_number sv (Some w))
    \<and> sv_get sv (rd_store r') (reportGenerationKey ws) = Some w
    \<and> (sv_get sv (rd_store r) (reportGenerationKey ws) = None \<or> sv_get sv (rd_store r) (reportGenerationKey ws) = Some w)
    \<and> (\<forall>k. k \<noteq> reportGenerationKey ws \<longrightarrow> sv_get sv (rd_store r') k = sv_get sv (rd_store r) k))"
proof (cases "reaches r")
  case False
  with assms show ?thesis by (simp add: readReportGeneration_def readCounter_def)
next
  case True
  show ?thesis
  proof (cases "sv_get sv (rd_store r) (reportGenerationKey ws)")
    case None
    with True assms set_nx_free[OF None, of "js_string millis" None] set_nx_other show ?thesis
      by (auto simp: readReportGeneration_def readCounter_def Let_def)
  next
    case (Some w)
    with True assms set_nx_taken[OF Some, of "js_string millis" None] show ?thesis
      by (auto simp: readReportGeneration_def readCounter_def Let_def)
  qed
qed

lemma bump_generation:
  assumes "incrementCounter sv (reportGenerationKey ws) (js_string millis) r = (r', gen)"
  shows "(gen = None \<and> r' = r) \<or> (\<exists>w. gen = Some (sv_number sv (Some w))
    \<and> sv_get sv (rd_store r') (reportGenerationKey ws) = Some w
    \<and> (\<forall>v. sv_get sv (rd_store r) (reportGenerationKey ws) = Some v \<longrightarrow> sv_number sv (Some w) = sv_number sv (Some v) + 1)
    \<and> (\<forall>k. k \<noteq> reportGenerationKey ws \<longrightarrow> sv_get sv (rd_store r') k = sv_get sv (rd_store r) k))"
proof (cases "reaches r")
  case False
  with assms show ?thesis by (simp add: incrementCounter_def)
next
  case True
  let ?k = "reportGenerationKey ws"
  let ?s = "fst (sv_set_nx sv (rd_store r) ?k (js_string millis) None)"
  obtain v where v: "sv_get sv ?s ?k = Some v"
    using set_nx_free[of "rd_store r" ?k "js_string millis" None] set_nx_taken[of "rd_store r" ?k _ "js_string millis" None]
    by (cases "sv_get sv (rd_store r) ?k") auto
  then obtain w where w: "sv_get sv (sv_incr sv ?s ?k) ?k = Some w" using incr_kept[of ?s ?k] by auto
  have "sv_number sv (Some w) = sv_number sv (Some u) + 1" if "sv_get sv (rd_store r) ?k = Some u" for u
    using incr_number[OF v] w v set_nx_taken[OF that, of "js_string millis" None] that by simp
  moreover have "sv_get sv (sv_incr sv ?s ?k) k = sv_get sv (rd_store r) k" if "k \<noteq> ?k" for k
    using that by (simp add: incr_other set_nx_other)
  moreover have "r' = r\<lparr>rd_store := sv_incr sv ?s ?k\<rparr>" "gen = Some (sv_number sv (Some w))"
    using assms True w by (auto simp: incrementCounter_def Let_def)
  ultimately show ?thesis using w by simp
qed

text \<open>Steps that leave the counter, the history and the ghosts alone.\<close>

lemma quiet_step:
  assumes "coherent sv j family ws suffix report s"
    and "sv_get sv (rd_store (cs_redis s')) (reportGenerationKey ws) = sv_get sv (rd_store (cs_redis s)) (reportGenerationKey ws)"
    and "cs_history s' = cs_history s" "cs_flushed s' = cs_flushed s" "cs_since s' = cs_since s"
  shows "grows sv ws s s'" "counter_ok sv ws s'" "known sv ws (cs_redis s') = known sv ws (cs_redis s)"
proof -
  show known: "known sv ws (cs_redis s') = known sv ws (cs_redis s)" using assms(2) by (simp add: known_def fun_eq_iff)
  show "grows sv ws s s'" using assms(3,5) by (simp add: grows_def known)
  show "counter_ok sv ws s'" using assms by (simp add: coherent_def counter_ok_def)
qed

lemma bump_coherent:
  assumes "family \<in> set REPORT_FAMILIES" "coherent sv j family ws suffix report s"
  shows "coherent sv j family ws suffix report (after_bump sv ws millis s)"
proof -
  obtain r gen where r: "incrementCounter sv (reportGenerationKey ws) (js_string millis) (cs_redis s) = (r, gen)" by (cases "incrementCounter sv (reportGenerationKey ws) (js_string millis) (cs_redis s)") 
  let ?s = "after_bump sv ws millis s"
  from bump_generation[OF r] show ?thesis
  proof
    assume "gen = None \<and> r = cs_redis s"
    with r assms(2) show ?thesis by (simp add: after_bump_def bumpReportGeneration_redis_def)
  next
    assume "\<exists>w. gen = Some (sv_number sv (Some w)) \<and> sv_get sv (rd_store r) (reportGenerationKey ws) = Some w
      \<and> (\<forall>v. sv_get sv (rd_store (cs_redis s)) (reportGenerationKey ws) = Some v \<longrightarrow> sv_number sv (Some w) = sv_number sv (Some v) + 1)
      \<and> (\<forall>k. k \<noteq> reportGenerationKey ws \<longrightarrow> sv_get sv (rd_store r) k = sv_get sv (rd_store (cs_redis s)) k)"
    then obtain w where w: "gen = Some (sv_number sv (Some w))" "sv_get sv (rd_store r) (reportGenerationKey ws) = Some w"
      "\<And>v. sv_get sv (rd_store (cs_redis s)) (reportGenerationKey ws) = Some v \<Longrightarrow> sv_number sv (Some w) = sv_number sv (Some v) + 1"
      "\<And>k. k \<noteq> reportGenerationKey ws \<Longrightarrow> sv_get sv (rd_store r) k = sv_get sv (rd_store (cs_redis s)) k" by auto
    have s: "?s = s\<lparr>cs_redis := r, cs_flushed := last_state s, cs_since := (cs_since s)(sv_number sv (Some w) := last_state s)\<rparr>"
      using r w(1) by (simp add: after_bump_def bumpReportGeneration_redis_def)
    from assms(2) have "cs_flushed s < length (cs_history s)" by (simp add: coherent_def counter_ok_def)
    then have "counter_ok sv ws ?s" unfolding s by (simp add: counter_ok_def w(2) last_state_def)
    moreover have "grows sv ws s ?s" unfolding s using w(2,3) by (fastforce simp: grows_def known_def)
    ultimately show ?thesis
      using w(4) generation_key_counter[OF assms(1)] by (intro grows_coherent[OF _ assms(2)]) (simp_all add: s)
  qed
qed

lemma begin_coherent:
  assumes "family \<in> set REPORT_FAMILIES" "coherent sv j family ws suffix report s"
  shows "coherent sv j family ws suffix report (after_begin sv ws millis i s)"
proof -
  obtain r gen where r: "readReportGeneration sv ws millis (cs_redis s) = (r, gen)"
    by (cases "readReportGeneration sv ws millis (cs_redis s)")
  let ?s = "after_begin sv ws millis i s"
  from assms(2) have c: "cs_flushed s < length (cs_history s)"
    "\<And>w. sv_get sv (rd_store (cs_redis s)) (reportGenerationKey ws) = Some w \<Longrightarrow> cs_since s (sv_number sv (Some w)) = cs_flushed s"
    by (auto simp: coherent_def counter_ok_def)
  from read_generation[OF r] show ?thesis
  proof
    assume "gen = None \<and> r = cs_redis s"
    then have s: "?s = s\<lparr>cs_readers := (cs_readers s)(i := Keyed (cs_flushed s) None)\<rparr>" using r by (simp add: after_begin_def)
    show ?thesis
      using quiet_step[OF assms(2), of ?s] c by (intro grows_coherent[OF _ assms(2)]) (simp_all add: s gen_ok_def)
  next
    assume "\<exists>w. gen = Some (sv_number sv (Some w)) \<and> sv_get sv (rd_store r) (reportGenerationKey ws) = Some w
      \<and> (sv_get sv (rd_store (cs_redis s)) (reportGenerationKey ws) = None \<or> sv_get sv (rd_store (cs_redis s)) (reportGenerationKey ws) = Some w)
      \<and> (\<forall>k. k \<noteq> reportGenerationKey ws \<longrightarrow> sv_get sv (rd_store r) k = sv_get sv (rd_store (cs_redis s)) k)"
    then obtain w where w: "gen = Some (sv_number sv (Some w))" "sv_get sv (rd_store r) (reportGenerationKey ws) = Some w"
      "sv_get sv (rd_store (cs_redis s)) (reportGenerationKey ws) = None \<or> sv_get sv (rd_store (cs_redis s)) (reportGenerationKey ws) = Some w"
      "\<And>k. k \<noteq> reportGenerationKey ws \<Longrightarrow> sv_get sv (rd_store r) k = sv_get sv (rd_store (cs_redis s)) k" by auto
    have s: "?s = s\<lparr>cs_redis := r, cs_readers := (cs_readers s)(i := Keyed (cs_flushed s) gen),
        cs_since := (cs_since s)(sv_number sv (Some w) := cs_flushed s)\<rparr>"
      using r w(1) by (simp add: after_begin_def)
    have "counter_ok sv ws ?s" unfolding s by (simp add: counter_ok_def w(2) c(1))
    moreover have "grows sv ws s ?s" unfolding s using w(2,3) c(2) by (auto simp: grows_def known_def)
    moreover have "gen_ok sv ws ?s (cs_flushed s) gen" unfolding s by (simp add: gen_ok_def c(1) w(1,2) known_def)
    ultimately show ?thesis
      using w(4) generation_key_counter[OF assms(1)] by (intro grows_coherent[OF _ assms(2)]) (simp_all add: s)
  qed
qed

lemma hit_vouched:
  assumes "coherent sv j family ws suffix report s" "gen_ok sv ws s b gen"
    and "cached_report sv j (key_of family ws suffix gen) (cs_redis s) = Some v"
  shows "vouched report (cs_history s) b v"
proof -
  from assms(3) obtain g w where g: "gen = Some g" "v = parse j w"
    and w: "sv_get sv (rd_store (cs_redis s)) (generation_key family ws suffix g) = Some w"
    by (cases gen) (auto simp: cached_report_def redis_get_def split: option.splits if_splits)
  from w assms(1) have "vouched report (cs_history s) (cs_since s g) (parse j w)"
    by (auto simp: coherent_def entries_ok_def)
  with assms(2) g show ?thesis by (simp add: gen_ok_def)
qed

lemma store_get:
  "sv_get sv (rd_store (store_report sv j key v r)) k =
    (if reaches r \<and> key = Some k then Some (stringify j v) else sv_get sv (rd_store r) k)"
  by (cases key) (auto simp: store_report_def redis_set_def set_get)

lemma store_coherent:
  assumes "family \<in> set REPORT_FAMILIES" "\<And>v. parse j (stringify j v) = v"
    and "coherent sv j family ws suffix report s" "cs_readers s i = Computed b gen v"
  shows "coherent sv j family ws suffix report (s\<lparr>cs_redis := store_report sv j (key_of family ws suffix gen) v (cs_redis s),
       cs_readers := (cs_readers s)(i := Answered b v)\<rparr>)" (is "coherent _ _ _ _ _ _ ?s")
proof -
  have kept: "sv_get sv (rd_store (cs_redis ?s)) (reportGenerationKey ws) = sv_get sv (rd_store (cs_redis s)) (reportGenerationKey ws)"
    using generation_key_counter[OF assms(1)] by (simp add: store_get)
  from assms(3) have "reader_ok sv ws report s (cs_readers s i)" and old: "entries_ok sv j family ws suffix report s"
    and readers: "\<And>i. reader_ok sv ws report s (cs_readers s i)"
    by (simp_all add: coherent_def)
  with assms(4) have gen: "gen_ok sv ws s b gen" and v: "vouched report (cs_history s) b v" by simp_all
  note quiet = quiet_step[OF assms(3), of ?s, OF kept, simplified]
  have "entries_ok sv j family ws suffix report ?s"
    unfolding entries_ok_def
  proof (intro allI impI)
    fix g w
    assume w: "sv_get sv (rd_store (cs_redis ?s)) (generation_key family ws suffix g) = Some w"
    show "known sv ws (cs_redis ?s) g \<and> vouched report (cs_history ?s) (cs_since ?s g) (parse j w)"
    proof (cases "gen = Some g \<and> reaches (cs_redis s)")
      case True
      with w have "w = stringify j v" by (simp add: store_get)
      with True gen v assms(2) quiet(3) show ?thesis by (simp add: gen_ok_def)
    next
      case False
      with w have "sv_get sv (rd_store (cs_redis s)) (generation_key family ws suffix g) = Some w"
        by (auto simp: store_get generation_key_eq_iff split: if_splits)
      with old quiet(3) show ?thesis by (simp add: entries_ok_def)
    qed
  qed
  moreover have "reader_ok sv ws report ?s (cs_readers ?s k)" for k
    using grows_reader_ok[OF quiet(1), of report "cs_readers s k"] readers v by simp
  ultimately show ?thesis using quiet(2) by (simp add: coherent_def)
qed

lemma step_coherent:
  assumes "family \<in> set REPORT_FAMILIES" "\<And>v. parse j (stringify j v) = v"
    and "cache_step sv j family ws suffix report s s'" "coherent sv j family ws suffix report s"
  shows "coherent sv j family ws suffix report s'"
  using assms(3)
proof cases
  case (commit p)
  have "grows sv ws s s'" using commit by (simp add: grows_def)
  with assms(4) show ?thesis by (intro grows_coherent[OF _ assms(4)]) (simp_all add: commit coherent_def counter_ok_def)
next
  case (bump millis)
  then show ?thesis using bump_coherent[OF assms(1,4)] by simp
next
  case (begin_read i millis)
  then show ?thesis using begin_coherent[OF assms(1,4)] by simp
next
  case (hit i b gen v)
  from assms(4) hit have "gen_ok sv ws s b gen" by (metis coherent_def reader_ok.simps(2))
  from hit_vouched[OF assms(4) this] hit have "vouched report (cs_history s) b v" by simp
  with quiet_step[OF assms(4), of s'] hit show ?thesis by (intro grows_coherent[OF _ assms(4)]) simp_all
next
  case (miss i b gen)
  from assms(4) miss have g: "gen_ok sv ws s b gen" by (metis coherent_def reader_ok.simps(2))
  have "grows sv ws s s'" "counter_ok sv ws s'" using quiet_step[OF assms(4), of s'] miss by simp_all
  with grows_gen_ok[OF this(1) g] miss show ?thesis by (intro grows_coherent[OF _ assms(4)]) simp_all
next
  case (query i b gen)
  from assms(4) query have g: "gen_ok sv ws s b gen" by (metis coherent_def reader_ok.simps(3))
  then have "vouched report (cs_history s) b (report (last (cs_history s)))"
    unfolding vouched_def gen_ok_def by (intro exI[of _ "length (cs_history s) - 1"], cases "cs_history s = []") (auto simp: last_conv_nth)
  moreover have "grows sv ws s s'" "counter_ok sv ws s'" using quiet_step[OF assms(4), of s'] query by simp_all
  ultimately show ?thesis using grows_gen_ok[of sv ws s s' b gen] g query
    by (intro grows_coherent[OF _ assms(4)]) simp_all
next
  case (store i b gen v)
  then show ?thesis using store_coherent[OF assms(1,2,4)] by simp
next
  case (finish i b v)
  with quiet_step[OF assms(4), of s'] show ?thesis by (intro grows_coherent[OF _ assms(4)]) simp_all
next
  case (expire key)
  with quiet_step[OF assms(4), of s'] show ?thesis
    by (intro grows_coherent[OF _ assms(4)]) (auto simp: del_get split: if_splits)
next
  case (other key content ttl)
  then have same: "sv_get sv (rd_store (cs_redis s')) k = sv_get sv (rd_store (cs_redis s)) k"
    if "k = reportGenerationKey ws \<or> (\<exists>g. k = generation_key family ws suffix g)" for k
    using that by (auto simp: redis_set_def set_get unrelated_key_def)
  have "grows sv ws s s'" "counter_ok sv ws s'" using quiet_step[OF assms(4), of s'] other same by simp_all
  with same other show ?thesis by (intro grows_coherent[OF _ assms(4)]) (auto simp: generation_key_eq_iff)
next
  case (outage up answers)
  with quiet_step[OF assms(4), of s'] show ?thesis by (intro grows_coherent[OF _ assms(4)]) simp_all
qed

lemma run_coherent:
  assumes "family \<in> set REPORT_FAMILIES" "\<And>v. parse j (stringify j v) = v"
    and "cache_run sv j family ws suffix report s s'" "coherent sv j family ws suffix report s"
  shows "coherent sv j family ws suffix report s'"
  using assms(3,4) unfolding cache_run_def
  by (induction rule: rtranclp_induct) (auto intro: step_coherent[OF assms(1,2)])

lemma answer_vouched:
  assumes "family \<in> set REPORT_FAMILIES" "\<And>v. parse j (stringify j v) = v"
    and "cache_start sv family ws suffix s" "cache_run sv j family ws suffix report s s'" "cs_readers s' i = Answered b v"
  shows "vouched report (cs_history s') b v"
  using run_coherent[OF assms(1,2,4) coherent_start[OF assms(3)]] assms(5)
  by (metis coherent_def reader_ok.simps(5))

end

section \<open>Requests that begin after a bump\<close>

fun reader_since :: "nat \<Rightarrow> 'v reader \<Rightarrow> bool" where
  "reader_since n Idle = True"
| "reader_since n (Keyed b gen) = (n \<le> b)"
| "reader_since n (Missed b gen) = (n \<le> b)"
| "reader_since n (Computed b gen v) = (n \<le> b)"
| "reader_since n (Answered b v) = (n \<le> b)"

lemma bump_flushed: "reaches (cs_redis s) \<Longrightarrow> cs_flushed (after_bump sv ws millis s) = last_state s"
  by (simp add: after_bump_def incrementCounter_def Let_def)

lemma bump_simps [simp]:
  "cs_history (after_bump sv ws millis s) = cs_history s" "cs_readers (after_bump sv ws millis s) = cs_readers s"
  by (simp_all add: after_bump_def split: option.splits)

lemma begin_simps [simp]:
  "cs_history (after_begin sv ws millis i s) = cs_history s" "cs_flushed (after_begin sv ws millis i s) = cs_flushed s"
  by (simp_all add: after_begin_def split: prod.splits)

lemma begin_readers: "\<exists>gen. cs_readers (after_begin sv ws millis i s) = (cs_readers s)(i := Keyed (cs_flushed s) gen)"
  by (cases "readReportGeneration sv ws millis (cs_redis s)") (auto simp: after_begin_def)

lemma step_since:
  assumes "cache_step sv j family ws suffix report s s'" "coherent sv j family ws suffix report s"
    and "n \<le> cs_flushed s" "reader_since n (cs_readers s i)"
  shows "n \<le> cs_flushed s' \<and> reader_since n (cs_readers s' i)"
  using assms(1)
proof cases
  case (bump millis)
  from assms(2) have "cs_flushed s < length (cs_history s)" by (simp add: coherent_def counter_ok_def)
  then have "cs_flushed s \<le> last_state s" by (simp add: last_state_def)
  then show ?thesis using assms(3,4) bump by (auto simp: after_bump_def split: option.splits)
next
  case (begin_read k millis)
  obtain gen where "cs_readers s' = (cs_readers s)(k := Keyed (cs_flushed s) gen)" using begin_readers begin_read by metis
  then show ?thesis using assms(3,4) begin_read by simp
next
  case (hit k b gen v)
  then show ?thesis using assms(3,4) by (cases "k = i") auto
next
  case (miss k b gen)
  then show ?thesis using assms(3,4) by (cases "k = i") auto
next
  case (query k b gen)
  then show ?thesis using assms(3,4) by (cases "k = i") auto
next
  case (store k b gen v)
  then show ?thesis using assms(3,4) by (cases "k = i") auto
qed (use assms(3,4) in auto)

context redis_laws begin

lemma run_since:
  assumes "family \<in> set REPORT_FAMILIES" "\<And>v. parse j (stringify j v) = v"
    and "cache_run sv j family ws suffix report s s'" "coherent sv j family ws suffix report s"
    and "n \<le> cs_flushed s" "reader_since n (cs_readers s i)"
  shows "n \<le> cs_flushed s' \<and> reader_since n (cs_readers s' i) \<and> coherent sv j family ws suffix report s'"
  using assms(3-) unfolding cache_run_def
proof (induction rule: rtranclp_induct)
  case (step a c)
  then show ?case using step_since[where s = a and s' = c] step_coherent[OF assms(1,2), where s = a and s' = c] by blast
qed simp

lemma answer_after_bump:
  assumes "family \<in> set REPORT_FAMILIES" "\<And>v. parse j (stringify j v) = v"
    and "cache_start sv family ws suffix s" "cache_run sv j family ws suffix report s s1"
    and "reaches (cs_redis s1)" "cs_readers s1 i = Idle"
    and "cache_run sv j family ws suffix report (after_bump sv ws millis s1) s2" "cs_readers s2 i = Answered b v"
  shows "vouched report (cs_history s2) (last_state s1) v"
proof -
  have "coherent sv j family ws suffix report s1" by (rule run_coherent[OF assms(1,2,4) coherent_start[OF assms(3)]])
  then have "coherent sv j family ws suffix report (after_bump sv ws millis s1)" by (rule bump_coherent[OF assms(1)])
  from run_since[OF assms(1,2,7) this, of "last_state s1" i]
  have "last_state s1 \<le> b" and c: "coherent sv j family ws suffix report s2"
    using assms(5,6,8) by (simp_all add: bump_flushed)
  moreover have "vouched report (cs_history s2) b v" using c assms(8) by (metis coherent_def reader_ok.simps(5))
  ultimately show ?thesis unfolding vouched_def by (blast intro: order_trans)
qed

end

section \<open>A request of the code is a run of the machine\<close>

lemma unrelated_timezone:
  "family \<in> set REPORT_FAMILIES \<Longrightarrow> unrelated_key family ws suffix (workspaceTimezoneCacheKey vs)"
  by (auto simp: unrelated_key_def workspaceTimezoneCacheKey_def generation_key_def reportGenerationKey_def REPORT_FAMILIES_def)

lemma timezone_redis:
  assumes "timezone_execute sv p ws (memo, r) = ((memo', r'), tz)"
  shows "r' = r \<or> (\<exists>content ttl. r' = fst (redis_set sv (workspaceTimezoneCacheKey ws) content ttl r))"
  using assms by (auto simp: timezone_execute_def Let_def split: if_splits)

lemma other_run:
  assumes "r2 = cs_redis s \<or> (\<exists>content ttl. r2 = fst (redis_set sv key content ttl (cs_redis s)))"
    and "unrelated_key family ws suffix key"
  shows "cache_run sv j family ws suffix report s (s\<lparr>cs_redis := r2\<rparr>)"
  using assms(1)
proof
  assume "\<exists>content ttl. r2 = fst (redis_set sv key content ttl (cs_redis s))"
  then show ?thesis using cache_step.other[OF assms(2)] unfolding cache_run_def by blast
qed (simp add: cache_run_def)

lemma request_runs:
  assumes idle: "cs_readers s i = Idle"
    and read: "readReportGeneration sv ws millis (cs_redis s) = (r1, gen)"
    and between: "r2 = r1 \<or> (\<exists>content ttl. r2 = fst (redis_set sv key content ttl r1))" "unrelated_key family ws suffix key"
    and answer: "case cached_report sv j (key_of family ws suffix gen) r1 of Some w \<Rightarrow> v = w \<and> r' = r1
      | None \<Rightarrow> v = report (last (cs_history s)) \<and> r' = store_report sv j (key_of family ws suffix gen) v r2"
  shows "\<exists>s'. cache_run sv j family ws suffix report s s' \<and> cs_redis s' = r' \<and> cs_history s' = cs_history s
    \<and> cs_readers s' i = Answered (cs_flushed s) v"
proof -
  let ?run = "cache_run sv j family ws suffix report"
  let ?s1 = "after_begin sv ws millis i s"
  have one: "?run a c" if "?run a b" "cache_step sv j family ws suffix report b c" for a b c
    using that unfolding cache_run_def by (rule rtranclp.rtrancl_into_rtrancl)
  have s1: "cs_redis ?s1 = r1" "cs_history ?s1 = cs_history s" "cs_readers ?s1 i = Keyed (cs_flushed s) gen"
    by (simp_all add: after_begin_def read)
  have run1: "?run s ?s1" by (rule one[OF _ cache_step.begin_read[OF idle]]) (simp add: cache_run_def)
  show ?thesis
  proof (cases "cached_report sv j (key_of family ws suffix gen) r1")
    case (Some w)
    with answer have "v = w" "r' = r1" by simp_all
    have "?run s (?s1\<lparr>cs_readers := (cs_readers ?s1)(i := Answered (cs_flushed s) v)\<rparr>)"
      by (rule one[OF run1 cache_step.hit[where i = i]]) (use Some \<open>v = w\<close> s1 in simp_all)
    then show ?thesis using \<open>r' = r1\<close> s1 by - (rule exI, rule conjI, assumption, simp)
  next
    case None
    let ?s2 = "?s1\<lparr>cs_readers := (cs_readers ?s1)(i := Missed (cs_flushed s) gen)\<rparr>"
    let ?s3 = "?s2\<lparr>cs_redis := r2\<rparr>"
    let ?s4 = "?s3\<lparr>cs_readers := (cs_readers ?s3)(i := Computed (cs_flushed s) gen (report (last (cs_history ?s3))))\<rparr>"
    have run2: "?run s ?s2" by (rule one[OF run1 cache_step.miss[where i = i]]) (use None s1 in simp_all)
    have "?run ?s2 ?s3" by (rule other_run[OF _ between(2)]) (use between(1) s1 in simp)
    with run2 have run3: "?run s ?s3" unfolding cache_run_def by (rule rtranclp_trans)
    have run4: "?run s ?s4" by (rule one[OF run3 cache_step.query[where i = i]]) simp
    from None answer have v: "v = report (last (cs_history s))" "r' = store_report sv j (key_of family ws suffix gen) v r2" by simp_all
    have "?run s (?s4\<lparr>cs_redis := store_report sv j (key_of family ws suffix gen) v (cs_redis ?s4),
        cs_readers := (cs_readers ?s4)(i := Answered (cs_flushed s) v)\<rparr>)"
      by (rule one[OF run4 cache_step.store[where i = i]]) (use v(1) s1 in simp)
    then show ?thesis using v(2) s1 by - (rule exI, rule conjI, assumption, simp)
  qed
qed

lemma request_answers:
  assumes "cs_readers s i = Idle" "unrelated_key family ws suffix key"
  shows "\<exists>s' v. cache_run sv j family ws suffix report s s' \<and> cs_readers s' i = Answered (cs_flushed s) v
    \<and> cs_history s' = cs_history s"
proof -
  obtain r1 gen where read: "readReportGeneration sv ws millis (cs_redis s) = (r1, gen)"
    by (cases "readReportGeneration sv ws millis (cs_redis s)")
  note runs = request_runs[OF assms(1) read disjI1[OF refl] assms(2), where j = j]
  show ?thesis
  proof (cases "cached_report sv j (key_of family ws suffix gen) r1")
    case None
    then show ?thesis using runs[where report = report and v = "report (last (cs_history s))"] by fastforce
  next
    case (Some w)
    then show ?thesis using runs[where report = report and v = w and r' = r1] by fastforce
  qed
qed

lemma expenses_request_runs:
  assumes "cs_readers s i = Idle"
    and "readReportGeneration sv ws (pf_now (last (cs_history s))) (cs_redis s) = (r1, gen)"
    and "timezone_execute sv (last (cs_history s)) ws (memo, r1) = ((memo2, r2), timezone)"
    and "GetExpensesByCategory_execute sv j pp (last (cs_history s)) ws month year (memo, cs_redis s) = ((memo', r'), v)"
  shows "\<exists>s'. cache_run sv j ''report:expenses-by-category:v3'' ws (js_string year @ ''-'' @ js_string month)
      (\<lambda>p. computeExpensesByCategory pp timezone ws month year p) s s'
    \<and> cs_redis s' = r' \<and> cs_history s' = cs_history s \<and> cs_readers s' i = Answered (cs_flushed s) v"
  by (rule request_runs[OF assms(1,2) timezone_redis[OF assms(3)] unrelated_timezone])
     (use assms in \<open>auto simp: GetExpensesByCategory_execute_def REPORT_FAMILIES_def Let_def split: option.splits\<close>)

lemma cash_flow_request_runs:
  assumes "cs_readers s i = Idle"
    and "readReportGeneration sv ws (pf_now (last (cs_history s))) (cs_redis s) = (r1, gen)"
    and "timezone_execute sv (last (cs_history s)) ws (memo, r1) = ((memo2, r2), timezone)"
    and "CashFlowEvolution_execute sv j pp sql_day (last (cs_history s)) ws startDate endDate (memo, cs_redis s) = ((memo', r'), v)"
  shows "\<exists>s'. cache_run sv j ''report:cash-flow-evolution:v2'' ws (startDate @ '':'' @ endDate)
      (\<lambda>p. computeCashFlow pp sql_day timezone ws startDate endDate (pf_db p)) s s'
    \<and> cs_redis s' = r' \<and> cs_history s' = cs_history s \<and> cs_readers s' i = Answered (cs_flushed s) v"
  by (rule request_runs[OF assms(1,2) timezone_redis[OF assms(3)] unrelated_timezone])
     (use assms in \<open>auto simp: CashFlowEvolution_execute_def REPORT_FAMILIES_def Let_def split: option.splits\<close>)

end
