(* ===== verification/ReportProperties.thy ===== *)
theory ReportProperties
  imports ReportMonth ReportFreshness SystemProperties
begin

text \<open>
  The properties of the reports: what the balances of a series leave out, and what the
  projection of the end of the month adds up.
\<close>

section \<open>The evolution of the balances\<close>

text \<open>
  C38: the evolution of the last days ends for every period that the calendar cuts into
  days, and the general, the investment and the net-worth series have one entry per day.
  The balance of an entry is today's balance of the accounts (checking and cash;
  investment; all, with what is owed on cards subtracted) without every completed
  transaction of the workspace that the series counts and that falls on a later day, so
  that the last entry is today's balance; grouping the rows in the query and walking the
  days forward from an opening balance lose nothing.
\<close>

theorem balances_without_later_days:
  assumes "start = dp_startOfDayAt (pp_dates pp) (dp_add (pp_dates pp) now (- period_days period) Day tz) tz"
    and "day_range (pp_dates pp) tz start (pp_endOfDay pp now tz) n"
  shows "\<exists>r. computeBalanceEvolution pp tz now ws period d = Some r
    \<and> map ds_date (be_evolution r) = map (day_at (pp_dates pp) tz start) [0..<n]
    \<and> map ds_date (be_investments r) = map (day_at (pp_dates pp) tz start) [0..<n]
    \<and> map ds_date (be_netWorth r) = map (day_at (pp_dates pp) tz start) [0..<n]
    \<and> map ds_balance (be_evolution r) = map (balance_at (pp_dates pp) tz start n resolveGeneralType
        (rows_between ws start (pp_endOfDay pp now tz) generalFilter d) (queryTotalGeneralBalance ws d)) [0..<n]
    \<and> map ds_balance (be_investments r) = map (balance_at (pp_dates pp) tz start n resolveInvestmentType
        (rows_between ws start (pp_endOfDay pp now tz) investmentFilter d) (queryTotalInvested ws d)) [0..<n]
    \<and> map ds_balance (be_netWorth r) = map (balance_at (pp_dates pp) tz start n resolveNetWorthType
        (rows_between ws start (pp_endOfDay pp now tz) netWorthFilter d) (queryCurrentNetWorth ws d)) [0..<n]"
proof -
  note series = series_of_query[OF assms(2)]
  obtain e where e: "buildDailySummary (pp_dates pp) tz start (pp_endOfDay pp now tz) []
      (queryPeriod ws start (pp_endOfDay pp now tz) generalFilter d) resolveGeneralType
      (Some (queryTotalGeneralBalance ws d - calculateNetPeriodEffect
        (queryPeriod ws start (pp_endOfDay pp now tz) generalFilter d) resolveGeneralType)) = Some e"
    "map ds_date e = map (day_at (pp_dates pp) tz start) [0..<n]"
    "map ds_balance e = map (balance_at (pp_dates pp) tz start n resolveGeneralType
        (rows_between ws start (pp_endOfDay pp now tz) generalFilter d) (queryTotalGeneralBalance ws d)) [0..<n]"
    using series by meson
  obtain i where i: "buildDailySummary (pp_dates pp) tz start (pp_endOfDay pp now tz)
      (queryOpening ws start investmentFilter d)
      (queryPeriod ws start (pp_endOfDay pp now tz) investmentFilter d) resolveInvestmentType
      (Some (queryTotalInvested ws d - calculateNetPeriodEffect
        (queryPeriod ws start (pp_endOfDay pp now tz) investmentFilter d) resolveInvestmentType)) = Some i"
    "map ds_date i = map (day_at (pp_dates pp) tz start) [0..<n]"
    "map ds_balance i = map (balance_at (pp_dates pp) tz start n resolveInvestmentType
        (rows_between ws start (pp_endOfDay pp now tz) investmentFilter d) (queryTotalInvested ws d)) [0..<n]"
    using series by meson
  obtain w where w: "buildNetWorthEvolution (pp_dates pp) tz start (pp_endOfDay pp now tz)
      (queryPeriod ws start (pp_endOfDay pp now tz) netWorthFilter d) (queryCurrentNetWorth ws d) = Some w"
    "map ds_date w = map (day_at (pp_dates pp) tz start) [0..<n]"
    "map ds_balance w = map (balance_at (pp_dates pp) tz start n resolveNetWorthType
        (rows_between ws start (pp_endOfDay pp now tz) netWorthFilter d) (queryCurrentNetWorth ws d)) [0..<n]"
    using series unfolding buildNetWorthEvolution_def by meson
  show ?thesis
    unfolding computeBalanceEvolution_def assms(1)[symmetric] Let_def
    using e i w by simp
qed

text \<open>The expense of 300 cents of theory SystemProperties, seen from the day after it.\<close>

theorem balances_without_later_days_witness:
  "\<exists>r. computeBalanceEvolution (fixed_periods (\<lambda>_. 0)) ''UTC'' 1715400000000 ''w'' ''7d'' (w_db demo_spent) = Some r
     \<and> map ds_date (be_netWorth r) = map plain [19847..19854]
     \<and> map ds_balance (be_netWorth r) = [10, 10, 10, 10, 10, 10, 7, 7]"
proof -
  let ?pp = "fixed_periods (\<lambda>_. 0)" and ?start = "19847 * DAY_MS - 0" and ?d = "w_db demo_spent"
  have dates: "pp_dates ?pp = fixed_formats (\<lambda>_. 0)" by (simp add: fixed_periods_def)
  have start: "?start = dp_startOfDayAt (pp_dates ?pp)
      (dp_add (pp_dates ?pp) 1715400000000 (- period_days ''7d'') Day ''UTC'') ''UTC''"
    by (simp add: dates fixed_formats_def fixed_offsets_def period_days_def zone_day_def DAY_MS_def)
  have r: "in_range 19847" "in_range (19847 + int 8)" "in_range 19853" by code_simp+
  from fixed_day_range[OF r(1,2), of "\<lambda>_. 0" "''UTC''"]
  have range: "day_range (pp_dates ?pp) ''UTC'' ?start (pp_endOfDay ?pp 1715400000000 ''UTC'') 8"
    by (simp add: dates) (simp add: fixed_periods_def zone_day_def DAY_MS_def)
  have days: "map (day_at (pp_dates ?pp) ''UTC'' ?start) [0..<8] = map plain [19847..19854]"
    using fixed_day_at[of "\<lambda>_. 0" "''UTC''" 19847] by (simp add: dates upt_rec upto_rec1)
  let ?row = "\<lparr>or_type = EXPENSE, or_sourceType = AccountType_value CHECKING, or_destType = None, or_amount = 300,
      pr_date = 1715299200000\<rparr> :: PeriodRow"
  have rows: "rows_between ''w'' ?start (pp_endOfDay ?pp 1715400000000 ''UTC'') netWorthFilter ?d = [?row]"
    by code_simp
  have total: "queryCurrentNetWorth ''w'' ?d = 700" by code_simp
  have day: "zone_day 0 1715299200000 = 19853" by (simp add: zone_day_def DAY_MS_def)
  have at: "balance_at (pp_dates ?pp) ''UTC'' ?start 8 resolveNetWorthType [?row] 700 = (\<lambda>k. if k < 6 then 10 else 7)"
  proof
    fix k
    show "balance_at (pp_dates ?pp) ''UTC'' ?start 8 resolveNetWorthType [?row] 700 k = (if k < 6 then 10 else 7)"
      using fixed_balance_at[OF r(1,2), of "[?row]" "\<lambda>_. 0" "''UTC''" resolveNetWorthType 700 k] r(3)
      by (cases "k < 6") (simp_all add: day dates signed_def resolveNetWorthType_def centsToDecimal_def
          del: AccountType_value.simps)
  qed
  have balances: "map (balance_at (pp_dates ?pp) ''UTC'' ?start 8 resolveNetWorthType
        (rows_between ''w'' ?start (pp_endOfDay ?pp 1715400000000 ''UTC'') netWorthFilter ?d)
        (queryCurrentNetWorth ''w'' ?d)) [0..<8] = [10, 10, 10, 10, 10, 10, 7, 7]"
    unfolding rows total at by (simp add: upt_rec)
  from balances_without_later_days[OF start range, of "''w''" ?d]
  obtain r where "computeBalanceEvolution ?pp ''UTC'' 1715400000000 ''w'' ''7d'' ?d = Some r"
    "map ds_date (be_netWorth r) = map plain [19847..19854]"
    "map ds_balance (be_netWorth r) = [10, 10, 10, 10, 10, 10, 7, 7]"
    unfolding days balances by (elim exE conjE)
  then show ?thesis by (intro exI conjI)
qed

text \<open>
  A transfer between two investment accounts, or from an investment account to a card,
  leaves the checking and cash accounts alone, yet the general series counts it as an
  expense: the balances of the days before it come out too high by its amount.
\<close>

lemma investment_transfer_counts_as_expense:
  "generalFilter TRANSFER (AccountType_value INVESTMENT) (Some (AccountType_value INVESTMENT))"
  "coefficient resolveGeneralType TRANSFER (AccountType_value INVESTMENT) (Some (AccountType_value INVESTMENT)) = - 1"
  "generalFilter TRANSFER (AccountType_value INVESTMENT) (Some (AccountType_value CREDIT_CARD))"
  "coefficient resolveGeneralType TRANSFER (AccountType_value INVESTMENT) (Some (AccountType_value CREDIT_CARD)) = - 1"
  by (simp_all add: generalFilter_def isCreditCardPayment_def isInvestmentBoundary_def coefficient_def resolveGeneralType_def)

section \<open>The projection of the month\<close>





abbreviation demo_periods :: period_provider where
  "demo_periods \<equiv> fixed_periods (\<lambda>_. 0)"



















section \<open>The cache\<close>

text \<open>
  C40: a request for a report that begins after the bump of a write never answers with
  older tables. However requests, writes, bumps, expiries and outages interleave, once
  Redis has taken a bump, every request that had not begun before it is answered with
  the report of a state of the tables at least as new as the one the bump announced,
  whether it is served from the cache or queries the tables, and whoever stored the entry.
\<close>

theorem reports_follow_bumps:
  assumes "redis_laws sv" "family \<in> set REPORT_FAMILIES" "\<forall>v. parse j (stringify j v) = v"
    and "cache_start sv family ws suffix s" "cache_run sv j family ws suffix report s s1"
    and "reaches (cs_redis s1)" "cs_readers s1 i = Idle"
    and "cache_run sv j family ws suffix report (after_bump sv ws millis s1) s2" "cs_readers s2 i = Answered b v"
  shows "\<exists>k. length (cs_history s1) - 1 \<le> k \<and> k < length (cs_history s2) \<and> v = report (cs_history s2 ! k)"
  using redis_laws.answer_after_bump[OF assms(1,2) _ assms(4-9)] assms(3) by (simp add: vouched_def last_state_def)

text \<open>The expenses of May 2024 by category, before and after the expense of theory SystemProperties.\<close>

definition demo_tables :: "db \<Rightarrow> platform" where
  "demo_tables d = \<lparr>pf_users = [], pf_workspaces = [], pf_members = [], pf_invites = [], pf_subscriptions = [],
     pf_sessions = [], pf_tokens = [], pf_categories = [], pf_db = d, pf_increments = [], pf_now = 1715400000000, pf_drawn = 0\<rparr>"

definition demo_json :: "int json" where
  "demo_json = \<lparr>stringify = unary, parse = (\<lambda>s. unary_number (Some s))\<rparr>"

definition demo_total :: "platform \<Rightarrow> int" where
  "demo_total p = te_totalExpense (computeExpensesByCategory demo_periods ''UTC'' ''w'' 5 2024 p)"

definition demo_cache :: "(string \<Rightarrow> string option, int) report_run" where
  "demo_cache = \<lparr>cs_redis = \<lparr>rd_isEnabled = True, rd_client = True, rd_answers = True, rd_store = Map.empty\<rparr>,
     cs_readers = (\<lambda>_. Idle), cs_history = [demo_tables (w_db demo_open2)], cs_flushed = 0, cs_since = (\<lambda>_. 0)\<rparr>"

theorem reports_follow_bumps_witness:
  "\<exists>s2 v k. cache_run map_server demo_json ''report:expenses-by-category:v3'' ''w'' ''2024-5'' demo_total
       (after_bump map_server ''w'' 1715400000000
          (demo_cache\<lparr>cs_history := cs_history demo_cache @ [demo_tables (w_db demo_spent)]\<rparr>)) s2
     \<and> cs_readers s2 1 = Answered 1 v \<and> cs_history s2 = [demo_tables (w_db demo_open2), demo_tables (w_db demo_spent)]
     \<and> 1 \<le> k \<and> k < 2 \<and> v = demo_total (cs_history s2 ! k)"
proof -
  let ?run = "cache_run map_server demo_json ''report:expenses-by-category:v3'' ''w'' ''2024-5'' demo_total"
  let ?s1 = "demo_cache\<lparr>cs_history := cs_history demo_cache @ [demo_tables (w_db demo_spent)]\<rparr>"
  let ?b = "after_bump map_server ''w'' 1715400000000 ?s1"
  have fam: "''report:expenses-by-category:v3'' \<in> set REPORT_FAMILIES" by (simp add: REPORT_FAMILIES_def)
  have json: "\<forall>v. parse demo_json (stringify demo_json v) = v" by (simp add: demo_json_def)
  have start: "cache_start map_server ''report:expenses-by-category:v3'' ''w'' ''2024-5'' demo_cache"
    by (simp add: cache_start_def demo_cache_def map_server_def)
  have run1: "?run demo_cache ?s1" unfolding cache_run_def by (rule r_into_rtranclp, rule cache_step.commit)
  have up: "reaches (cs_redis ?s1)" "cs_readers ?s1 1 = Idle" "last_state ?s1 = 1"
    "cs_history ?s1 = [demo_tables (w_db demo_open2), demo_tables (w_db demo_spent)]"
    by (simp_all add: demo_cache_def reaches_def last_state_def)
  have idle: "cs_readers ?b 1 = Idle" using up(2) by simp
  from request_answers[OF idle unrelated_timezone[OF fam], of map_server demo_json "''w''" "''2024-5''" demo_total]
  obtain s2 v where s2: "?run ?b s2" "cs_readers s2 1 = Answered (cs_flushed ?b) v" "cs_history s2 = cs_history ?b" by blast
  have "\<exists>k. length (cs_history ?s1) - 1 \<le> k \<and> k < length (cs_history s2) \<and> v = demo_total (cs_history s2 ! k)"
    by (rule reports_follow_bumps[OF map_redis.redis_laws_axioms fam json start run1 up(1,2) s2(1,2)])
  then show ?thesis using s2 up bump_flushed[OF up(1), of map_server "''w''" 1715400000000]
    by (intro exI[of _ s2] exI[of _ v]) auto
qed

end
