(* ===== verification/Maintenance.thy ===== *)
theory Maintenance
  imports Reconcile Schedule
begin

text \<open>
  The two maintenance scripts that write to the tables: the backfill of opening
  movements for accounts older than the ledger
  (src/scripts/backfill-balance-movements.ts) and the backfill of the number of
  installments of card purchases (src/scripts/backfill-recurring-installment-count.ts),
  with what the repositories do to the ledger while the first one runs.
\<close>

section \<open>Arguments and errors\<close>

datatype RunMode = DryRun | Apply

datatype script_error =
    MissingDatabaseUrlError
  | UnknownArgumentError string
  | ConflictingModeError
  | BackfillAccountNotFoundError string
  | LedgerMismatchError string int int
  | ScriptTypeError
  | DatabaseFailure app_error

text \<open>The first unknown argument is thrown unless it is the empty string, which is falsy.\<close>

definition parseMode :: "string list \<Rightarrow> script_error + RunMode" where
  "parseMode argv =
     (let unknown = List.find (\<lambda>a. a \<noteq> ''--apply'' \<and> a \<noteq> ''--dry-run'') argv
      in if \<not> falsy unknown then Inl (UnknownArgumentError (the unknown))
         else if ''--apply'' \<in> set argv \<and> ''--dry-run'' \<in> set argv then Inl ConflictingModeError
         else Inr (if ''--apply'' \<in> set argv then Apply else DryRun))"

definition resolveDatabaseUrl :: "string option \<Rightarrow> script_error + string" where
  "resolveDatabaseUrl env = (if falsy env then Inl MissingDatabaseUrlError else Inr (the env))"

section \<open>Opening movements\<close>

record account_snapshot =
  sn_id :: string
  sn_workspaceId :: string
  sn_name :: string
  sn_balance :: int
  sn_existing :: int
  sn_opening :: int
  sn_hasOpening :: bool

datatype apply_outcome = AlreadyCovered | Covered int

record opening_distribution =
  od_negative :: nat
  od_zero :: nat
  od_positive :: nat

record backfill_summary =
  bs_covered :: nat
  bs_alreadyCovered :: nat
  bs_openingsInserted :: nat
  bs_totalOpening :: int
  bs_distribution :: opening_distribution

definition snapshot_of :: "db \<Rightarrow> account_row \<Rightarrow> account_snapshot" where
  "snapshot_of d a =
     (let ms = movements_of d (row_id a); existing = sum_list (map mv_delta ms)
      in \<lparr>sn_id = row_id a, sn_workspaceId = row_workspaceId a, sn_name = row_name a,
          sn_balance = row_balance a, sn_existing = existing, sn_opening = row_balance a - existing,
          sn_hasOpening = (0 < length (filter (\<lambda>m. mv_cause m = OPENING) ms))\<rparr>)"

definition readAccountSnapshots :: "string option \<Rightarrow> db \<Rightarrow> account_snapshot list" where
  "readAccountSnapshots accountId d = map (snapshot_of d) (sort_key row_id
     (filter (\<lambda>a. falsy accountId \<or> Some (row_id a) = accountId) (accounts d)))"

definition BALANCE_BACKFILL_ACTOR :: string where "BALANCE_BACKFILL_ACTOR = ''system:backfill''"

definition opening_movement :: "account_snapshot \<Rightarrow> movement" where
  "opening_movement s = \<lparr>mv_workspaceId = sn_workspaceId s, mv_accountId = sn_id s,
     mv_transactionId = None, mv_cause = OPENING, mv_delta = sn_opening s,
     mv_balanceAfter = sn_balance s, mv_actorId = Some BALANCE_BACKFILL_ACTOR\<rparr>"

definition insertOpening :: "account_snapshot \<Rightarrow> db \<Rightarrow> script_error + db" where
  "insertOpening s d = (case insert_movement (opening_movement s) d of
      Inl e \<Rightarrow> Inl (DatabaseFailure e) | Inr d' \<Rightarrow> Inr d')"

definition assertLedgerMatchesBalance :: "account_snapshot \<Rightarrow> db \<Rightarrow> script_error + unit" where
  "assertLedgerMatchesBalance s d = (case account_row_of d (sn_id s) of
      None \<Rightarrow> Inl ScriptTypeError
    | Some a \<Rightarrow> (let recordedSum = sum_list (db_log d (sn_id s)) in
        if recordedSum \<noteq> row_balance a
        then Inl (LedgerMismatchError (sn_id s) recordedSum (row_balance a)) else Inr ()))"

definition isUniqueViolation :: "script_error \<Rightarrow> bool" where
  "isUniqueViolation e = (case e of DatabaseFailure x \<Rightarrow> Inl x = (duplicate_key :: unit either) | _ \<Rightarrow> False)"

text \<open>
  \<open>applyAccount\<close> is one READ COMMITTED transaction, so other sessions may commit
  between its statements: \<open>other\<close> says what they do before the snapshot is read,
  before the opening is inserted and before the sum is checked. The inserted row is
  kept apart until COMMIT: a failed check leaves what the others did and drops it. The
  unique index makes another writer of the same opening wait for it, so nobody else
  inserts that opening between the insertion and the COMMIT.
\<close>

datatype phase = BeforeRead | BeforeInsert | BeforeCheck

type_synonym other_sessions = "phase \<Rightarrow> string \<Rightarrow> db \<Rightarrow> db"

definition applyAccount_tx :: "other_sessions \<Rightarrow> string \<Rightarrow> db \<Rightarrow> (script_error + apply_outcome) \<times> db" where
  "applyAccount_tx other accountId d0 =
     (let d1 = other BeforeRead accountId d0 in
      case readAccountSnapshots (Some accountId) d1 of
        [] \<Rightarrow> (Inl (BackfillAccountNotFoundError accountId), d1)
      | account # _ \<Rightarrow>
          if sn_hasOpening account then (Inr AlreadyCovered, d1)
          else let d2 = other BeforeInsert accountId d1 in
            (case insertOpening account d2 of
               Inl e \<Rightarrow> (Inl e, d2)
             | Inr _ \<Rightarrow>
                 let d3 = other BeforeCheck accountId d2;
                     pending = d3\<lparr>movements := movements d3 @ [opening_movement account]\<rparr>
                 in (case assertLedgerMatchesBalance account pending of
                       Inl e \<Rightarrow> (Inl e, d3)
                     | Inr _ \<Rightarrow> (Inr (Covered (sn_opening account)), pending))))"

definition applyAccount :: "other_sessions \<Rightarrow> string \<Rightarrow> db \<Rightarrow> (script_error + apply_outcome) \<times> db" where
  "applyAccount other accountId d = (case applyAccount_tx other accountId d of
      (Inl e, d') \<Rightarrow> (if isUniqueViolation e then Inr AlreadyCovered else Inl e, d')
    | r \<Rightarrow> r)"

definition count_opening :: "int \<Rightarrow> opening_distribution \<Rightarrow> opening_distribution" where
  "count_opening amount dn =
     (if amount < 0 then dn\<lparr>od_negative := od_negative dn + 1\<rparr>
      else if amount = 0 then dn\<lparr>od_zero := od_zero dn + 1\<rparr>
      else dn\<lparr>od_positive := od_positive dn + 1\<rparr>)"

definition no_openings :: opening_distribution where
  "no_openings = \<lparr>od_negative = 0, od_zero = 0, od_positive = 0\<rparr>"

definition distributionOf :: "account_snapshot list \<Rightarrow> opening_distribution" where
  "distributionOf ss = foldl (\<lambda>dn s. count_opening (sn_opening s) dn) no_openings ss"

definition TOP_DIVERGED_ACCOUNTS :: nat where "TOP_DIVERGED_ACCOUNTS = 10"

text \<open>The summary \<open>printDryRun\<close> returns and the accounts it lists, largest opening first.\<close>

definition printDryRun :: "account_snapshot list \<Rightarrow> backfill_summary \<times> account_snapshot list" where
  "printDryRun ss =
     (let pending = filter (\<lambda>s. \<not> sn_hasOpening s) ss;
          ranked = sort_key (\<lambda>s. - \<bar>sn_opening s\<bar>) pending
      in (\<lparr>bs_covered = length pending, bs_alreadyCovered = length ss - length pending,
           bs_openingsInserted = 0, bs_totalOpening = sum_list (map sn_opening pending),
           bs_distribution = distributionOf pending\<rparr>, take TOP_DIVERGED_ACCOUNTS ranked))"

definition runDryRun :: "db \<Rightarrow> backfill_summary \<times> account_snapshot list" where
  "runDryRun d = printDryRun (readAccountSnapshots None d)"

record failed_account =
  fa_id :: string
  fa_reason :: script_error

fun count_outcome :: "apply_outcome \<Rightarrow> backfill_summary \<Rightarrow> backfill_summary" where
  "count_outcome AlreadyCovered s = s\<lparr>bs_alreadyCovered := bs_alreadyCovered s + 1\<rparr>"
| "count_outcome (Covered x) s = s\<lparr>bs_covered := bs_covered s + 1,
     bs_openingsInserted := bs_openingsInserted s + 1, bs_totalOpening := bs_totalOpening s + x,
     bs_distribution := count_opening x (bs_distribution s)\<rparr>"

fun apply_loop :: "other_sessions \<Rightarrow> string list \<Rightarrow> backfill_summary \<Rightarrow> failed_account list \<Rightarrow> db
    \<Rightarrow> backfill_summary \<times> failed_account list \<times> db" where
  "apply_loop other [] s failed d = (s, failed, d)"
| "apply_loop other (i # is) s failed d =
     (case applyAccount other i d of
        (Inl e, d') \<Rightarrow> apply_loop other is s (failed @ [\<lparr>fa_id = i, fa_reason = e\<rparr>]) d'
      | (Inr outcome, d') \<Rightarrow> apply_loop other is (count_outcome outcome s) failed d')"

definition empty_summary :: backfill_summary where
  "empty_summary = \<lparr>bs_covered = 0, bs_alreadyCovered = 0, bs_openingsInserted = 0,
     bs_totalOpening = 0, bs_distribution = no_openings\<rparr>"

definition runApply :: "other_sessions \<Rightarrow> db \<Rightarrow> backfill_summary \<times> failed_account list \<times> db" where
  "runApply other d = apply_loop other (map sn_id (readAccountSnapshots None d)) empty_summary [] d"

text \<open>\<open>main\<close> of the script: its exit code, what it reports and the tables it leaves.\<close>

datatype script_report = Fatal script_error
  | DryRunReported backfill_summary "account_snapshot list"
  | Applied backfill_summary "failed_account list"

definition backfill_main ::
  "string list \<Rightarrow> string option \<Rightarrow> other_sessions \<Rightarrow> db \<Rightarrow> nat \<times> script_report \<times> db" where
  "backfill_main argv env other d =
     (case parseMode argv of
        Inl e \<Rightarrow> (1, Fatal e, d)
      | Inr mode \<Rightarrow>
          (case resolveDatabaseUrl env of
             Inl e \<Rightarrow> (1, Fatal e, d)
           | Inr _ \<Rightarrow>
               (case mode of
                  DryRun \<Rightarrow> (let (summary, top) = runDryRun d in (0, DryRunReported summary top, d))
                | Apply \<Rightarrow> (let (summary, failed, d') = runApply other d
                     in (if failed = [] then 0 else 1, Applied summary failed, d')))))"

section \<open>Number of installments of card purchases\<close>

record installment_candidate =
  ic_id :: string
  ic_frequency :: RecurrenceFrequency
  ic_interval :: int
  ic_timezone :: string
  ic_start :: int
  ic_end :: int

record installment_report =
  ir_candidates :: nat
  ir_inferred :: "(string \<times> int) list"
  ir_unmatchedIds :: "string list"

text \<open>One row of the join with \<open>accounts\<close>, if the WHERE clause keeps it.\<close>

definition candidate_row :: "db \<Rightarrow> recurring \<Rightarrow> installment_candidate option" where
  "candidate_row d r = (case account_row_of d (rc_accountId r) of
      None \<Rightarrow> None
    | Some a \<Rightarrow> (case rc_endDate r of
        None \<Rightarrow> None
      | Some endDate \<Rightarrow>
          if rc_type r = EXPENSE \<and> row_type a = AccountType_value CREDIT_CARD
             \<and> rc_installmentCount r = None
          then Some \<lparr>ic_id = rc_id r, ic_frequency = rc_frequency r, ic_interval = rc_interval r,
            ic_timezone = row_timezone a, ic_start = rc_startDate r, ic_end = endDate\<rparr>
          else None))"

definition readCandidates :: "db \<Rightarrow> installment_candidate list" where
  "readCandidates d = List.map_filter (candidate_row d) (sort_key rc_id (recurrings d))"

definition inferCandidate :: "date_provider \<Rightarrow> installment_candidate \<Rightarrow> int option" where
  "inferCandidate dp row = inferInstallmentCount dp
     \<lparr>sc_startDate = ic_start row, sc_frequency = ic_frequency row,
      sc_interval = ic_interval row, sc_timezone = ic_timezone row\<rparr> (ic_end row)"

fun classify_loop :: "date_provider \<Rightarrow> installment_candidate list \<Rightarrow> (string \<times> int) list \<Rightarrow> string list
    \<Rightarrow> (string \<times> int) list \<times> string list" where
  "classify_loop dp [] inferred unmatched = (inferred, unmatched)"
| "classify_loop dp (row # rows) inferred unmatched =
     (case inferCandidate dp row of
        None \<Rightarrow> classify_loop dp rows inferred (unmatched @ [ic_id row])
      | Some n \<Rightarrow> classify_loop dp rows (inferred @ [(ic_id row, n)]) unmatched)"

definition classify :: "date_provider \<Rightarrow> installment_candidate list \<Rightarrow> installment_report" where
  "classify dp rows = (let (inferred, unmatched) = classify_loop dp rows [] []
     in \<lparr>ir_candidates = length rows, ir_inferred = inferred, ir_unmatchedIds = unmatched\<rparr>)"

definition readDryRunReport :: "date_provider \<Rightarrow> db \<Rightarrow> installment_report" where
  "readDryRunReport dp d = classify dp (readCandidates d)"

fun set_counts :: "(string \<times> int) list \<Rightarrow> nat \<Rightarrow> db \<Rightarrow> nat \<times> db" where
  "set_counts [] updated d = (updated, d)"
| "set_counts ((i, n) # rest) updated d =
     (let hit = (\<lambda>r. rc_id r = i \<and> rc_installmentCount r = None)
      in set_counts rest (updated + length (filter hit (recurrings d)))
           (d\<lparr>recurrings := update_rows hit (\<lambda>r. r\<lparr>rc_installmentCount := Some n\<rparr>) (recurrings d)\<rparr>))"

definition applyInstallmentCountBackfill :: "date_provider \<Rightarrow> db \<Rightarrow> nat \<times> db" where
  "applyInstallmentCountBackfill dp d = set_counts (ir_inferred (classify dp (readCandidates d))) 0 d"

end
