(* ===== verification/Backfill.thy ===== *)
theory Backfill
  imports Maintenance
begin

text \<open>
  What the backfill of opening movements relies on while the application runs: every
  transaction of the repositories moves a balance and its movements together, so the
  part of a balance that the movements do not explain stays the same, also for
  accounts that have no opening yet. From this, the outcome of a whole run.
\<close>

section \<open>The unexplained part of a balance\<close>

definition unexplained :: "db \<Rightarrow> string \<Rightarrow> int option" where
  "unexplained d i = map_option (\<lambda>b. b - sum_list (db_log d i)) (db_balance d i)"

definition has_opening :: "db \<Rightarrow> string \<Rightarrow> bool" where
  "has_opening d i = (\<exists>m \<in> set (movements_of d i). mv_cause m = OPENING)"

text \<open>Constraints of the schema on these two tables: the primary key and the foreign key.\<close>

definition ledger_tables :: "db \<Rightarrow> bool" where
  "ledger_tables d = (distinct_by row_id (accounts d)
     \<and> (\<forall>m \<in> set (movements d). account_row_of d (mv_accountId m) \<noteq> None))"

text \<open>An account stays with what is unexplained in it; a new one is explained and opened.\<close>

definition grown_at :: "db \<Rightarrow> db \<Rightarrow> string \<Rightarrow> bool" where
  "grown_at d d' i = (case unexplained d i of
      None \<Rightarrow> (case unexplained d' i of None \<Rightarrow> True | Some g \<Rightarrow> g = 0 \<and> has_opening d' i)
    | Some g \<Rightarrow> unexplained d' i = Some g \<and> (has_opening d i \<longrightarrow> has_opening d' i))"

definition grown :: "db \<Rightarrow> db \<Rightarrow> bool" where
  "grown d d' = (ledger_tables d \<longrightarrow> ledger_tables d' \<and> (\<forall>i. grown_at d d' i))"

lemma grownI:
  assumes "ledger_tables d \<Longrightarrow> ledger_tables d'" "\<And>i. ledger_tables d \<Longrightarrow> grown_at d d' i"
  shows "grown d d'"
  using assms by (simp add: grown_def)

lemma grownD:
  assumes "grown d d'" "ledger_tables d"
  shows "ledger_tables d'" "grown_at d d' i"
  using assms by (simp_all add: grown_def)

lemma grown_kept:
  assumes "grown d d'" "ledger_tables d" "unexplained d i = Some g"
  shows "unexplained d' i = Some g" "has_opening d i \<Longrightarrow> has_opening d' i"
  using grownD(2)[OF assms(1,2), of i] assms(3) by (simp_all add: grown_at_def)

lemma grown_refl: "grown d d"
  by (rule grownI) (auto simp: grown_at_def split: option.split)

lemma grown_at_trans: "grown_at d e i \<Longrightarrow> grown_at e f i \<Longrightarrow> grown_at d f i"
  by (auto simp: grown_at_def split: option.splits)

lemma grown_trans: "grown d e \<Longrightarrow> grown e f \<Longrightarrow> grown d f"
  unfolding grown_def using grown_at_trans by blast

lemma grown_cong:
  assumes "accounts d' = accounts d" "movements d' = movements d" shows "grown d d'"
proof -
  have "account_row_of d' = account_row_of d" "movements_of d' = movements_of d"
    using assms by (simp_all add: account_row_of_def movements_of_def fun_eq_iff)
  then show ?thesis using assms
    by (intro grownI)
       (auto simp: ledger_tables_def grown_at_def unexplained_def has_opening_def split: option.split)
qed

lemma unexplained_None: "unexplained d i = None \<longleftrightarrow> account_row_of d i = None"
  by (simp add: unexplained_def)

text \<open>Adding to a balance what is appended to its movements.\<close>

lemma grown_append:
  assumes "account_row_of d' = (account_row_of d)(mv_accountId m \<mapsto> r\<lparr>row_balance := row_balance r + mv_delta m\<rparr>)"
    and "account_row_of d (mv_accountId m) = Some r" "movements d' = movements d @ [m]"
    and "distinct_by row_id (accounts d) \<Longrightarrow> distinct_by row_id (accounts d')"
  shows "grown d d'"
proof (rule grownI)
  show "ledger_tables d'" if "ledger_tables d"
    using that assms by (auto simp: ledger_tables_def)
  show "grown_at d d' i" for i
    by (auto simp: grown_at_def unexplained_def has_opening_def movements_of_snoc[OF assms(3)] assms(1,2)
        split: option.split)
qed

lemma post_delta_grown:
  assumes "post_delta en aid x d = Inr d'" shows "grown d d'"
  using assms
proof (rule post_delta_Inr)
  fix r assume r: "account_row_of d aid = Some r"
    and acc: "accounts d' = update_rows (\<lambda>r. row_id r = aid) (\<lambda>r. r\<lparr>row_balance := row_balance r + x\<rparr>) (accounts d)"
    and mov: "movements d' = movements d @ [\<lparr>mv_workspaceId = row_workspaceId r, mv_accountId = aid,
            mv_transactionId = en_transactionId en, mv_cause = en_cause en, mv_delta = x,
            mv_balanceAfter = row_balance r + x, mv_actorId = Some (en_actorId en)\<rparr>]"
  have "account_row_of d' i = ((account_row_of d)(aid \<mapsto> r\<lparr>row_balance := row_balance r + x\<rparr>)) i" for i
    using r by (cases "i = aid") (simp_all add: account_row_of_def acc table_simps)
  then show ?thesis
    by (intro grown_append[OF _ _ mov]) (simp_all add: r acc table_simps fun_eq_iff)
qed

lemma writeBalanceDeltas_grown:
  assumes "writeBalanceDeltas ds en d = Inr d'" shows "grown d d'"
proof -
  have "post_deltas en ds d = Inr d' \<Longrightarrow> grown d d'" for ds d
  proof (induction ds arbitrary: d)
    case (Cons e ds)
    then obtain aid x c where "post_delta en aid x d = Inr c" "post_deltas en ds c = Inr d'"
      by (cases e) (auto simp: and_then_Inr_iff)
    with Cons.IH show ?case using post_delta_grown grown_trans by blast
  qed (simp add: grown_refl)
  with assms show ?thesis by (simp add: writeBalanceDeltas_def)
qed

lemma writeBalanceDeltas_grown_from:
  assumes "writeBalanceDeltas ds en e = Inr d'" "accounts e = accounts d" "movements e = movements d"
  shows "grown d d'"
  by (rule grown_trans[OF grown_cong[OF assms(2,3)] writeBalanceDeltas_grown[OF assms(1)]])

lemma createWithOpeningMovement_grown:
  assumes c: "createWithOpeningMovement uuid acc actor d = Inr d'" shows "grown d d'"
proof -
  let ?aid = "ensureEntityId uuid (account_id acc)"
  let ?row = "account_toDatabase (map_base (\<lambda>p. p\<lparr>acc_id := ?aid\<rparr>) acc)"
  have id: "row_id ?row = ?aid" by (simp add: account_toDatabase_def account_simps)
  from c obtain m where fresh: "account_row_of d ?aid = None"
    and acc: "accounts d' = accounts d @ [?row]" and mov: "movements d' = movements d @ [m]"
    and m: "mv_accountId m = ?aid" "mv_cause m = OPENING" "mv_delta m = row_balance ?row"
    by (auto simp: createWithOpeningMovement_def insertOpeningMovement_def Let_def duplicate_key_def
        account_toDatabase_def account_simps split: if_splits dest!: insert_movement_Inr)
  have row: "account_row_of d' i = (if i = ?aid then Some ?row else account_row_of d i)" for i
    using fresh id by (auto simp: account_row_of_def acc table_simps split: option.split)
  note mv = movements_of_snoc[OF mov]
  show ?thesis
  proof (rule grownI)
    assume t: "ledger_tables d"
    then have none: "movements_of d ?aid = []"
      using fresh by (auto simp: ledger_tables_def movements_of_def filter_empty_conv)
    show "ledger_tables d'"
      using t fresh id m by (auto simp: ledger_tables_def acc mov row table_simps account_row_of_def)
    show "grown_at d d' i" for i
      using m none fresh
      by (cases "i = ?aid")
         (auto simp: grown_at_def unexplained_def has_opening_def row mv split: option.split)
  qed
qed

lemma account_update_grown: "grown d (account_update acc d)"
proof (rule grownI)
  have bal: "map_option row_balance (account_row_of (account_update acc d) i)
      = map_option row_balance (account_row_of d i)" for i
    by (cases "i = account_id acc")
       (simp_all add: account_row_of_def account_update_def table_simps account_simps option.map_comp comp_def)
  have mov: "movements_of (account_update acc d) = movements_of d"
    by (simp add: account_update_def movements_of_def fun_eq_iff)
  have row: "account_row_of (account_update acc d) i = None \<longleftrightarrow> account_row_of d i = None" for i
    using arg_cong[OF bal[of i], of "\<lambda>b. b = None"] by simp
  have "movements (account_update acc d) = movements d"
    "distinct_by row_id (accounts (account_update acc d)) = distinct_by row_id (accounts d)"
    by (simp_all add: account_update_def table_simps account_simps)
  then show "ledger_tables (account_update acc d)" if "ledger_tables d"
    using that row by (simp add: ledger_tables_def)
  show "grown_at d (account_update acc d) i" for i
    by (auto simp: grown_at_def unexplained_def has_opening_def bal mov split: option.split)
qed

lemma persist_grown:
  assumes "persistWithBalanceUpdate uuid accts t f ctx d = Inr d'" shows "grown d d'"
proof -
  from assms obtain ds en ts where w: "writeBalanceDeltas ds en (d\<lparr>transactions := ts\<rparr>) = Inr d'"
    by (auto simp: persistWithBalanceUpdate_def and_then_Inr_iff insert_transaction_Inr Let_def)
  show ?thesis by (rule writeBalanceDeltas_grown_from[OF w]) simp_all
qed

lemma repo_step_grown: "repo_step d d' \<Longrightarrow> grown d d'"
proof (induction rule: repo_step.induct)
  case (open_account uuid acc actor d d')
  then show ?case by (rule createWithOpeningMovement_grown)
next
  case (edit_account d acc)
  then show ?case by (rule account_update_grown)
next
  case (create_tx uuid t f ctx d d')
  then show ?case by (auto simp: createWithBalanceUpdate_def and_then_Inr_iff dest: persist_grown)
next
  case (create_plan uuid r first ctx d d')
  then obtain accts f where "persistWithBalanceUpdate uuid accts first f ctx
      (d\<lparr>recurrings := recurrings d @ [r]\<rparr>) = Inr d'"
    by (auto simp: createInstallmentPlan_def and_then_Inr_iff insert_recurring_def enforce_Inr)
  from grown_trans[OF grown_cong persist_grown[OF this]] show ?case by simp
next
  case (update_tx tid mutate ctx d d' u)
  then obtain ds en d1 where w: "writeBalanceDeltas ds en d = Inr d1"
    and "accounts d' = accounts d1" "movements d' = movements d1"
    by (auto simp: updateWithBalanceEffect_def update_transaction_row_def enforce_Inr and_then_Inr_iff
        split: option.splits)
  with grown_trans[OF writeBalanceDeltas_grown[OF w] grown_cong] show ?case by simp
next
  case (delete_tx tid ctx d d' b)
  from deleteWithBalanceEffect_cases[OF delete_tx(1)] consider "d' = d" | cur :: transaction and ds
    where "writeBalanceDeltas ds (entry (tx_id cur) TRANSACTION_DELETED ctx)
      (d\<lparr>transactions := delete_rows (\<lambda>t. tx_id t = tx_id cur) (transactions d)\<rparr>) = Inr d'" by blast
  then show ?case
  proof cases
    case (2 cur ds)
    then show ?thesis by (rule writeBalanceDeltas_grown_from) simp_all
  qed (simp add: grown_refl)
next
  case (set_status now params ctx d d' u)
  from set_status(1) show ?case
  proof (rule updateStatus_Inr)
    fix row ids accts ds d1
    assume d1: "d1 = d\<lparr>transactions := update_rows (status_candidate params)
           (\<lambda>t. t\<lparr>tx_status := sp_status params, tx_updatedAt := Some now\<rparr>) (transactions d)\<rparr>"
      and w: "writeBalanceDeltas ds (entry (tx_id u) STATUS_CHANGED ctx) d1 = Inr d'"
    show ?thesis by (rule writeBalanceDeltas_grown_from[OF w]) (simp_all add: d1)
  qed
next
  case (generate fresh new r d d' n)
  then show ?case
    by (auto simp: createGeneratedTransactions_def Let_def and_then_Inr_iff enforce_Inr intro!: grown_cong)
next
  case (create_rule uuid r d d' r')
  then show ?case
    by (auto simp: recurring_create_def insert_recurring_def Let_def and_then_Inr_iff enforce_Inr intro!: grown_cong)
next
  case (update_rule r d d')
  then show ?case by (auto simp: recurring_update_def enforce_Inr intro!: grown_cong)
next
  case (delete_rule rid d d')
  then show ?case by (auto simp: recurring_delete_def enforce_Inr intro!: grown_cong)
qed

lemma repo_steps_grown: "repo_step\<^sup>*\<^sup>* d d' \<Longrightarrow> grown d d'"
  by (induction rule: rtranclp_induct) (auto intro: grown_refl grown_trans repo_step_grown)

section \<open>One account\<close>

text \<open>A transaction posted with another cause opens no account.\<close>

lemma writeBalanceDeltas_no_opening:
  assumes "writeBalanceDeltas ds en d = Inr d'" "en_cause en \<noteq> OPENING"
  shows "has_opening d' j = has_opening d j"
proof -
  have "post_deltas en ds d = Inr d' \<Longrightarrow> has_opening d' j = has_opening d j" for ds d
  proof (induction ds arbitrary: d)
    case (Cons e ds)
    then obtain aid x c where c: "post_delta en aid x d = Inr c" "post_deltas en ds c = Inr d'"
      by (cases e) (auto simp: and_then_Inr_iff)
    from c(1) have "has_opening c j = has_opening d j"
      by (rule post_delta_Inr) (use assms(2) in \<open>auto simp: has_opening_def movements_of_snoc\<close>)
    with Cons.IH[OF c(2)] show ?case by simp
  qed simp
  with assms(1) show ?thesis by (simp add: writeBalanceDeltas_def)
qed

lemma recording_no_opening:
  assumes "createWithBalanceUpdate uuid t f ctx d = Inr d'" "ctx_cause ctx = None"
  shows "has_opening d' j = has_opening d j"
proof -
  from assms obtain ds en ts where w: "writeBalanceDeltas ds en (d\<lparr>transactions := ts\<rparr>) = Inr d'"
    and "en_cause en \<noteq> OPENING"
    by (auto simp: createWithBalanceUpdate_def persistWithBalanceUpdate_def and_then_Inr_iff
        insert_transaction_Inr entry_def Let_def)
  then have "has_opening d' j = has_opening (d\<lparr>transactions := ts\<rparr>) j" by (rule writeBalanceDeltas_no_opening)
  then show ?thesis by (simp add: has_opening_def movements_of_def)
qed

text \<open>
  What the other sessions do: transactions of the repositories that write the opening
  of an account only when they create it.
\<close>

definition live_traffic :: "other_sessions \<Rightarrow> bool" where
  "live_traffic other = (\<forall>p i d. repo_step\<^sup>*\<^sup>* d (other p i d) \<and>
     (\<forall>j. account_row_of d j \<noteq> None \<longrightarrow> has_opening (other p i d) j \<longrightarrow> has_opening d j))"

lemma traffic_grown: "live_traffic other \<Longrightarrow> grown d (other p i d)"
  unfolding live_traffic_def using repo_steps_grown by blast

lemma traffic_kept:
  assumes "live_traffic other" "ledger_tables d" "unexplained d j = Some g"
  shows "unexplained (other p i d) j = Some g" "has_opening (other p i d) j = has_opening d j"
proof -
  note k = grown_kept[OF traffic_grown[OF assms(1)] assms(2,3), of p i]
  show "unexplained (other p i d) j = Some g" by (rule k(1))
  have "has_opening (other p i d) j \<Longrightarrow> has_opening d j"
    using assms(1,3) unexplained_None[of d j] unfolding live_traffic_def by auto
  with k(2) show "has_opening (other p i d) j = has_opening d j" by blast
qed

lemma snapshot_head:
  assumes "ledger_tables d" "unexplained d i = Some g" "i \<noteq> []"
  obtains s rest where "readAccountSnapshots (Some i) d = s # rest" "sn_id s = i" "sn_opening s = g"
    "sn_hasOpening s = has_opening d i"
proof -
  let ?rows = "sort_key row_id (filter (\<lambda>a. row_id a = i) (accounts d))"
  from assms(2) obtain r where r: "account_row_of d i = Some r" and g: "g = row_balance r - sum_list (db_log d i)"
    by (auto simp: unexplained_def)
  have "account_row_of d i = Some a \<longleftrightarrow> a \<in> set (accounts d) \<and> row_id a = i" for a
    using find_row_key_Some_iff[of row_id "accounts d" i] assms(1)
    by (simp add: ledger_tables_def account_row_of_def)
  then have "\<forall>a \<in> set ?rows. a = r" using r by (metis (mono_tags, lifting) mem_Collect_eq option.inject set_filter set_sort)
  moreover have "r \<in> set ?rows" "row_id r = i" using account_row_of_SomeD[OF r] by simp_all
  ultimately obtain rest where "?rows = r # rest" by (cases ?rows) auto
  then have "readAccountSnapshots (Some i) d = snapshot_of d r # map (snapshot_of d) rest"
    using assms(3) by (simp add: readAccountSnapshots_def falsy_def)
  moreover have "sn_id (snapshot_of d r) = i" "sn_opening (snapshot_of d r) = g"
    "sn_hasOpening (snapshot_of d r) = has_opening d i"
    by (auto simp: snapshot_of_def Let_def g \<open>row_id r = i\<close> has_opening_def filter_empty_conv)
  ultimately show thesis using that by blast
qed

definition planned :: "db \<Rightarrow> string \<Rightarrow> apply_outcome" where
  "planned d i = (if has_opening d i then AlreadyCovered else Covered (the (unexplained d i)))"

text \<open>What one account of the run leaves: itself covered, the others as the traffic left them.\<close>

definition covered_from :: "db \<Rightarrow> db \<Rightarrow> string \<Rightarrow> bool" where
  "covered_from d d' i = (if has_opening d i then grown_at d d' i
     else unexplained d' i = Some 0 \<and> has_opening d' i)"

definition left_alone :: "db \<Rightarrow> db \<Rightarrow> string \<Rightarrow> bool" where
  "left_alone d d' j = (grown_at d d' j \<and> (unexplained d j \<noteq> None \<longrightarrow> has_opening d' j = has_opening d j))"

lemma left_alone_trans: "left_alone d e j \<Longrightarrow> left_alone e f j \<Longrightarrow> left_alone d f j"
  unfolding left_alone_def using grown_at_trans by (auto simp: grown_at_def split: option.splits)

lemma left_alone_traffic: "live_traffic other \<Longrightarrow> ledger_tables d \<Longrightarrow> left_alone d (other p i d) j"
  using traffic_kept[of other d j _ p i] grownD(2)[OF traffic_grown]
  by (cases "unexplained d j") (auto simp: left_alone_def)

lemma applyAccount_outcome:
  assumes "live_traffic other" "ledger_tables d" "unexplained d i = Some g" "i \<noteq> []"
  obtains d' where "applyAccount other i d = (Inr (planned d i), d')" "ledger_tables d'"
    "covered_from d d' i" "\<And>j. j \<noteq> i \<Longrightarrow> left_alone d d' j"
proof -
  let ?d1 = "other BeforeRead i d" and ?d2 = "other BeforeInsert i (other BeforeRead i d)"
  let ?d3 = "other BeforeCheck i ?d2"
  note t1 = grownD(1)[OF traffic_grown[OF assms(1)] assms(2), of BeforeRead i]
  note t2 = grownD(1)[OF traffic_grown[OF assms(1)] t1, of BeforeInsert i]
  note t3 = grownD(1)[OF traffic_grown[OF assms(1)] t2, of BeforeCheck i]
  note k1 = traffic_kept[OF assms(1-3), of BeforeRead i]
  note k2 = traffic_kept[OF assms(1) t1 k1(1), of BeforeInsert i]
  note k3 = traffic_kept[OF assms(1) t2 k2(1), of BeforeCheck i]
  obtain s rest where s: "readAccountSnapshots (Some i) ?d1 = s # rest" "sn_id s = i" "sn_opening s = g"
    "sn_hasOpening s = has_opening ?d1 i"
    by (rule snapshot_head[OF t1 k1(1) assms(4)])
  show thesis
  proof (cases "has_opening d i")
    case True
    show thesis
    proof (rule that[of ?d1])
      show "applyAccount other i d = (Inr (planned d i), ?d1)"
        using s True k1 by (simp add: applyAccount_def applyAccount_tx_def planned_def)
      show "covered_from d ?d1 i"
        using True grownD(2)[OF traffic_grown[OF assms(1)] assms(2)] by (simp add: covered_from_def)
    qed (use t1 left_alone_traffic[OF assms(1,2)] in simp_all)
  next
    case False
    let ?m = "opening_movement s" and ?p = "?d3\<lparr>movements := movements ?d3 @ [opening_movement s]\<rparr>"
    from k3(1) obtain r where r: "account_row_of ?d3 i = Some r" "row_balance r = g + sum_list (db_log ?d3 i)"
      by (auto simp: unexplained_def)
    have m: "mv_accountId ?m = i" "mv_cause ?m = OPENING" "mv_delta ?m = g"
      by (simp_all add: opening_movement_def s)
    have p: "account_row_of ?p = account_row_of ?d3"
      "movements_of ?p j = movements_of ?d3 j @ (if i = j then [?m] else [])" for j
      by (simp_all add: account_row_of_def movements_of_def m fun_eq_iff)
    have un: "unexplained ?p j = (if j = i then Some 0 else unexplained ?d3 j)" for j
      using r by (simp add: unexplained_def p m)
    have op: "has_opening ?p j = (j = i \<or> has_opening ?d3 j)" for j
      by (auto simp: has_opening_def p m)
    have "insert_movement ?m ?d2 = Inr (?d2\<lparr>movements := movements ?d2 @ [?m]\<rparr>)"
      using False k1(2) k2(2) by (auto simp: insert_movement_def m has_opening_def movements_of_def)
    moreover have "assertLedgerMatchesBalance s ?p = Inr ()"
      using r by (simp add: assertLedgerMatchesBalance_def s p m)
    ultimately have run: "applyAccount other i d = (Inr (planned d i), ?p)"
      using s False k1 assms(3)
      by (simp add: applyAccount_def applyAccount_tx_def planned_def insertOpening_def Let_def)
    show thesis
    proof (rule that[OF run])
      show "ledger_tables ?p" using t3 r(1) by (auto simp: ledger_tables_def p m)
      show "covered_from d ?p i" using False by (simp add: covered_from_def un op)
      fix j assume j: "j \<noteq> i"
      have "left_alone d ?d3 j"
        using left_alone_trans left_alone_traffic[OF assms(1,2)] left_alone_traffic[OF assms(1) t1]
          left_alone_traffic[OF assms(1) t2] by blast
      have same: "unexplained ?p j = unexplained ?d3 j" "has_opening ?p j = has_opening ?d3 j"
        using j un[of j] op[of j] by auto
      from \<open>left_alone d ?d3 j\<close> show "left_alone d ?p j" unfolding left_alone_def grown_at_def same .
    qed
  qed
qed

section \<open>The run\<close>

lemma apply_loop_outcome:
  assumes "live_traffic other"
  shows "ledger_tables d \<Longrightarrow> distinct is \<Longrightarrow> (\<And>i. i \<in> set is \<Longrightarrow> unexplained d i \<noteq> None \<and> i \<noteq> []) \<Longrightarrow>
    \<exists>d'. apply_loop other is s failed d = (foldl (\<lambda>s i. count_outcome (planned d i) s) s is, failed, d')
      \<and> ledger_tables d' \<and> (\<forall>j. if j \<in> set is then covered_from d d' j else left_alone d d' j)"
proof (induction "is" arbitrary: d s)
  case Nil
  then show ?case using grownD(2)[OF grown_refl] by (simp add: left_alone_def)
next
  case (Cons i js)
  from Cons.prems(3)[of i] obtain g where g: "unexplained d i = Some g" "i \<noteq> []" by auto
  obtain e where e: "applyAccount other i d = (Inr (planned d i), e)" "ledger_tables e" "covered_from d e i"
    "\<And>j. j \<noteq> i \<Longrightarrow> left_alone d e j"
    using applyAccount_outcome[OF assms Cons.prems(1) g] by blast
  have same: "unexplained e j = unexplained d j \<and> has_opening e j = has_opening d j" if "j \<in> set js" for j
  proof -
    have "j \<noteq> i" using that Cons.prems(2) by auto
    with e(4)[of j] Cons.prems(3)[of j] that show ?thesis
      by (auto simp: left_alone_def grown_at_def split: option.splits)
  qed
  with Cons.IH[OF e(2), of "count_outcome (planned d i) s"] Cons.prems(2,3) obtain d' where
    d': "apply_loop other js (count_outcome (planned d i) s) failed e
        = (foldl (\<lambda>s i. count_outcome (planned e i) s) (count_outcome (planned d i) s) js, failed, d')"
    "ledger_tables d'" "\<And>j. if j \<in> set js then covered_from e d' j else left_alone e d' j" by force
  have "foldl (\<lambda>s i. count_outcome (planned e i) s) t js = foldl (\<lambda>s i. count_outcome (planned d i) s) t js" for t
    by (rule foldl_cong) (simp_all add: planned_def same)
  moreover have "if j \<in> set (i # js) then covered_from d d' j else left_alone d d' j" for j
  proof -
    consider "j = i" | "j \<in> set js" "j \<noteq> i" | "j \<notin> set js" "j \<noteq> i" by blast
    then show ?thesis
    proof cases
      case 1
      then have "left_alone e d' i" using d'(3)[of i] Cons.prems(2) by simp
      with e(3) 1 show ?thesis
        by (auto simp: covered_from_def left_alone_def grown_at_def split: option.splits if_splits)
    next
      case 2
      with d'(3)[of j] e(4)[of j] same[of j] show ?thesis
        using grown_at_trans[of d e j d'] by (auto simp: covered_from_def left_alone_def)
    next
      case 3
      with d'(3)[of j] e(4)[of j] show ?thesis using left_alone_trans[of d e j d'] by simp
    qed
  qed
  ultimately show ?case using e(1) d'(1,2) by simp
qed

text \<open>The fold of the outcomes is the summary the dry run announces.\<close>

definition announced :: "backfill_summary \<Rightarrow> backfill_summary" where
  "announced s = s\<lparr>bs_openingsInserted := bs_covered s\<rparr>"

lemma foldl_count_outcomes:
  "foldl (\<lambda>s x. count_outcome (if sn_hasOpening x then AlreadyCovered else Covered (sn_opening x)) s) s0 ss
   = (let pending = filter (\<lambda>x. \<not> sn_hasOpening x) ss in
      \<lparr>bs_covered = bs_covered s0 + length pending,
       bs_alreadyCovered = bs_alreadyCovered s0 + (length ss - length pending),
       bs_openingsInserted = bs_openingsInserted s0 + length pending,
       bs_totalOpening = bs_totalOpening s0 + sum_list (map sn_opening pending),
       bs_distribution = foldl (\<lambda>dn x. count_opening (sn_opening x) dn) (bs_distribution s0) pending\<rparr>)"
  by (induction ss arbitrary: s0) (auto simp: Let_def Suc_diff_le trans_le_add2)

lemma foldl_map_list: "foldl f a (map g xs) = foldl (\<lambda>b x. f b (g x)) a xs"
  by (induction xs arbitrary: a) simp_all

lemma planned_snapshot:
  assumes "ledger_tables d" "r \<in> set (accounts d)"
  shows "planned d (row_id r) = (if sn_hasOpening (snapshot_of d r) then AlreadyCovered
      else Covered (sn_opening (snapshot_of d r)))"
proof -
  have "account_row_of d (row_id r) = Some r"
    using assms find_row_key_Some_iff[of row_id "accounts d"] by (simp add: ledger_tables_def account_row_of_def)
  then show ?thesis
    by (auto simp: planned_def snapshot_of_def Let_def has_opening_def unexplained_def filter_empty_conv)
qed

lemma sn_id_snapshot: "sn_id (snapshot_of d r) = row_id r"
  by (simp add: snapshot_of_def Let_def)

lemma read_all: "readAccountSnapshots None d = map (snapshot_of d) (sort_key row_id (accounts d))"
  by (simp add: readAccountSnapshots_def falsy_def)

lemma runApply_outcome:
  assumes "live_traffic other" "ledger_tables d" "account_row_of d [] = None"
  obtains d' where "runApply other d = (announced (fst (runDryRun d)), [], d')" "ledger_tables d'"
    "\<And>j. if unexplained d j = None then left_alone d d' j else covered_from d d' j"
proof -
  let ?is = "map sn_id (readAccountSnapshots None d)"
  have ids: "?is = map row_id (sort_key row_id (accounts d))"
    by (simp add: read_all comp_def sn_id_snapshot)
  have set: "set ?is = row_id ` set (accounts d)" by (simp add: ids)
  have mem: "j \<in> set ?is \<longleftrightarrow> unexplained d j \<noteq> None" for j
    unfolding set by (auto simp: unexplained_None account_row_of_def find_row_None_iff)
  have "mset ?is = mset (map row_id (accounts d))" unfolding ids by simp
  with assms(2) have "distinct ?is"
    unfolding ledger_tables_def distinct_by_def using mset_eq_imp_distinct_iff by blast
  moreover have "unexplained d i \<noteq> None \<and> i \<noteq> []" if "i \<in> set ?is" for i
    using that mem[of i] assms(3) by (auto simp: unexplained_None)
  ultimately obtain d' where d': "apply_loop other ?is empty_summary [] d
      = (foldl (\<lambda>s i. count_outcome (planned d i) s) empty_summary ?is, [], d')" "ledger_tables d'"
    "\<And>j. if j \<in> set ?is then covered_from d d' j else left_alone d d' j"
    using apply_loop_outcome[OF assms(1,2), of ?is empty_summary "[]"] by blast
  have "foldl (\<lambda>s i. count_outcome (planned d i) s) empty_summary ?is
      = foldl (\<lambda>s x. count_outcome (if sn_hasOpening x then AlreadyCovered else Covered (sn_opening x)) s)
          empty_summary (readAccountSnapshots None d)"
    unfolding ids read_all foldl_map_list
    by (rule foldl_cong) (simp_all add: sn_id_snapshot planned_snapshot[OF assms(2)])
  also have "\<dots> = announced (fst (runDryRun d))"
    by (simp add: foldl_count_outcomes Let_def announced_def runDryRun_def printDryRun_def empty_summary_def
        distributionOf_def)
  finally show thesis using that[of d'] d' mem by (simp add: runApply_def)
qed

section \<open>Inferred numbers of installments\<close>

lemma classify_loop_eq:
  "classify_loop dp rows inferred unmatched =
     (inferred @ List.map_filter (\<lambda>row. map_option (Pair (ic_id row)) (inferCandidate dp row)) rows,
      unmatched @ map ic_id (filter (\<lambda>row. inferCandidate dp row = None) rows))"
  by (induction rows arbitrary: inferred unmatched) (simp_all add: map_filter_simps split: option.split)

definition inferred_count :: "date_provider \<Rightarrow> db \<Rightarrow> recurring \<Rightarrow> int option" where
  "inferred_count dp d r = Option.bind (candidate_row d r) (inferCandidate dp)"

definition backfilled :: "date_provider \<Rightarrow> db \<Rightarrow> recurring \<Rightarrow> recurring" where
  "backfilled dp d r = (case inferred_count dp d r of None \<Rightarrow> r | Some n \<Rightarrow> r\<lparr>rc_installmentCount := Some n\<rparr>)"

lemma candidate_row_id: "candidate_row d r = Some row \<Longrightarrow> ic_id row = rc_id r \<and> rc_installmentCount r = None"
  by (auto simp: candidate_row_def split: option.splits if_splits)

lemma inferred_eq: "ir_inferred (classify dp (readCandidates d))
    = List.map_filter (\<lambda>r. map_option (Pair (rc_id r)) (inferred_count dp d r)) (sort_key rc_id (recurrings d))"
proof -
  have "List.map_filter (\<lambda>row. map_option (Pair (ic_id row)) (inferCandidate dp row))
      (List.map_filter (candidate_row d) rs)
    = List.map_filter (\<lambda>r. map_option (Pair (rc_id r)) (inferred_count dp d r)) rs" for rs
    by (induction rs) (auto simp: map_filter_simps inferred_count_def dest: candidate_row_id split: option.split)
  then show ?thesis by (simp add: classify_def classify_loop_eq readCandidates_def Let_def)
qed

lemma inferred_count_None: "rc_installmentCount r \<noteq> None \<Longrightarrow> inferred_count dp d r = None"
  using candidate_row_id[of d r] by (cases "candidate_row d r") (auto simp: inferred_count_def)

lemma set_counts_eq:
  "distinct (map fst ps) \<Longrightarrow> snd (set_counts ps u d) = d\<lparr>recurrings := map (\<lambda>r.
     case map_of ps (rc_id r) of None \<Rightarrow> r
     | Some n \<Rightarrow> if rc_installmentCount r = None then r\<lparr>rc_installmentCount := Some n\<rparr> else r) (recurrings d)\<rparr>"
proof (induction ps u d rule: set_counts.induct)
  case (2 i n rest u d)
  then have "map_of rest i = None" by (simp add: map_of_eq_None_iff)
  with 2 show ?case by (auto simp: Let_def update_rows_def comp_def split: option.split)
qed simp

lemma map_of_map_filter:
  assumes "distinct_by key rs" "r \<in> set rs"
  shows "map_of (List.map_filter (\<lambda>r. map_option (Pair (key r)) (f r)) rs) (key r) = f r"
  using assms
proof (induction rs)
  case (Cons q rs)
  have none: "map_of (List.map_filter (\<lambda>r. map_option (Pair (key r)) (f r)) rs) k = None"
    if "k \<notin> key ` set rs" for k
    using that by (induction rs) (auto simp: map_filter_simps split: option.split)
  from Cons show ?case
    by (cases "q = r") (auto simp: map_filter_simps distinct_by_def none rev_image_eqI split: option.split)
qed simp

lemma distinct_map_filter_key:
  "distinct_by key rs \<Longrightarrow> distinct (map fst (List.map_filter (\<lambda>r. map_option (Pair (key r)) (f r)) rs))"
  by (induction rs) (auto simp: distinct_by_def map_filter_simps map_filter_def split: option.split)

lemma distinct_by_sort: "distinct_by key rs \<Longrightarrow> distinct_by key (sort_key key' rs)"
proof -
  assume "distinct_by key rs"
  moreover have "mset (map key (sort_key key' rs)) = mset (map key rs)" by simp
  ultimately show ?thesis unfolding distinct_by_def using mset_eq_imp_distinct_iff by blast
qed

lemma backfill_counts:
  assumes "distinct_by rc_id (recurrings d)"
  shows "snd (applyInstallmentCountBackfill dp d) = d\<lparr>recurrings := map (backfilled dp d) (recurrings d)\<rparr>"
proof -
  let ?ps = "ir_inferred (classify dp (readCandidates d))"
  note dist = distinct_by_sort[OF assms, of rc_id]
  have "map_of ?ps (rc_id r) = inferred_count dp d r" if "r \<in> set (recurrings d)" for r
    using map_of_map_filter[OF dist, of r "inferred_count dp d"] that by (simp add: inferred_eq)
  moreover have "distinct (map fst ?ps)" unfolding inferred_eq by (rule distinct_map_filter_key[OF dist])
  ultimately show ?thesis
    by (auto simp: applyInstallmentCountBackfill_def set_counts_eq backfilled_def inferred_count_None
        split: option.split intro!: arg_cong[where f="\<lambda>rs. d\<lparr>recurrings := rs\<rparr>"])
qed

lemma backfilled_same [simp]: "rc_id (backfilled dp d r) = rc_id r"
  "(backfilled dp d r)\<lparr>rc_installmentCount := c\<rparr> = r\<lparr>rc_installmentCount := c\<rparr>"
  by (simp_all add: backfilled_def split: option.split)

lemma backfilled_kept: "rc_installmentCount r \<noteq> None \<Longrightarrow> backfilled dp d r = r"
  by (simp add: backfilled_def inferred_count_None)

lemma backfill_again:
  assumes "distinct_by rc_id (recurrings d)" "d' = snd (applyInstallmentCountBackfill dp d)"
  shows "applyInstallmentCountBackfill dp d' = (0, d')"
proof -
  have d': "d' = d\<lparr>recurrings := map (backfilled dp d) (recurrings d)\<rparr>"
    using backfill_counts[OF assms(1)] assms(2) by simp
  have row: "candidate_row d' r = candidate_row d r" for r
    by (simp add: candidate_row_def account_row_of_def d')
  have "inferred_count dp d' (backfilled dp d r) = None" for r
    using inferred_count_None[of "backfilled dp d r" dp d']
    by (cases "inferred_count dp d r") (simp_all add: backfilled_def inferred_count_def row)
  then have "List.map_filter (\<lambda>r. map_option (Pair (rc_id r)) (inferred_count dp d' r)) rs = []"
    if "set rs \<subseteq> set (recurrings d')" for rs
    using that by (induction rs) (auto simp: map_filter_simps d')
  then have "ir_inferred (classify dp (readCandidates d')) = []" by (simp add: inferred_eq)
  then show ?thesis by (simp add: applyInstallmentCountBackfill_def)
qed

end
