(* ===== verification/MaintenanceProperties.thy ===== *)
theory MaintenanceProperties
  imports Backfill JobProperties
begin

text \<open>
  The properties of the maintenance scripts, each with its witness.
\<close>

section \<open>Backfill of opening movements\<close>









text \<open>An empty argument is falsy and hides the unknown arguments after it.\<close>

lemma empty_argument_hides_unknown: "parseMode [[], ''--aply'', ''--apply''] = Inr Apply"
  by (simp add: parseMode_def falsy_def)

section \<open>Backfill of installment counts\<close>

definition rule_schedule :: "recurring \<Rightarrow> string \<Rightarrow> schedule" where
  "rule_schedule r tz = \<lparr>sc_startDate = rc_startDate r, sc_frequency = rc_frequency r,
     sc_interval = rc_interval r, sc_timezone = tz\<rparr>"

text \<open>
  C25: a card purchase stored without its number of installments gets back the number its
  end date was computed from, for every frequency, interval and number up to 365 and
  whatever the changes of offset of the zone. The script writes nothing but missing
  numbers, and a second run writes nothing.
\<close>

theorem installment_backfill_recovers:
  assumes "distinct_by rc_id (recurrings d)" "r \<in> set (recurrings d)" "account_row_of d (rc_accountId r) = Some a"
    and "row_type a = AccountType_value CREDIT_CARD" "rc_type r = EXPENSE" "rc_installmentCount r = None"
    and "rc_endDate r = Some (calculateInstallmentEndDate dp (rule_schedule r (row_timezone a)) n)"
    and "drifting_calendar dp (row_timezone a) dayof" "0 < rc_interval r" "1 \<le> n" "n \<le> MAX_INSTALLMENTS"
    and "in_range (dayof (rc_startDate r) - 1)" "in_range (dayof (rc_startDate r))"
    and "in_range (occurrence_day (dayof (rc_startDate r)) (rc_frequency r) (rc_interval r) (n - 1) + 1)"
    and "d' = snd (applyInstallmentCountBackfill dp d)"
  shows "recurring_of d' (rc_id r) = Some (r\<lparr>rc_installmentCount := Some n\<rparr>)
    \<and> (\<exists>rs. d' = d\<lparr>recurrings := rs\<rparr> \<and> map (\<lambda>q. q\<lparr>rc_installmentCount := None\<rparr>) rs
          = map (\<lambda>q. q\<lparr>rc_installmentCount := None\<rparr>) (recurrings d))
    \<and> (\<forall>q \<in> set (recurrings d). rc_installmentCount q \<noteq> None \<longrightarrow> recurring_of d' (rc_id q) = Some q)
    \<and> applyInstallmentCountBackfill dp d' = (0, d')"
proof -
  have d': "d' = d\<lparr>recurrings := map (backfilled dp d) (recurrings d)\<rparr>"
    using backfill_counts[OF assms(1)] assms(15) by simp
  have "distinct_by rc_id (recurrings d')" using assms(1) by (simp add: d' distinct_by_def comp_def)
  then have find: "recurring_of d' (rc_id q) = Some (backfilled dp d q)" if "q \<in> set (recurrings d)" for q
    using find_row_key_Some_iff[of rc_id "recurrings d'" "rc_id q" "backfilled dp d q"] that
    by (simp add: recurring_of_def d')
  have "inferInstallmentCount dp (rule_schedule r (row_timezone a))
      (calculateInstallmentEndDate dp (rule_schedule r (row_timezone a)) n) = Some n"
    by (rule drifting_calendar.infer_inverts[OF assms(8)]) (use assms in \<open>simp_all add: rule_schedule_def\<close>)
  then have "backfilled dp d r = r\<lparr>rc_installmentCount := Some n\<rparr>"
    using assms(3-7) by (simp add: backfilled_def inferred_count_def candidate_row_def inferCandidate_def
        rule_schedule_def)
  then have "recurring_of d' (rc_id r) = Some (r\<lparr>rc_installmentCount := Some n\<rparr>)" using find assms(2) by simp
  moreover have "\<exists>rs. d' = d\<lparr>recurrings := rs\<rparr> \<and> map (\<lambda>q. q\<lparr>rc_installmentCount := None\<rparr>) rs
          = map (\<lambda>q. q\<lparr>rc_installmentCount := None\<rparr>) (recurrings d)"
    by (rule exI[of _ "map (backfilled dp d) (recurrings d)"]) (simp add: d' comp_def)
  moreover have "\<forall>q \<in> set (recurrings d). rc_installmentCount q \<noteq> None \<longrightarrow> recurring_of d' (rc_id q) = Some q"
    using find backfilled_kept by simp
  ultimately show ?thesis using backfill_again[OF assms(1,15)] by blast
qed

text \<open>A purchase in twelve installments from January 31st, and a rule that already has its number.\<close>

definition demo_plan :: recurring where
  "demo_plan = \<lparr>rc_id = ''p'', rc_workspaceId = ''w'', rc_accountId = ''c'',
     rc_destinationAccountId = None, rc_categoryId = ''k'', rc_title = ''Notebook'', rc_description = None,
     rc_amount = 300, rc_frequency = MONTHLY, rc_interval = 1, rc_installmentCount = None,
     rc_startDate = 1706659200000,
     rc_endDate = Some (calculateInstallmentEndDate demo_provider demo_schedule 12),
     rc_lastGenerated = None, rc_active = True, rc_type = EXPENSE\<rparr>"

definition demo_plans :: db where
  "demo_plans = \<lparr>accounts = [(account_toDatabase demo_card)\<lparr>row_timezone := RECURRING_GENERATION_TIMEZONE\<rparr>],
     transactions = [], recurrings = [demo_plan, demo_plan\<lparr>rc_id := ''q'', rc_installmentCount := Some 3\<rparr>],
     movements = []\<rparr>"

theorem installment_backfill_recovers_witness:
  "recurring_of (snd (applyInstallmentCountBackfill demo_provider demo_plans)) ''p''
      = Some (demo_plan\<lparr>rc_installmentCount := Some 12\<rparr>)
   \<and> recurring_of (snd (applyInstallmentCountBackfill demo_provider demo_plans)) ''q''
      = Some (demo_plan\<lparr>rc_id := ''q'', rc_installmentCount := Some 3\<rparr>)"
proof -
  let ?card = "(account_toDatabase demo_card)\<lparr>row_timezone := RECURRING_GENERATION_TIMEZONE\<rparr>"
  have cal: "drifting_calendar demo_provider (row_timezone ?card) (zone_day 0)"
    unfolding demo_provider_def using fixed.drifting_calendar_axioms[of "\<lambda>_. 0"] by simp
  have s: "rule_schedule demo_plan RECURRING_GENERATION_TIMEZONE = demo_schedule"
    by (simp add: rule_schedule_def demo_plan_def demo_schedule_def)
  have plan: "rc_id demo_plan = ''p''" "rc_accountId demo_plan = ''c''" "rc_type demo_plan = EXPENSE"
    "rc_installmentCount demo_plan = None" "rc_interval demo_plan = 1" "rc_frequency demo_plan = MONTHLY"
    "rc_startDate demo_plan = 1706659200000"
    "rc_endDate demo_plan = Some (calculateInstallmentEndDate demo_provider demo_schedule 12)"
    by (simp_all add: demo_plan_def)
  have tables: "distinct_by rc_id (recurrings demo_plans)" "demo_plan \<in> set (recurrings demo_plans)"
    "account_row_of demo_plans (rc_accountId demo_plan) = Some ?card"
    "row_type ?card = AccountType_value CREDIT_CARD"
    by (simp_all add: demo_plans_def distinct_by_def plan account_row_of_def find_row_def demo_card_def
        account_toDatabase_def account_op_defs)
  from installment_backfill_recovers[OF tables plan(3,4) _ cal _ _ _ _ _ _ refl, of 12] demo_schedule_days
  show ?thesis
    by (simp add: s plan MAX_INSTALLMENTS_def) (simp add: demo_plans_def plan)
qed

end
