(* ===== verification/Idempotency.thy ===== *)
theory Idempotency
  imports System Redis
begin

text \<open>
  Idempotent requests: IdempotencyGuard, IdempotencyReleaseInterceptor and the decorator
  that puts both on four endpoints (src/src/providers/auth), around the services; then the
  requests, repeated by impatient clients, as concurrent processes over one Redis and one
  database.
\<close>

section \<open>The guard and the interceptor\<close>

text \<open>
  What a request carries: the header \<open>idempotency-key\<close>, the \<open>sub\<close> of its token, the
  random token of its lock and the service it calls.
\<close>

record http_request =
  hr_header :: "string option"
  hr_user :: "string option"
  hr_token :: string
  hr_call :: service_call

text \<open>The handlers decorated with \<open>@Idempotent()\<close>, all with the default options.\<close>

record idempotency_options =
  io_ttlSeconds :: "int option"

fun idempotency_metadata :: "service_call \<Rightarrow> idempotency_options option" where
  "idempotency_metadata (CreateTransaction _ _) = Some \<lparr>io_ttlSeconds = None\<rparr>"
| "idempotency_metadata (CreateRecurring _ _) = Some \<lparr>io_ttlSeconds = None\<rparr>"
| "idempotency_metadata (CreateInstallmentPurchase _ _ _) = Some \<lparr>io_ttlSeconds = None\<rparr>"
| "idempotency_metadata (PayCreditCardInvoice _ _) = Some \<lparr>io_ttlSeconds = None\<rparr>"
| "idempotency_metadata _ = None"

definition idempotencyLockKey :: "http_request \<Rightarrow> string option" where
  "idempotencyLockKey req =
     (if falsy (hr_header req) \<or> falsy (hr_user req) then None
      else Some (''idempotency:'' @ the (hr_user req) @ '':'' @ the (hr_header req)))"

definition IDEMPOTENCY_TTL_SECONDS :: int where "IDEMPOTENCY_TTL_SECONDS = 30"

definition guard_acquireLock :: "'s redis_server \<Rightarrow> string \<Rightarrow> string \<Rightarrow> int \<Rightarrow> 's redis
    \<Rightarrow> lock_handle option either \<times> 's redis" where
  "guard_acquireLock sv token key ttl r = (case acquireLock sv token key ttl r of
      Inl _ \<Rightarrow> (Inl (Thrown (HttpException 503)), r)
    | Inr (r', lock) \<Rightarrow> (Inr lock, r'))"

text \<open>The lock the guard stores in the request when it lets it pass.\<close>

definition idempotency_canActivate :: "'s redis_server \<Rightarrow> http_request \<Rightarrow> 's redis
    \<Rightarrow> lock_handle option either \<times> 's redis" where
  "idempotency_canActivate sv req r = (case idempotency_metadata (hr_call req) of
      None \<Rightarrow> (Inr None, r)
    | Some options \<Rightarrow> (case idempotencyLockKey req of
        None \<Rightarrow> (Inl (Thrown (HttpException 400)), r)
      | Some key \<Rightarrow>
          if \<not> rd_isEnabled r then (Inr None, r)
          else (case guard_acquireLock sv (hr_token req) key
                  (case io_ttlSeconds options of None \<Rightarrow> IDEMPOTENCY_TTL_SECONDS | Some t \<Rightarrow> t) r of
              (Inl e, r') \<Rightarrow> (Inl e, r')
            | (Inr None, r') \<Rightarrow> (Inl (Thrown (HttpException 409)), r')
            | (Inr (Some lock), r') \<Rightarrow> (Inr (Some lock), r'))))"

definition idempotency_release :: "'s redis_server \<Rightarrow> lock_handle option \<Rightarrow> 's redis \<Rightarrow> 's redis" where
  "idempotency_release sv lock r = (case lock of None \<Rightarrow> r | Some l \<Rightarrow> fst (releaseLock sv l r))"

text \<open>The controller: a service error becomes the HTTP exception of ErrorPresenter.\<close>

definition handle_request :: "date_provider \<Rightarrow> int \<Rightarrow> http_request \<Rightarrow> world \<Rightarrow> world either" where
  "handle_request dp now req w = (case perform dp now (hr_call req) w of
      Inl e \<Rightarrow> Inl (Thrown (HttpException (toHTTP e))) | Inr w' \<Rightarrow> Inr w')"

text \<open>One request from guard to answer, with nothing in between.\<close>

definition serve_request :: "'s redis_server \<Rightarrow> date_provider \<Rightarrow> int \<Rightarrow> http_request \<Rightarrow> world \<times> 's redis
    \<Rightarrow> unit either \<times> world \<times> 's redis" where
  "serve_request sv dp now req wr = (case wr of (w, r) \<Rightarrow>
     (case idempotency_canActivate sv req r of
        (Inl e, r') \<Rightarrow> (Inl e, w, r')
      | (Inr lock, r') \<Rightarrow> (case handle_request dp now req w of
            Inl e \<Rightarrow> (Inl e, w, idempotency_release sv lock r')
          | Inr w' \<Rightarrow> (Inr (), w', r'))))"

section \<open>Concurrent requests\<close>

text \<open>
  A request is admitted by the guard or refused; an admitted one calls its service,
  which succeeds, or fails and then gives the lock back. In between other requests do
  the same, other parts of the program write the tables and other keys, Redis comes and
  goes, and a lock expires, but not one whose request is still running: a handler takes
  less than the 30 seconds of the lock. The log, latest event first, is a ghost.
\<close>

datatype idem_phase = Arrived | Admitted "lock_handle option" | Failing app_error "lock_handle option"
  | Succeeded | Refused app_error

datatype idem_event = Performed string nat | Lapsed string

record 's idem_run =
  im_redis :: "'s redis"
  im_world :: world
  im_phase :: "nat \<Rightarrow> idem_phase"
  im_log :: "idem_event list"

definition in_progress :: "idem_phase \<Rightarrow> bool" where
  "in_progress p = (case p of Admitted _ \<Rightarrow> True | Failing _ _ \<Rightarrow> True | _ \<Rightarrow> False)"

definition performed_event :: "http_request \<Rightarrow> nat \<Rightarrow> idem_event list" where
  "performed_event req i = (case idempotencyLockKey req of None \<Rightarrow> [] | Some k \<Rightarrow> [Performed k i])"

inductive idem_step :: "'s redis_server \<Rightarrow> (nat \<Rightarrow> http_request) \<Rightarrow> 's idem_run \<Rightarrow> 's idem_run \<Rightarrow> bool"
  for sv reqs where
  admit: "im_phase s i = Arrived \<Longrightarrow> idempotency_canActivate sv (reqs i) (im_redis s) = (Inr lock, r) \<Longrightarrow>
    idem_step sv reqs s (s\<lparr>im_redis := r, im_phase := (im_phase s)(i := Admitted lock)\<rparr>)"
| refuse: "im_phase s i = Arrived \<Longrightarrow> idempotency_canActivate sv (reqs i) (im_redis s) = (Inl e, r) \<Longrightarrow>
    idem_step sv reqs s (s\<lparr>im_redis := r, im_phase := (im_phase s)(i := Refused e)\<rparr>)"
| succeed: "im_phase s i = Admitted lock \<Longrightarrow> handle_request dp now (reqs i) (im_world s) = Inr w \<Longrightarrow>
    idem_step sv reqs s (s\<lparr>im_world := w, im_phase := (im_phase s)(i := Succeeded),
      im_log := performed_event (reqs i) i @ im_log s\<rparr>)"
| fail: "im_phase s i = Admitted lock \<Longrightarrow> handle_request dp now (reqs i) (im_world s) = Inl e \<Longrightarrow>
    idem_step sv reqs s (s\<lparr>im_phase := (im_phase s)(i := Failing e lock)\<rparr>)"
| give_back: "im_phase s i = Failing e lock \<Longrightarrow>
    idem_step sv reqs s (s\<lparr>im_redis := idempotency_release sv lock (im_redis s),
      im_phase := (im_phase s)(i := Refused e)\<rparr>)"
| lapse: "(\<And>i. in_progress (im_phase s i) \<Longrightarrow> idempotencyLockKey (reqs i) \<noteq> Some k) \<Longrightarrow>
    idem_step sv reqs s (s\<lparr>im_redis := (im_redis s)\<lparr>rd_store := sv_del sv (rd_store (im_redis s)) k\<rparr>,
      im_log := Lapsed k # im_log s\<rparr>)"
| connection: "idem_step sv reqs s (s\<lparr>im_redis := (im_redis s)\<lparr>rd_client := a, rd_answers := b\<rparr>\<rparr>)"
| elsewhere: "(\<And>k. take 12 k = ''idempotency:'' \<Longrightarrow> sv_get sv st k = sv_get sv (rd_store (im_redis s)) k) \<Longrightarrow>
    idem_step sv reqs s (s\<lparr>im_redis := (im_redis s)\<lparr>rd_store := st\<rparr>, im_world := w\<rparr>)"

definition idem_start :: "'s idem_run \<Rightarrow> bool" where
  "idem_start s = (rd_isEnabled (im_redis s) \<and> (\<forall>i. im_phase s i = Arrived) \<and> im_log s = [])"

section \<open>One lock per key\<close>

lemma idempotency_key_prefix: "idempotencyLockKey req = Some k \<Longrightarrow> take 12 k = ''idempotency:''"
  by (auto simp: idempotencyLockKey_def split: if_splits)

text \<open>Users whose identifiers have no colon never share a key.\<close>

lemma append_sep_eq: "c \<notin> set a \<Longrightarrow> c \<notin> set b \<Longrightarrow> a @ c # x = b @ c # y \<longleftrightarrow> a = b \<and> x = y"
proof (induction a arbitrary: b)
  case Nil then show ?case by (cases b) auto
next
  case (Cons d a) then show ?case by (cases b) auto
qed

lemma idempotency_key_own:
  assumes "idempotencyLockKey a = Some k" "idempotencyLockKey b = Some k"
    and "CHR '':'' \<notin> set (the (hr_user a))" "CHR '':'' \<notin> set (the (hr_user b))"
  shows "hr_user a = hr_user b" "hr_header a = hr_header b"
  using assms append_sep_eq[OF assms(4,3)]
  by (auto simp: idempotencyLockKey_def falsy_def split: if_splits option.splits)

fun performed_live :: "idem_event list \<Rightarrow> string \<Rightarrow> bool" where
  "performed_live [] k = False"
| "performed_live (Performed j i # es) k = (j = k \<or> performed_live es k)"
| "performed_live (Lapsed j # es) k = (j \<noteq> k \<and> performed_live es k)"

fun once :: "idem_event list \<Rightarrow> bool" where
  "once [] = True"
| "once (Performed k i # es) = (\<not> performed_live es k \<and> once es)"
| "once (Lapsed k # es) = once es"

lemma live_split: "Performed k i \<in> set es \<Longrightarrow> \<not> performed_live es k \<Longrightarrow>
    \<exists>ys zs. es = ys @ Performed k i # zs \<and> Lapsed k \<in> set ys"
proof (induction es rule: once.induct)
  case (2 j n es)
  then show ?case by (metis append_Cons list.set_intros(2) performed_live.simps(2) set_ConsD idem_event.inject(1))
next
  case (3 j es)
  show ?case
  proof (cases "j = k")
    case True
    obtain ys zs where "es = ys @ Performed k i # zs" using 3(2) split_list[of "Performed k i" es] by auto
    with True have "Lapsed j # es = (Lapsed j # ys) @ Performed k i # zs \<and> Lapsed k \<in> set (Lapsed j # ys)" by simp
    then show ?thesis by blast
  next
    case False
    with 3 obtain ys zs where "es = ys @ Performed k i # zs" "Lapsed k \<in> set ys" by auto
    then have "Lapsed j # es = (Lapsed j # ys) @ Performed k i # zs \<and> Lapsed k \<in> set (Lapsed j # ys)" by simp
    then show ?thesis by blast
  qed
qed simp

lemma once_between:
  assumes "once es" "Performed k i \<in> set es" "Performed k j \<in> set es" "i \<noteq> j"
  shows "\<exists>a b xs ys zs. {a, b} = {i, j} \<and> es = xs @ Performed k a # ys @ Performed k b # zs \<and> Lapsed k \<in> set ys"
  using assms
proof (induction es rule: once.induct)
  case (2 m n es)
  have first: "\<exists>a b xs ys zs. {a, b} = {i, j} \<and> Performed m n # es = xs @ Performed k a # ys @ Performed k b # zs \<and> Lapsed k \<in> set ys"
    if "m = k" "n = a" "{a, b} = {i, j}" "Performed k b \<in> set es" for a b
  proof -
    from live_split[OF that(4)] 2(2) that(1) obtain ys zs where "es = ys @ Performed k b # zs" "Lapsed k \<in> set ys" by auto
    with that have "Performed m n # es = [] @ Performed k a # ys @ Performed k b # zs" by simp
    with that(3) \<open>Lapsed k \<in> set ys\<close> show ?thesis by blast
  qed
  show ?case
  proof (cases "Performed k i \<in> set es \<and> Performed k j \<in> set es")
    case True
    with 2 obtain a b xs ys zs where "{a, b} = {i, j}" "es = xs @ Performed k a # ys @ Performed k b # zs" "Lapsed k \<in> set ys" by auto
    then have "{a, b} = {i, j} \<and> Performed m n # es = (Performed m n # xs) @ Performed k a # ys @ Performed k b # zs \<and> Lapsed k \<in> set ys" by simp
    then show ?thesis by blast
  next
    case False
    with 2(3,4,5) show ?thesis using first[of i j] first[of j i] by auto
  qed
next
  case (3 m es)
  then obtain a b xs ys zs where "{a, b} = {i, j}" "es = xs @ Performed k a # ys @ Performed k b # zs" "Lapsed k \<in> set ys" by auto
  then have "{a, b} = {i, j} \<and> Lapsed m # es = (Lapsed m # xs) @ Performed k a # ys @ Performed k b # zs \<and> Lapsed k \<in> set ys" by simp
  then show ?case by blast
qed simp

section \<open>The invariant\<close>

text \<open>
  Every request in progress holds the lock of its key with a token of its own, and the
  lock of a request that has been performed stays until it lapses.
\<close>

definition protected_request :: "http_request \<Rightarrow> bool" where
  "protected_request req = (idempotency_metadata (hr_call req) \<noteq> None)"

definition lock_of :: "http_request \<Rightarrow> lock_handle option" where
  "lock_of req = map_option (\<lambda>k. \<lparr>lk_key = k, lk_token = hr_token req\<rparr>) (idempotencyLockKey req)"

definition holds_lock :: "'s redis_server \<Rightarrow> http_request \<Rightarrow> 's redis \<Rightarrow> bool" where
  "holds_lock sv req r = (\<exists>k. idempotencyLockKey req = Some k \<and> sv_get sv (rd_store r) k = Some (hr_token req))"

definition phase_ok :: "'s redis_server \<Rightarrow> http_request \<Rightarrow> 's redis \<Rightarrow> idem_phase \<Rightarrow> bool" where
  "phase_ok sv req r p = (case p of
      Admitted lock \<Rightarrow> lock = lock_of req \<and> holds_lock sv req r
    | Failing e lock \<Rightarrow> lock = lock_of req \<and> holds_lock sv req r
    | _ \<Rightarrow> True)"

definition idem_inv :: "'s redis_server \<Rightarrow> (nat \<Rightarrow> http_request) \<Rightarrow> 's idem_run \<Rightarrow> bool" where
  "idem_inv sv reqs s = (rd_isEnabled (im_redis s) \<and> once (im_log s)
     \<and> (\<forall>i. phase_ok sv (reqs i) (im_redis s) (im_phase s i))
     \<and> (\<forall>i. im_phase s i = Succeeded \<longrightarrow> (\<exists>k. idempotencyLockKey (reqs i) = Some k \<and> Performed k i \<in> set (im_log s)))
     \<and> (\<forall>k. performed_live (im_log s) k \<longrightarrow> (\<exists>i. im_phase s i = Succeeded
           \<and> idempotencyLockKey (reqs i) = Some k \<and> sv_get sv (rd_store (im_redis s)) k = Some (hr_token (reqs i)))))"

lemma idem_invD:
  assumes "idem_inv sv reqs s"
  shows "rd_isEnabled (im_redis s)" "once (im_log s)" "phase_ok sv (reqs i) (im_redis s) (im_phase s i)"
    "im_phase s i = Succeeded \<Longrightarrow> \<exists>k. idempotencyLockKey (reqs i) = Some k \<and> Performed k i \<in> set (im_log s)"
    "performed_live (im_log s) k \<Longrightarrow> \<exists>i. im_phase s i = Succeeded
       \<and> idempotencyLockKey (reqs i) = Some k \<and> sv_get sv (rd_store (im_redis s)) k = Some (hr_token (reqs i))"
  using assms by (simp_all add: idem_inv_def)

lemma holds_lock_cong: "(\<And>k. idempotencyLockKey req = Some k \<Longrightarrow>
    sv_get sv (rd_store r') k = sv_get sv (rd_store r) k) \<Longrightarrow> holds_lock sv req r' = holds_lock sv req r"
  by (auto simp: holds_lock_def)

lemma phase_ok_cong: "(\<And>k. in_progress p \<Longrightarrow> idempotencyLockKey req = Some k \<Longrightarrow>
    sv_get sv (rd_store r') k = sv_get sv (rd_store r) k) \<Longrightarrow> phase_ok sv req r' p = phase_ok sv req r p"
  by (cases p) (simp_all add: phase_ok_def in_progress_def cong: holds_lock_cong)

context redis_laws
begin

lemma guard_admits:
  assumes "idempotency_canActivate sv req r = (Inr lock, r')" "protected_request req" "rd_isEnabled r"
  obtains k where "idempotencyLockKey req = Some k" "lock = lock_of req" "rd_isEnabled r'"
    "sv_get sv (rd_store r) k = None" "sv_get sv (rd_store r') k = Some (hr_token req)"
    "\<And>j. j \<noteq> k \<Longrightarrow> sv_get sv (rd_store r') j = sv_get sv (rd_store r) j"
proof -
  from assms obtain k ttl l where k: "idempotencyLockKey req = Some k"
    and l: "acquireLock sv (hr_token req) k ttl r = Inr (r', Some l)" "lock = Some l"
    by (auto simp: idempotency_canActivate_def protected_request_def guard_acquireLock_def
        split: option.splits sum.splits prod.splits if_splits)
  note h = acquire_held[OF l(1) assms(3)]
  have "rd_isEnabled r'" "sv_get sv (rd_store r') k = Some (hr_token req)"
    using h(1,2) by (simp_all add: held_def)
  moreover have "sv_get sv (rd_store r') j = sv_get sv (rd_store r) j" if "j \<noteq> k" for j
    using l(1) assms(3) set_nx_other[OF that, of "rd_store r" "hr_token req" "Some ttl"]
    by (auto simp: acquireLock_def Let_def split: if_splits prod.splits)
  ultimately show thesis using that[of k] k l(2) h by (simp add: lock_of_def)
qed

lemma guard_refuses:
  assumes "idempotency_canActivate sv req r = (Inl e, r')"
  shows "r' = r"
proof -
  have "rd_store r'' = rd_store r \<and> r'' = r\<lparr>rd_store := rd_store r\<rparr>"
    if "acquireLock sv token k ttl r = Inr (r'', None)" for token k ttl r''
  proof -
    from that obtain s where s: "sv_set_nx sv (rd_store r) k token (Some ttl) = (s, False)" "r'' = r\<lparr>rd_store := s\<rparr>"
      by (auto simp: acquireLock_def Let_def split: if_splits prod.splits)
    then obtain w where "sv_get sv (rd_store r) k = Some w"
      using set_nx_free[of "rd_store r" k token "Some ttl"] by (cases "sv_get sv (rd_store r) k") auto
    from set_nx_taken[OF this, of token "Some ttl"] s show ?thesis by simp
  qed
  then show ?thesis using assms
    by (auto simp: idempotency_canActivate_def guard_acquireLock_def
        split: option.splits sum.splits prod.splits if_splits)
qed

lemma release_effect:
  assumes "lock = Some \<lparr>lk_key = k, lk_token = token\<rparr>"
  shows "rd_isEnabled (idempotency_release sv lock r) = rd_isEnabled r"
    "j \<noteq> k \<Longrightarrow> sv_get sv (rd_store (idempotency_release sv lock r)) j = sv_get sv (rd_store r) j"
    "sv_get sv (rd_store r) k \<noteq> Some token \<Longrightarrow> idempotency_release sv lock r = r"
    "reaches r \<Longrightarrow> sv_get sv (rd_store r) k = Some token \<Longrightarrow>
      sv_get sv (rd_store (idempotency_release sv lock r)) k = None"
  by (auto simp: assms idempotency_release_def releaseLock_def RELEASE_LOCK_SCRIPT_def del_get)

lemma idem_invI:
  assumes "rd_isEnabled (im_redis s)" "once (im_log s)" "\<And>i. phase_ok sv (reqs i) (im_redis s) (im_phase s i)"
    and "\<And>i. im_phase s i = Succeeded \<Longrightarrow> \<exists>k. idempotencyLockKey (reqs i) = Some k \<and> Performed k i \<in> set (im_log s)"
    and "\<And>k. performed_live (im_log s) k \<Longrightarrow> \<exists>i. im_phase s i = Succeeded
       \<and> idempotencyLockKey (reqs i) = Some k \<and> sv_get sv (rd_store (im_redis s)) k = Some (hr_token (reqs i))"
  shows "idem_inv sv reqs s"
  using assms by (simp add: idem_inv_def)

lemma admit_inv:
  assumes inv: "idem_inv sv reqs s" and i: "im_phase s i = Arrived" "protected_request (reqs i)"
    and g: "idempotency_canActivate sv (reqs i) (im_redis s) = (Inr lock, r)"
  shows "idem_inv sv reqs (s\<lparr>im_redis := r, im_phase := (im_phase s)(i := Admitted lock)\<rparr>)" (is "idem_inv sv reqs ?s")
proof -
  note D = idem_invD[OF inv]
  obtain k where k: "idempotencyLockKey (reqs i) = Some k" "lock = lock_of (reqs i)" "rd_isEnabled r"
    "sv_get sv (rd_store (im_redis s)) k = None" "sv_get sv (rd_store r) k = Some (hr_token (reqs i))"
    "\<And>j. j \<noteq> k \<Longrightarrow> sv_get sv (rd_store r) j = sv_get sv (rd_store (im_redis s)) j"
    using guard_admits[OF g i(2) D(1)] by blast
  show ?thesis
  proof (rule idem_invI)
    show "phase_ok sv (reqs j) (im_redis ?s) (im_phase ?s j)" for j
    proof (cases "j = i")
      case True then show ?thesis using k by (simp add: phase_ok_def holds_lock_def)
    next
      case False
      have "idempotencyLockKey (reqs j) \<noteq> Some k" if "in_progress (im_phase s j)"
        using D(3)[of j] that k(4) by (auto simp: phase_ok_def in_progress_def holds_lock_def split: idem_phase.splits)
      then have "phase_ok sv (reqs j) r (im_phase s j) = phase_ok sv (reqs j) (im_redis s) (im_phase s j)"
        by (intro phase_ok_cong k(6)) auto
      with D(3)[of j] False show ?thesis by simp
    qed
    show "\<exists>k'. idempotencyLockKey (reqs j) = Some k' \<and> Performed k' j \<in> set (im_log ?s)"
      if "im_phase ?s j = Succeeded" for j
      using D(4)[of j] that by (auto split: if_splits)
    show "\<exists>j. im_phase ?s j = Succeeded \<and> idempotencyLockKey (reqs j) = Some l
        \<and> sv_get sv (rd_store (im_redis ?s)) l = Some (hr_token (reqs j))" if "performed_live (im_log ?s) l" for l
    proof -
      from that D(5)[of l] obtain j where j: "im_phase s j = Succeeded" "idempotencyLockKey (reqs j) = Some l"
        "sv_get sv (rd_store (im_redis s)) l = Some (hr_token (reqs j))" by auto
      with k(4) i(1) have "l \<noteq> k" "j \<noteq> i" by auto
      with j k(6)[of l] show ?thesis by auto
    qed
  qed (use D(2) k(3) in simp_all)
qed

lemma succeed_inv:
  assumes inv: "idem_inv sv reqs s" and i: "im_phase s i = Admitted lock" and inj: "inj (\<lambda>i. hr_token (reqs i))"
  shows "idem_inv sv reqs (s\<lparr>im_world := w, im_phase := (im_phase s)(i := Succeeded),
      im_log := performed_event (reqs i) i @ im_log s\<rparr>)" (is "idem_inv sv reqs ?s")
proof -
  note D = idem_invD[OF inv]
  from D(3)[of i] i obtain k where k: "idempotencyLockKey (reqs i) = Some k"
    "sv_get sv (rd_store (im_redis s)) k = Some (hr_token (reqs i))"
    by (auto simp: phase_ok_def holds_lock_def)
  have fresh: "\<not> performed_live (im_log s) k"
  proof
    assume "performed_live (im_log s) k"
    from D(5)[OF this] obtain j where j: "im_phase s j = Succeeded"
      "sv_get sv (rd_store (im_redis s)) k = Some (hr_token (reqs j))" by auto
    with k(2) have "j = i" using injD[OF inj, of j i] by simp
    with j(1) i show False by simp
  qed
  have log: "im_log ?s = Performed k i # im_log s" by (simp add: performed_event_def k(1))
  show ?thesis
  proof (rule idem_invI)
    show "phase_ok sv (reqs j) (im_redis ?s) (im_phase ?s j)" for j
      using D(3)[of j] by (simp add: phase_ok_def)
    show "\<exists>k'. idempotencyLockKey (reqs j) = Some k' \<and> Performed k' j \<in> set (im_log ?s)"
      if "im_phase ?s j = Succeeded" for j
      unfolding log using D(4)[of j] that k(1) by (auto split: if_splits)
    show "\<exists>j. im_phase ?s j = Succeeded \<and> idempotencyLockKey (reqs j) = Some l
        \<and> sv_get sv (rd_store (im_redis ?s)) l = Some (hr_token (reqs j))" if "performed_live (im_log ?s) l" for l
    proof (cases "l = k")
      case True then show ?thesis using k by (intro exI[of _ i]) simp
    next
      case False
      with that have "performed_live (im_log s) l" unfolding log by simp
      from D(5)[OF this] i show ?thesis by auto
    qed
    show "once (im_log ?s)" using D(2) fresh unfolding log by simp
  qed (use D(1) in simp)
qed

lemma give_back_inv:
  assumes inv: "idem_inv sv reqs s" and i: "im_phase s i = Failing e lock" and inj: "inj (\<lambda>i. hr_token (reqs i))"
  shows "idem_inv sv reqs (s\<lparr>im_redis := idempotency_release sv lock (im_redis s),
      im_phase := (im_phase s)(i := Refused e)\<rparr>)" (is "idem_inv sv reqs ?s")
proof -
  note D = idem_invD[OF inv]
  from D(3)[of i] i obtain k where k: "idempotencyLockKey (reqs i) = Some k"
    "lock = Some \<lparr>lk_key = k, lk_token = hr_token (reqs i)\<rparr>"
    "sv_get sv (rd_store (im_redis s)) k = Some (hr_token (reqs i))"
    by (auto simp: phase_ok_def holds_lock_def lock_of_def)
  note rel = release_effect[OF k(2)]
  have mine: "j = i" if "sv_get sv (rd_store (im_redis s)) k = Some (hr_token (reqs j))" for j
    using that k(3) injD[OF inj, of j i] by simp
  show ?thesis
  proof (rule idem_invI)
    show "phase_ok sv (reqs j) (im_redis ?s) (im_phase ?s j)" for j
    proof (cases "j = i")
      case True then show ?thesis by (simp add: phase_ok_def)
    next
      case False
      have "idempotencyLockKey (reqs j) \<noteq> Some k" if "in_progress (im_phase s j)"
        using D(3)[of j] that mine[of j] False
        by (auto simp: phase_ok_def in_progress_def holds_lock_def split: idem_phase.splits)
      then have "phase_ok sv (reqs j) (idempotency_release sv lock (im_redis s)) (im_phase s j)
          = phase_ok sv (reqs j) (im_redis s) (im_phase s j)"
        by (intro phase_ok_cong rel(2)) auto
      with D(3)[of j] False show ?thesis by simp
    qed
    show "\<exists>k'. idempotencyLockKey (reqs j) = Some k' \<and> Performed k' j \<in> set (im_log ?s)"
      if "im_phase ?s j = Succeeded" for j
      using D(4)[of j] that by (auto split: if_splits)
    show "\<exists>j. im_phase ?s j = Succeeded \<and> idempotencyLockKey (reqs j) = Some l
        \<and> sv_get sv (rd_store (im_redis ?s)) l = Some (hr_token (reqs j))" if "performed_live (im_log ?s) l" for l
    proof -
      from that D(5)[of l] obtain j where j: "im_phase s j = Succeeded" "idempotencyLockKey (reqs j) = Some l"
        "sv_get sv (rd_store (im_redis s)) l = Some (hr_token (reqs j))" by auto
      with i have ji: "j \<noteq> i" by auto
      with j(3) mine have "l \<noteq> k" by blast
      with j ji rel(2)[of l] show ?thesis by auto
    qed
  qed (use D(1,2) rel(1) in simp_all)
qed

lemma store_change_inv:
  assumes inv: "idem_inv sv reqs s"
    and st: "\<And>i k. in_progress (im_phase s i) \<Longrightarrow> idempotencyLockKey (reqs i) = Some k \<Longrightarrow>
        sv_get sv st k = sv_get sv (rd_store (im_redis s)) k"
    and live: "\<And>i k. performed_live es k \<Longrightarrow> performed_live (im_log s) k
        \<and> (idempotencyLockKey (reqs i) = Some k \<longrightarrow> sv_get sv st k = sv_get sv (rd_store (im_redis s)) k)"
    and "once es" "set (im_log s) \<subseteq> set es"
  shows "idem_inv sv reqs (s\<lparr>im_redis := (im_redis s)\<lparr>rd_store := st, rd_client := a, rd_answers := b\<rparr>,
      im_world := w, im_log := es\<rparr>)" (is "idem_inv sv reqs ?s")
proof -
  note D = idem_invD[OF inv]
  show ?thesis
  proof (rule idem_invI)
    show "phase_ok sv (reqs j) (im_redis ?s) (im_phase ?s j)" for j
      using D(3)[of j] phase_ok_cong[of "im_phase s j" "reqs j" sv "im_redis ?s" "im_redis s"] st[of j] by simp
    show "\<exists>k'. idempotencyLockKey (reqs j) = Some k' \<and> Performed k' j \<in> set (im_log ?s)"
      if "im_phase ?s j = Succeeded" for j
      using D(4)[of j] that assms(5) by auto
    show "\<exists>j. im_phase ?s j = Succeeded \<and> idempotencyLockKey (reqs j) = Some l
        \<and> sv_get sv (rd_store (im_redis ?s)) l = Some (hr_token (reqs j))" if "performed_live (im_log ?s) l" for l
      using that live[of l] D(5)[of l] by fastforce
  qed (use D(1) assms(4) in simp_all)
qed

lemma phase_change_inv:
  assumes inv: "idem_inv sv reqs s" and p: "im_phase s i \<noteq> Succeeded" "p \<noteq> Succeeded"
    and ok: "phase_ok sv (reqs i) (im_redis s) p"
  shows "idem_inv sv reqs (s\<lparr>im_phase := (im_phase s)(i := p)\<rparr>)" (is "idem_inv sv reqs ?s")
proof -
  note D = idem_invD[OF inv]
  show ?thesis
  proof (rule idem_invI)
    show "phase_ok sv (reqs j) (im_redis ?s) (im_phase ?s j)" for j
      using D(3)[of j] ok by simp
    show "\<exists>k'. idempotencyLockKey (reqs j) = Some k' \<and> Performed k' j \<in> set (im_log ?s)"
      if "im_phase ?s j = Succeeded" for j
      using D(4)[of j] that p(2) by (auto split: if_splits)
    show "\<exists>j. im_phase ?s j = Succeeded \<and> idempotencyLockKey (reqs j) = Some l
        \<and> sv_get sv (rd_store (im_redis ?s)) l = Some (hr_token (reqs j))" if live: "performed_live (im_log ?s) l" for l
    proof -
      from live D(5)[of l] obtain j where "im_phase s j = Succeeded" "idempotencyLockKey (reqs j) = Some l"
        "sv_get sv (rd_store (im_redis s)) l = Some (hr_token (reqs j))" by auto
      with p(1) show ?thesis by (intro exI[of _ j]) auto
    qed
  qed (use D(1,2) in simp_all)
qed

lemma idem_step_inv:
  assumes "idem_step sv reqs s s'" and inj: "inj (\<lambda>i. hr_token (reqs i))"
    and prot: "\<And>i. protected_request (reqs i)" and inv: "idem_inv sv reqs s"
  shows "idem_inv sv reqs s'"
  using assms(1)
proof cases
  case (admit i lock r)
  then show ?thesis using admit_inv[OF inv _ prot] by blast
next
  case (refuse i e r)
  from refuse guard_refuses have "s' = s\<lparr>im_phase := (im_phase s)(i := Refused e)\<rparr>" by simp
  with phase_change_inv[OF inv, of i "Refused e"] refuse(2) show ?thesis by (simp add: phase_ok_def)
next
  case (succeed i lock dp now w)
  then show ?thesis using succeed_inv[OF inv _ inj] by blast
next
  case (fail i lock dp now e)
  with phase_change_inv[OF inv, of i "Failing e lock"] idem_invD(3)[OF inv, of i] show ?thesis
    by (simp add: phase_ok_def)
next
  case (give_back i e lock)
  then show ?thesis using give_back_inv[OF inv _ inj] by blast
next
  case (lapse k)
  have "s' = s\<lparr>im_redis := (im_redis s)\<lparr>rd_store := sv_del sv (rd_store (im_redis s)) k,
      rd_client := rd_client (im_redis s), rd_answers := rd_answers (im_redis s)\<rparr>,
      im_world := im_world s, im_log := Lapsed k # im_log s\<rparr>"
    using lapse(1) by simp
  moreover have "idem_inv sv reqs \<dots>"
    by (rule store_change_inv[OF inv]) (use lapse(2) idem_invD(2)[OF inv] in \<open>auto simp: del_get\<close>)
  ultimately show ?thesis by simp
next
  case (connection b a)
  have "s' = s\<lparr>im_redis := (im_redis s)\<lparr>rd_store := rd_store (im_redis s), rd_client := a, rd_answers := b\<rparr>,
      im_world := im_world s, im_log := im_log s\<rparr>"
    using connection by simp
  moreover have "idem_inv sv reqs \<dots>"
    by (rule store_change_inv[OF inv]) (use idem_invD(2)[OF inv] in auto)
  ultimately show ?thesis by simp
next
  case (elsewhere st w)
  have "s' = s\<lparr>im_redis := (im_redis s)\<lparr>rd_store := st, rd_client := rd_client (im_redis s),
      rd_answers := rd_answers (im_redis s)\<rparr>, im_world := w, im_log := im_log s\<rparr>"
    using elsewhere(1) by simp
  moreover have "idem_inv sv reqs \<dots>"
    by (rule store_change_inv[OF inv]) (use elsewhere(2) idempotency_key_prefix idem_invD(2)[OF inv] in auto)
  ultimately show ?thesis by simp
qed

lemma idem_run_inv:
  assumes "(idem_step sv reqs)\<^sup>*\<^sup>* s0 s" "idem_start s0" "inj (\<lambda>i. hr_token (reqs i))"
    and "\<And>i. protected_request (reqs i)"
  shows "idem_inv sv reqs s"
  using assms(1)
proof (induction rule: rtranclp_induct)
  case base
  show ?case using assms(2) by (intro idem_invI) (simp_all add: idem_start_def phase_ok_def)
next
  case (step s s') then show ?case using idem_step_inv assms(3,4) by blast
qed

lemma idem_run_once:
  assumes "idem_inv sv reqs s" "idempotencyLockKey (reqs i) = Some k" "idempotencyLockKey (reqs j) = Some k"
    and "im_phase s i = Succeeded" "im_phase s j = Succeeded" "i \<noteq> j"
  shows "\<exists>a b xs ys zs. {a, b} = {i, j} \<and> im_log s = xs @ Performed k a # ys @ Performed k b # zs \<and> Lapsed k \<in> set ys"
proof -
  note D = idem_invD[OF assms(1)]
  have "Performed k i \<in> set (im_log s)" "Performed k j \<in> set (im_log s)"
    using D(4)[OF assms(4)] D(4)[OF assms(5)] assms(2,3) by auto
  from once_between[OF D(2) this assms(6)] show ?thesis .
qed

end

end
