(* ===== verification/IdempotencyProperties.thy ===== *)
theory IdempotencyProperties
  imports Idempotency JobProperties
begin

text \<open>
  The property of idempotent requests, with its witness.
\<close>

text \<open>A request that has failed while Redis answers gives its key back, so it can be repeated.\<close>

lemma failed_request_frees_key:
  assumes "redis_laws sv" "idem_inv sv reqs s" "im_phase s i = Failing e lock" "reaches (im_redis s)"
    and "idempotencyLockKey (reqs i) = Some k"
  shows "sv_get sv (rd_store (idempotency_release sv lock (im_redis s))) k = None"
proof -
  from idem_invD(3)[OF assms(2), of i] assms(3,5) have
    "lock = Some \<lparr>lk_key = k, lk_token = hr_token (reqs i)\<rparr>"
    "sv_get sv (rd_store (im_redis s)) k = Some (hr_token (reqs i))"
    by (auto simp: phase_ok_def holds_lock_def lock_of_def)
  from redis_laws.release_effect(4)[OF assms(1) this(1) assms(4) this(2)] show ?thesis .
qed

text \<open>
  C21: a request repeated with the same idempotency key, by the same user, is performed
  once: however any number of requests interleave, with failures, outages of Redis and the
  rest of the program, between two that succeed with one key the lock of the first has
  expired.
\<close>

theorem repeated_request_performed_once:
  assumes "redis_laws sv" "idem_start s0" "(idem_step sv reqs)\<^sup>*\<^sup>* s0 s"
    and "inj (\<lambda>i. hr_token (reqs i))" "\<And>i. idempotency_metadata (hr_call (reqs i)) \<noteq> None"
    and "idempotencyLockKey (reqs i) = Some k" "idempotencyLockKey (reqs j) = Some k" "i \<noteq> j"
    and "im_phase s i = Succeeded" "im_phase s j = Succeeded"
  shows "\<exists>a b xs ys zs. {a, b} = {i, j} \<and> Lapsed k \<in> set ys
     \<and> im_log s = xs @ Performed k a # ys @ Performed k b # zs"
proof -
  have "idem_inv sv reqs s"
    by (rule redis_laws.idem_run_inv[OF assms(1,3,2,4)]) (simp add: protected_request_def assms(5))
  from redis_laws.idem_run_once[OF assms(1) this assms(6,7,9,10,8)] show ?thesis by blast
qed

text \<open>
  Two requests with one key: the first records an expense; its lock lapses, the expense
  is taken back elsewhere, and then the second records it again.
\<close>

definition demo_requests :: "nat \<Rightarrow> http_request" where
  "demo_requests i = \<lparr>hr_header = Some ''h'', hr_user = Some ''u'', hr_token = replicate i CHR ''x'',
     hr_call = demo_expense\<rparr>"

definition demo_key :: string where "demo_key = ''idempotency:u:h''"

definition demo_run :: "world \<Rightarrow> (string \<Rightarrow> string option) \<Rightarrow> (nat \<Rightarrow> idem_phase) \<Rightarrow> idem_event list
    \<Rightarrow> (string \<Rightarrow> string option) idem_run" where
  "demo_run w st p es = \<lparr>im_redis = demo_redis\<lparr>rd_store := st\<rparr>, im_world = w, im_phase = p, im_log = es\<rparr>"

definition demo_lock :: "nat \<Rightarrow> lock_handle" where
  "demo_lock i = \<lparr>lk_key = demo_key, lk_token = replicate i CHR ''x''\<rparr>"

lemma demo_request_key: "idempotencyLockKey (demo_requests i) = Some demo_key"
  by (simp add: idempotencyLockKey_def demo_requests_def demo_key_def falsy_def)

lemma demo_request_parts:
  "idempotency_metadata (hr_call (demo_requests i)) = Some \<lparr>io_ttlSeconds = None\<rparr>"
  "hr_token (demo_requests i) = replicate i CHR ''x''"
  by (simp_all add: demo_requests_def demo_expense_def)

lemma demo_request_admitted:
  assumes "p i = Arrived" "st demo_key = None"
  shows "idem_step map_server demo_requests (demo_run w st p es)
     (demo_run w (st(demo_key \<mapsto> replicate i CHR ''x'')) (p(i := Admitted (Some (demo_lock i)))) es)"
proof -
  have "idempotency_canActivate map_server (demo_requests i) (demo_redis\<lparr>rd_store := st\<rparr>)
      = (Inr (Some (demo_lock i)), demo_redis\<lparr>rd_store := st(demo_key \<mapsto> replicate i CHR ''x'')\<rparr>)"
    using assms(2) by (simp add: idempotency_canActivate_def demo_request_key demo_request_parts
        guard_acquireLock_def acquireLock_def demo_lock_def map_server_def demo_redis_def)
  then have "idem_step map_server demo_requests (demo_run w st p es)
     ((demo_run w st p es)\<lparr>im_redis := demo_redis\<lparr>rd_store := st(demo_key \<mapsto> replicate i CHR ''x'')\<rparr>,
       im_phase := (im_phase (demo_run w st p es))(i := Admitted (Some (demo_lock i)))\<rparr>)"
    by (intro idem_step.admit) (simp_all add: demo_run_def assms(1))
  then show ?thesis by (simp add: demo_run_def)
qed

lemma demo_request_succeeds:
  assumes "p i = Admitted lock"
  shows "idem_step map_server demo_requests (demo_run demo_open2 st p es)
     (demo_run demo_spent st (p(i := Succeeded)) (Performed demo_key i # es))"
proof -
  have "handle_request demo_provider 1715299300000 (demo_requests i) demo_open2 = Inr demo_spent"
    by (simp add: handle_request_def demo_requests_def demo_spends)
  then have "idem_step map_server demo_requests (demo_run demo_open2 st p es)
     ((demo_run demo_open2 st p es)\<lparr>im_world := demo_spent,
       im_phase := (im_phase (demo_run demo_open2 st p es))(i := Succeeded),
       im_log := performed_event (demo_requests i) i @ im_log (demo_run demo_open2 st p es)\<rparr>)"
    by (intro idem_step.succeed[where lock = lock]) (simp_all add: demo_run_def assms)
  then show ?thesis by (simp add: demo_run_def performed_event_def demo_request_key)
qed

lemma demo_lock_lapses:
  assumes "\<And>i. \<not> in_progress (p i)"
  shows "idem_step map_server demo_requests (demo_run w st p es)
     (demo_run w (st(demo_key := None)) p (Lapsed demo_key # es))"
proof -
  have "idem_step map_server demo_requests (demo_run w st p es)
     ((demo_run w st p es)\<lparr>im_redis := (im_redis (demo_run w st p es))\<lparr>rd_store :=
         sv_del map_server (rd_store (im_redis (demo_run w st p es))) demo_key\<rparr>,
       im_log := Lapsed demo_key # im_log (demo_run w st p es)\<rparr>)"
    by (rule idem_step.lapse) (simp add: demo_run_def assms)
  then show ?thesis by (simp add: demo_run_def map_server_def)
qed

lemma demo_taken_back:
  "idem_step map_server demo_requests (demo_run w st p es) (demo_run w' st p es)"
proof -
  have "idem_step map_server demo_requests (demo_run w st p es)
     ((demo_run w st p es)\<lparr>im_redis := (im_redis (demo_run w st p es))\<lparr>rd_store := st\<rparr>, im_world := w'\<rparr>)"
    by (rule idem_step.elsewhere) (simp add: demo_run_def)
  then show ?thesis by (simp add: demo_run_def)
qed

definition demo_phases :: "idem_phase \<Rightarrow> idem_phase \<Rightarrow> nat \<Rightarrow> idem_phase" where
  "demo_phases a b i = (if i = 0 then a else if i = 1 then b else Arrived)"

lemma demo_phases_simps:
  "(demo_phases a b)(0 := c) = demo_phases c b" "(demo_phases a b)(1 := c) = demo_phases a c"
  "demo_phases a b 0 = a" "demo_phases a b 1 = b"
  by (auto simp: demo_phases_def fun_eq_iff)

definition demo_end :: "(string \<Rightarrow> string option) idem_run" where
  "demo_end = demo_run demo_spent [demo_key \<mapsto> ''x''] (demo_phases Succeeded Succeeded)
     [Performed demo_key 1, Lapsed demo_key, Performed demo_key 0]"

lemma demo_runs:
  "(idem_step map_server demo_requests)\<^sup>*\<^sup>* (demo_run demo_open2 Map.empty (demo_phases Arrived Arrived) []) demo_end"
proof -
  let ?step = "idem_step map_server demo_requests"
  let ?p1 = "demo_phases (Admitted (Some (demo_lock 0))) Arrived" and ?p2 = "demo_phases Succeeded Arrived"
  let ?p3 = "demo_phases Succeeded (Admitted (Some (demo_lock 1)))"
  have "?step (demo_run demo_open2 Map.empty (demo_phases Arrived Arrived) []) (demo_run demo_open2 [demo_key \<mapsto> []] ?p1 [])"
    using demo_request_admitted[of "demo_phases Arrived Arrived" 0 Map.empty] by (simp add: demo_phases_simps)
  moreover have "?step \<dots> (demo_run demo_spent [demo_key \<mapsto> []] ?p2 [Performed demo_key 0])"
    using demo_request_succeeds[of ?p1 0] by (simp add: demo_phases_simps)
  moreover have "?step \<dots> (demo_run demo_spent Map.empty ?p2 [Lapsed demo_key, Performed demo_key 0])"
    using demo_lock_lapses[of ?p2 demo_spent "[demo_key \<mapsto> []]"] by (simp add: in_progress_def demo_phases_def)
  moreover have "?step \<dots> (demo_run demo_open2 Map.empty ?p2 [Lapsed demo_key, Performed demo_key 0])"
    by (rule demo_taken_back)
  moreover have "?step \<dots> (demo_run demo_open2 [demo_key \<mapsto> ''x''] ?p3 [Lapsed demo_key, Performed demo_key 0])"
    using demo_request_admitted[of ?p2 1 Map.empty, unfolded demo_phases_simps] by simp
  moreover have "?step \<dots> demo_end"
    using demo_request_succeeds[of ?p3 1, unfolded demo_phases_simps] by (simp add: demo_end_def)
  ultimately show ?thesis by (meson converse_rtranclp_into_rtranclp rtranclp.rtrancl_refl)
qed

theorem repeated_request_performed_once_witness:
  "\<exists>a b xs ys zs. {a, b} = {0, 1} \<and> Lapsed demo_key \<in> set ys
     \<and> im_log demo_end = xs @ Performed demo_key a # ys @ Performed demo_key b # zs"
proof (rule repeated_request_performed_once[OF map_redis.redis_laws_axioms _ demo_runs])
  show "idem_start (demo_run demo_open2 Map.empty (demo_phases Arrived Arrived) [])"
    by (simp add: idem_start_def demo_run_def demo_redis_def demo_phases_def)
  show "inj (\<lambda>i. hr_token (demo_requests i))"
    by (rule injI) (metis demo_request_parts(2) length_replicate)
qed (simp_all add: demo_request_parts demo_request_key demo_end_def demo_run_def demo_phases_def)

end
