(* ===== verification/Spec2Isabelle.thy ===== *)
theory Spec2Isabelle
  imports LedgerProperties InvoiceProperties SystemProperties JobProperties SessionProperties WorkspaceProperties
    ReportProperties MaintenanceProperties
    IdempotencyProperties
begin

text \<open>
  Verification library of nomina-be, the backend of a personal finance service
  (TypeScript, NestJS, PostgreSQL through drizzle, Redis). A user signs in to one of his
  workspaces; a workspace has accounts (cash, checking, investment, credit card),
  categories, transactions and recurring rules; scheduled jobs generate the transactions
  of the rules, settle card installments that have come due and audit the balances;
  reports are computed from the tables and cached per generation of the workspace.

  \<^bold>\<open>Shape of the model.\<close> A table is a list of rows, a row is a record with the columns of
  schema.ts, and an entity is the same record where its mapper copies every field. A
  service is a function of the time of the request, the identifiers it draws, the
  request and the state; errors are values of a sum whose left side has one constructor
  per error class, and one for a JavaScript exception. Where a service makes several
  database calls without one transaction around them it is a tree of atomic calls
  (theory Interleaving), so that other requests may run between two calls. Amounts are
  integers of cents, instants integers of milliseconds, and identifiers strings.

  \<^bold>\<open>Theories.\<close>
  \<^item> Prelude, Errors: lemma collections, tables, the string and number primitives of
    JavaScript the code uses; the error classes with the HTTP status of ErrorPresenter.
  \<^item> Accounts, Transactions, Recurring (src/src/modules/account and transaction,
    entities): constructors, edits and balance effects. Locale effect\_target is the
    interface between an effect and the account it moves.
  \<^item> Ledger, TransactionRepo, Books, Reconcile (src/src/infra/databases/drizzle/repositories
    and jobs/reconcile-balances): the financial tables with their constraints, the delta
    writer and its audit movements, every writing operation, and the audit. Locale
    posted\_ledger is what the writer owes the audit, locale balance\_mutation what a
    service owes the repository that runs its callback under row locks; theory
    LedgerProperties states the results.
  \<^item> Calendar, PlainDate, Invoice (valueObjects of the account module, utils/calendarMonth):
    ECMAScript dates, date strings, card invoices; theory InvoiceProperties.
  \<^item> World, TransactionServices, AccountServices, Schedule, RecurringServices (the features
    of both modules, utils/installmentSchedule): the thirteen requests that write.
    Locales drifting\_calendar and exact\_calendar are the laws of dayjs the schedules rest
    on, interpreted on a calendar of fixed offsets.
  \<^item> Redis, Jobs (infra/cache/redis, modules/transaction/jobs): the cache provider over a
    server that satisfies the locale redis\_laws, and the generation and settlement jobs.
  \<^item> ServiceContracts, System, Generation, Settlement: every request and job is one or more
    committed steps of the repositories, hence the program as a transition system with
    rule induction over its runs; theories SystemProperties and JobProperties.
  \<^item> Directory, Interleaving, Sessions, SessionContracts, SessionRotation (modules user and
    workspace): users, workspaces, members, invites, sessions and refresh tokens. Locale
    rely is the interface of concurrent requests: a relation that every atomic call of
    every request keeps; theory SessionProperties.
  \<^item> WorkspaceServices, WorkspaceContracts, WorkspaceLedger (modules workspace and
    subscription): the workspace services and plan limits, locale kept (one
    interpretation each for memberships, invites and the balance ledger); theory
    WorkspaceProperties.
  \<^item> Projection, Reports, ReportServices (module report, shared/cache/report-cache,
    services/get-workspace-timezone): the queries as functions of the tables, the
    projection of the month, the evolution of balances, cash flow, expenses by category,
    and the cache in front of them. ReportSeries and ReportMonth prove what series and
    projection add up, ReportFreshness runs the cache among concurrent requests; theory
    ReportProperties.
  \<^item> Idempotency (src/src/providers/auth, guard, interceptor and decorators): repeated
    requests as concurrent processes over one Redis; theory IdempotencyProperties.
  \<^item> Maintenance, Backfill (src/scripts, the two scripts that write to the tables): the
    backfill of opening movements, with what other sessions commit between its statements
    as an argument, and the backfill of installment counts; theory MaintenanceProperties.

  \<^bold>\<open>What the properties show.\<close> The ledger: balances are opening plus completed effects,
  every movement replays, the audit finds nothing in reachable states and every
  divergence in others, status changes are applied once and undone exactly. Invoices:
  each day belongs to one invoice and statements roll over. The program: requests are
  confined to their workspace, keep the schema and refine one repository step. Jobs: they
  end, process each rule once, charge installments in full and exclude each other.
  Sessions: one active token per session, concurrent refreshes agree, reuse and logout
  are final. Workspaces: invites admit one user, defaults stay unique, a deletion takes
  exactly its own rows, the guard admits within the plan. Reports: series and projection
  count every transaction once, and the cache never answers with tables older than the
  last bump before the request. Repeated requests are performed once per life of their
  lock. Maintenance: the backfill of openings does what its dry run announced while the
  application runs, and the backfill of counts, run again, writes nothing.

  \<^bold>\<open>Bounds and fuel.\<close> A generation run of a rule makes at most the number of steps the
  code allows per frequency; its batches have 50 rules and the fuel of the batch loop is
  the number of rules plus one, enough because each batch passes its cursor. A settlement
  takes 500 transactions at most. The search for the successor of a token follows
  MAX\_REFRESH\_TOKEN\_SUCCESSOR\_HOPS links, and a request of the authentication services
  makes at most 20 database calls, which is proved. The projection walks 1000 occurrences
  of a rule at most, which is enough for rules generated within nineteen years. The loop
  over the days of a report has no bound in the code: it is a partial function, and it is
  proved to end on a calendar that cuts the period into days.

  \<^bold>\<open>Parameters.\<close> The date provider (dayjs), the cryptography providers, the Redis server,
  PostgreSQL's local day of an instant, and JSON are arguments of the definitions; what
  is assumed of them are the laws of the locales above or hypotheses of a property.

  \<^bold>\<open>Idealisations.\<close> A database transaction is atomic and transactions are serial; under
  READ COMMITTED two transactions that set a default workspace at the same time may both
  commit, and a revocation may miss a successor inserted meanwhile. Calls started by one
  Promise.all run in their written order. A financial service sees one time for the whole
  request. Identifiers drawn by a database transaction that rolls back may be drawn
  again. Invalid dates do not occur. Reports use rationals where JavaScript has floats.
  Foreign keys to categories and users are not part of the constraints of the financial
  tables. Keys of Redis expire only in theories ReportFreshness and Idempotency; the generation
  counter never does, and no idempotency lock before its handler has ended.

  \<^bold>\<open>Not modelled.\<close> The HTTP layer (controllers, zod schemas, cookies, throttling,
  presenters other than those of the reports), configuration, logging and error
  reporting, the connection handling of Redis, paginated list queries and the services
  that only call them, profile and category editing screens, and the script that renames
  migration files: they hold no state of their own beyond what is modelled here.
\<close>

end
